theory Spec2Isabelle
  imports Main "HOL-Library.Word"
begin

section \<open>Resource addressing (internal/slugconv/slugconv.go)\<close>

subsection \<open>The regular expressions of the package\<close>

text \<open>
  The package compiles six anchored patterns with Go's \<open>regexp\<close> and reads the capture
  groups of \<open>FindStringSubmatch\<close>. The patterns use literals, character classes of ASCII
  ranges, capture groups, the greedy \<open>?\<close>, the bounded repetition \<open>{0,61}\<close> and the
  anchors \<open>^\<close> and \<open>$\<close>; \<open>regex\<close> is the syntax tree of that fragment. Strings are byte
  strings: every class of the package is ASCII, so a byte outside ASCII matches none of them,
  as in Go.
\<close>

datatype regex =
    Lit char
  | Class "(char \<times> char) list"
  | Nothing
  | Cat regex regex
  | Quest regex
  | Group regex
  | Bol
  | Eol

text \<open>A literal string is the concatenation of its bytes.\<close>

fun lits :: "string \<Rightarrow> regex" where
  "lits [] = Nothing"
| "lits (c # cs) = Cat (Lit c) (lits cs)"

text \<open>
  Go's \<open>regexp/syntax\<close> simplifies \<open>x{0,n}\<close> to the nested \<open>(?:x(?:x(?:x)?)?)?\<close>
  with \<open>n\<close> copies of \<open>x\<close>.
\<close>

fun upto_times :: "nat \<Rightarrow> regex \<Rightarrow> regex" where
  "upto_times 0 r = Nothing"
| "upto_times (Suc n) r = Quest (Cat r (upto_times n r))"

fun ngroups :: "regex \<Rightarrow> nat" where
  "ngroups (Cat a b) = ngroups a + ngroups b"
| "ngroups (Quest a) = ngroups a"
| "ngroups (Group a) = Suc (ngroups a)"
| "ngroups _ = 0"

definition in_class :: "(char \<times> char) list \<Rightarrow> char \<Rightarrow> bool" where
  "in_class rs c =
     list_ex (\<lambda>(lo, hi). (of_char lo :: nat) \<le> of_char c \<and> (of_char c :: nat) \<le> of_char hi) rs"

text \<open>
  A matcher state is the offset into the text, the rest of the text and the captures so far
  (newest first). \<open>run r k st\<close> lists every way \<open>r\<close> can match at \<open>st\<close>, in the order a
  backtracking matcher tries them, which is the preference order of Go's leftmost-first
  semantics; \<open>k\<close> is the number of groups opened to the left of \<open>r\<close>, so that groups are
  numbered by their opening parenthesis.
\<close>

type_synonym mstate = "nat \<times> string \<times> (nat \<times> string) list"

fun run :: "regex \<Rightarrow> nat \<Rightarrow> mstate \<Rightarrow> mstate list" where
  "run (Lit c) k (p, s, cs) =
     (case s of [] \<Rightarrow> [] | x # xs \<Rightarrow> if x = c then [(Suc p, xs, cs)] else [])"
| "run (Class rs) k (p, s, cs) =
     (case s of [] \<Rightarrow> [] | x # xs \<Rightarrow> if in_class rs x then [(Suc p, xs, cs)] else [])"
| "run Nothing k st = [st]"
| "run (Cat a b) k st = concat (map (run b (k + ngroups a)) (run a k st))"
| "run (Quest a) k st = run a k st @ [st]"
| "run (Group a) k (p, s, cs) =
     map (\<lambda>(p', s', cs'). (p', s', (Suc k, take (p' - p) s) # cs')) (run a (Suc k) (p, s, cs))"
| "run Bol k (p, s, cs) = (if p = 0 then [(p, s, cs)] else [])"
| "run Eol k (p, s, cs) = (if s = [] then [(p, s, cs)] else [])"

text \<open>
  \<open>FindStringSubmatch\<close>: the leftmost match, and at that offset the first in preference
  order. The result holds the text of the whole match and of each group (the empty string for
  a group that took no part); no match is the empty list, Go's nil slice.
\<close>

definition capture :: "(nat \<times> string) list \<Rightarrow> nat \<Rightarrow> string" where
  "capture cs j = (case map_of cs j of None \<Rightarrow> [] | Some v \<Rightarrow> v)"

definition submatches :: "regex \<Rightarrow> string \<Rightarrow> nat \<Rightarrow> mstate \<Rightarrow> string list" where
  "submatches re s i st = (case st of (p', s', cs') \<Rightarrow>
     take (p' - i) (drop i s) # map (capture cs') [1 ..< Suc (ngroups re)])"

fun find_from :: "regex \<Rightarrow> string \<Rightarrow> nat list \<Rightarrow> string list" where
  "find_from re s [] = []"
| "find_from re s (i # is) =
     (case run re 0 (i, drop i s, []) of
        [] \<Rightarrow> find_from re s is
      | st # _ \<Rightarrow> submatches re s i st)"

definition FindStringSubmatch :: "regex \<Rightarrow> string \<Rightarrow> string list" where
  "FindStringSubmatch re s = find_from re s [0 ..< Suc (length s)]"

subsection \<open>Patterns, formats and compiled expressions\<close>

definition categoryCollection :: string where "categoryCollection = ''categories''"
definition entryCollection :: string where "entryCollection = ''entries''"
definition chapterCollection :: string where "chapterCollection = ''chapters''"

text \<open>\<open>[a-zA-Z0-9]([a-z0-9-.]{0,61}[a-z0-9])?\<close>\<close>

definition resourceIDPattern :: regex where
  "resourceIDPattern =
     Cat (Class [(CHR ''a'', CHR ''z''), (CHR ''A'', CHR ''Z''), (CHR ''0'', CHR ''9'')])
         (Quest (Group
            (Cat (upto_times 61
                    (Class [(CHR ''a'', CHR ''z''), (CHR ''0'', CHR ''9''),
                            (CHR ''-'', CHR ''-''), (CHR ''.'', CHR ''.'')]))
                 (Class [(CHR ''a'', CHR ''z''), (CHR ''0'', CHR ''9'')]))))"

definition categoryPathPattern :: regex where
  "categoryPathPattern = Cat (lits (categoryCollection @ ''/'')) (Group resourceIDPattern)"

definition categoryPathFormat :: string where
  "categoryPathFormat = categoryCollection @ ''/%s''"

definition categorySlugPattern :: regex where
  "categorySlugPattern = Group resourceIDPattern"

definition categorySlugFormat :: string where
  "categorySlugFormat = ''%s''"

definition entryPathPattern :: regex where
  "entryPathPattern =
     Cat categoryPathPattern (Cat (lits (''/'' @ entryCollection @ ''/'')) (Group resourceIDPattern))"

definition entryPathFormat :: string where
  "entryPathFormat = categoryPathFormat @ ''/'' @ entryCollection @ ''/%s''"

definition entrySlugPattern :: regex where
  "entrySlugPattern = Cat categorySlugPattern (Cat (lits ''/'') (Group resourceIDPattern))"

definition entrySlugFormat :: string where
  "entrySlugFormat = categorySlugFormat @ ''/%s''"

definition chapterPathPattern :: regex where
  "chapterPathPattern =
     Cat entryPathPattern (Cat (lits (''/'' @ chapterCollection @ ''/'')) (Group resourceIDPattern))"

definition chapterPathFormat :: string where
  "chapterPathFormat = entryPathFormat @ ''/'' @ chapterCollection @ ''/%s''"

definition chapterSlugPattern :: regex where
  "chapterSlugPattern = Cat entrySlugPattern (Cat (lits ''/'') (Group resourceIDPattern))"

definition chapterSlugFormat :: string where
  "chapterSlugFormat = entrySlugFormat @ ''/%s''"

definition categoryMatchIndices :: "nat list" where "categoryMatchIndices = [1]"
definition entryMatchIndices :: "nat list" where "entryMatchIndices = [1, 3]"
definition chapterMatchIndices :: "nat list" where "chapterMatchIndices = [1, 3, 5]"

definition patternMustCompile :: "regex \<Rightarrow> bool \<Rightarrow> regex" where
  "patternMustCompile pattern optionalTrailingSlash =
     (let pattern' = (if optionalTrailingSlash then Cat pattern (Quest (Lit CHR ''/'')) else pattern)
      in Cat Bol (Cat pattern' Eol))"

definition categoryPath :: regex where "categoryPath = patternMustCompile categoryPathPattern False"
definition entryPath :: regex where "entryPath = patternMustCompile entryPathPattern False"
definition chapterPath :: regex where "chapterPath = patternMustCompile chapterPathPattern False"
definition categorySlug :: regex where "categorySlug = patternMustCompile categorySlugPattern True"
definition entrySlug :: regex where "entrySlug = patternMustCompile entrySlugPattern True"
definition chapterSlug :: regex where "chapterSlug = patternMustCompile chapterSlugPattern False"

subsection \<open>Conversions\<close>

datatype slug_error = ErrInvalidPath | ErrInvalidSlug | IndexOutOfRange

text \<open>
  \<open>fmt.Sprintf\<close> for formats whose only verb is \<open>%s\<close>. A verb without an argument prints
  \<open>%!s(MISSING)\<close>.
\<close>

fun Sprintf :: "string \<Rightarrow> string list \<Rightarrow> string" where
  "Sprintf [] args = []"
| "Sprintf [c] args = [c]"
| "Sprintf (c # d # fs) args =
     (if c = CHR ''%'' \<and> d = CHR ''s''
      then (case args of
              [] \<Rightarrow> ''%!s(MISSING)'' @ Sprintf fs []
            | a # as \<Rightarrow> a @ Sprintf fs as)
      else c # Sprintf (d # fs) args)"

text \<open>Reading \<open>matches[index]\<close> panics when the index is out of range.\<close>

fun pick :: "string list \<Rightarrow> nat list \<Rightarrow> string list option" where
  "pick ms [] = Some []"
| "pick ms (i # is) =
     (if i < length ms
      then (case pick ms is of None \<Rightarrow> None | Some as \<Rightarrow> Some (ms ! i # as))
      else None)"

definition convert :: "string \<Rightarrow> regex \<Rightarrow> string \<Rightarrow> slug_error \<Rightarrow> nat list \<Rightarrow> slug_error + string" where
  "convert from pattern format matchErr matchIndices =
     (let matches = FindStringSubmatch pattern from in
      if length matches = 0 then Inl matchErr
      else (case pick matches matchIndices of
              None \<Rightarrow> Inl IndexOutOfRange
            | Some args \<Rightarrow> Inr (Sprintf format args)))"

definition toPath :: "string \<Rightarrow> regex \<Rightarrow> string \<Rightarrow> nat list \<Rightarrow> slug_error + string" where
  "toPath slug pattern format matchIndices = convert slug pattern format ErrInvalidSlug matchIndices"

definition toSlug :: "string \<Rightarrow> regex \<Rightarrow> string \<Rightarrow> nat list \<Rightarrow> slug_error + string" where
  "toSlug path pattern format matchIndices = convert path pattern format ErrInvalidPath matchIndices"

definition ToCategoryPath :: "string \<Rightarrow> slug_error + string" where
  "ToCategoryPath slug = toPath slug categorySlug categoryPathFormat categoryMatchIndices"

definition ToEntryPath :: "string \<Rightarrow> slug_error + string" where
  "ToEntryPath slug = toPath slug entrySlug entryPathFormat entryMatchIndices"

definition ToChapterPath :: "string \<Rightarrow> slug_error + string" where
  "ToChapterPath slug = toPath slug chapterSlug chapterPathFormat chapterMatchIndices"

definition FromCategoryPath :: "string \<Rightarrow> slug_error + string" where
  "FromCategoryPath path = toSlug path categoryPath categorySlugFormat categoryMatchIndices"

definition FromEntryPath :: "string \<Rightarrow> slug_error + string" where
  "FromEntryPath path = toSlug path entryPath entrySlugFormat entryMatchIndices"

definition FromChapterPath :: "string \<Rightarrow> slug_error + string" where
  "FromChapterPath path = toSlug path chapterPath chapterSlugFormat chapterMatchIndices"


definition resource_id :: "string \<Rightarrow> bool" where
  "resource_id s =
     (case s of
        [] \<Rightarrow> False
      | x # t \<Rightarrow>
          in_class [(CHR ''a'', CHR ''z''), (CHR ''A'', CHR ''Z''), (CHR ''0'', CHR ''9'')] x \<and>
          (t = [] \<or>
           (length t \<le> 62 \<and>
            list_all (in_class [(CHR ''a'', CHR ''z''), (CHR ''0'', CHR ''9''),
                                (CHR ''-'', CHR ''-''), (CHR ''.'', CHR ''.'')]) (butlast t) \<and>
            in_class [(CHR ''a'', CHR ''z''), (CHR ''0'', CHR ''9'')] (last t))))"

definition group_caps :: "nat \<Rightarrow> string \<Rightarrow> (nat \<times> string) list \<Rightarrow> (nat \<times> string) list" where
  "group_caps k u cs = (Suc k, u) # (if tl u = [] then cs else (Suc (Suc k), tl u) # cs)"


text \<open>
  The grammar as the specification writes it, \<open>[A-Za-z0-9][a-z0-9-.]{0,61}[a-z0-9]?\<close>:
  the last class is optional on its own, not together with the repetition.
\<close>

definition spec_resourceIDPattern :: regex where
  "spec_resourceIDPattern =
     Cat (Class [(CHR ''A'', CHR ''Z''), (CHR ''a'', CHR ''z''), (CHR ''0'', CHR ''9'')])
         (Cat (upto_times 61
                 (Class [(CHR ''a'', CHR ''z''), (CHR ''0'', CHR ''9''),
                         (CHR ''-'', CHR ''-''), (CHR ''.'', CHR ''.'')]))
              (Quest (Class [(CHR ''a'', CHR ''z''), (CHR ''0'', CHR ''9'')])))"

text \<open>A string matches a pattern when some run of the matcher consumes all of it.\<close>

definition full_match :: "regex \<Rightarrow> string \<Rightarrow> bool" where
  "full_match r s = list_ex (\<lambda>(p, rest, cs). rest = []) (run r 0 (0, s, []))"

definition accepts :: "(string \<Rightarrow> slug_error + string) \<Rightarrow> string \<Rightarrow> bool" where
  "accepts f s = (case f s of Inl _ \<Rightarrow> False | Inr _ \<Rightarrow> True)"

text \<open>
  The segments of a slug or path are its non-empty pieces between slashes, so that a trailing
  slash does not start a segment.
\<close>

fun split_on :: "char \<Rightarrow> string \<Rightarrow> string list" where
  "split_on c [] = [[]]"
| "split_on c (x # xs) =
     (if x = c then [] # split_on c xs
      else (case split_on c xs of [] \<Rightarrow> [[x]] | y # ys \<Rightarrow> (x # y) # ys))"

definition segments :: "string \<Rightarrow> string list" where
  "segments s = filter (\<lambda>p. p \<noteq> []) (split_on CHR ''/'' s)"

section \<open>Errors, timestamps and pagination tokens\<close>

text \<open>
  A handler returns Go's pair of a response and an error, each of which may be nil; both are
  kept, because the Paginator returns the response together with an error. A connect error
  carries its code and its cause.
\<close>

datatype code =
    CodeInvalidArgument
  | CodeNotFound
  | CodeAlreadyExists
  | CodePermissionDenied
  | CodeInternal
  | CodeUnimplemented

datatype token_failure = DecodeFailed | UnmarshalFailed | ValidateFailed | MarshalFailed

datatype cause = NoCause | TokenError token_failure | SlugError slug_error | Cause string

datatype error = ConnectError code cause | NilDereference

type_synonym 'a result = "'a option \<times> error option"

type_synonym ('q, 'r, 'w) handler = "'q \<Rightarrow> 'w \<Rightarrow> 'r result \<times> 'w"

text \<open>
  A protobuf timestamp is its seconds and nanoseconds; an unset timestamp field is \<open>None\<close>.
  \<open>AsTime\<close> is the instant in nanoseconds since the Unix epoch, which is the epoch itself for
  a nil timestamp.
\<close>

type_synonym timestamp = "int \<times> int"

definition AsTime :: "timestamp option \<Rightarrow> int" where
  "AsTime t = (case t of None \<Rightarrow> 0 | Some (s, n) \<Rightarrow> s * 1000000000 + n)"

subsection \<open>Token encoding (package pagination)\<close>

text \<open>
  The token messages are generated from a schema that is not part of the sources. A
  \<open>codec\<close> holds the library functions \<open>FromToken\<close> and \<open>ToToken\<close> call for one token
  type: base64url decoding and encoding, protobuf unmarshalling and marshalling, and the
  schema validation of the message.
\<close>

record 'tkn codec =
  decodeString :: "string \<Rightarrow> string option"
  unmarshal :: "string \<Rightarrow> 'tkn option"
  validateToken :: "'tkn \<Rightarrow> bool"
  marshal :: "'tkn \<Rightarrow> string option"
  encodeToString :: "string \<Rightarrow> string"

definition FromToken :: "'tkn codec \<Rightarrow> string \<Rightarrow> token_failure + 'tkn" where
  "FromToken cd tkn =
     (case decodeString cd tkn of
        None \<Rightarrow> Inl DecodeFailed
      | Some data \<Rightarrow>
          (case unmarshal cd data of
             None \<Rightarrow> Inl UnmarshalFailed
           | Some msg \<Rightarrow> if validateToken cd msg then Inr msg else Inl ValidateFailed))"

definition ToToken :: "'tkn codec \<Rightarrow> 'tkn \<Rightarrow> token_failure + string" where
  "ToToken cd msg =
     (if \<not> validateToken cd msg then Inl ValidateFailed
      else (case marshal cd msg of
              None \<Rightarrow> Inl MarshalFailed
            | Some data \<Rightarrow> Inr (encodeToString cd data)))"

text \<open>
  A codec given by a finite table of token strings and the messages they stand for; it serves
  to evaluate the operations on concrete requests.
\<close>

definition table_codec :: "(string \<times> 'tkn) list \<Rightarrow> 'tkn codec" where
  "table_codec tab =
     \<lparr> decodeString = (\<lambda>s. if s \<in> fst ` set tab then Some s else None),
       unmarshal = map_of tab,
       validateToken = (\<lambda>_. True),
       marshal = (\<lambda>t. map_option fst (find (\<lambda>(s, t'). t' = t) tab)),
       encodeToString = (\<lambda>s. s) \<rparr>"

subsection \<open>Messages\<close>

datatype entry_kind = KIND_UNSPECIFIED | STORY | ANTHOLOGY

record entry =
  path :: string
  display_name :: string
  kind :: entry_kind
  update_time :: "timestamp option"
  starred :: bool
  hidden :: bool
  view_time :: "timestamp option"
  read_time :: "timestamp option"

record category =
  cat_path :: string
  cat_display_name :: string
  cat_description :: string
  cat_hidden :: bool

record chapter_msg =
  ch_path :: string
  ch_display_name :: string
  ch_update_time :: "timestamp option"
  ch_view_time :: "timestamp option"
  ch_read_time :: "timestamp option"

record entries_token =
  page :: "32 word"
  after_entry :: string
  start_update_time :: "timestamp option"

text \<open>
  A list request; \<open>filter_expr\<close> is \<open>None\<close> for a request type without a filter field. A
  list response holds the results and the next page token.
\<close>

record list_request =
  parent :: string
  filter_expr :: "string option"
  max_page_size :: int
  page_token :: string

record 'e list_response =
  results :: "'e list"
  next_page_token :: string

section \<open>Scraper (package archive)\<close>

text \<open>
  A civil time holds the fields the scraper reads and passes to \<open>time.Date\<close>; the nanosecond
  is always 0 and the location always the scraper's. \<open>time.Date\<close> is not evaluated: the time
  built by \<open>parseRowTimestamp\<close> is the record of its arguments, whose \<open>year\<close> is the inferred
  year.
\<close>

record civil =
  year :: int
  month :: int
  day :: int
  hour :: int
  minute :: int
  second :: int

text \<open>
  A row of a listing as the scraper reads it: the text of its first cell, the text of its
  second cell and the \<open>href\<close> of the link in its third cell (empty when there is none). A
  fetched page holds the parsed \<open>Last-Modified\<close> header (if it parses), whether the page has a
  \<open>#scroll\<close> element, and its rows in document order.
\<close>

record row =
  cell0 :: string
  cell1 :: string
  href :: string

record html_page =
  last_modified :: "civil option"
  has_scroll :: bool
  rows :: "row list"

text \<open>The address the scraper visits: the slug and, after page 1, the number in \<open>indexN.html\<close>.\<close>

datatype address = Listing string | ListingIndex string int

text \<open>
  The collaborators of the scraper that are not part of the sources: the clock, the two
  layouts of \<open>time.ParseInLocation\<close> (\<open>Jan _2 15:04\<close> and \<open>Jan _2 2006\<close>) in the scraper's
  location, \<open>timestamppb.New\<close> and \<open>timestamppb.Now\<close>, \<open>path.Join\<close>, the title of a slug, and
  the fetch of a page (\<open>None\<close> when the visit fails).
\<close>

record scraper_env =
  clock :: civil
  parseRecent :: "string \<Rightarrow> civil option"
  parseOlder :: "string \<Rightarrow> civil option"
  newTimestamp :: "civil \<Rightarrow> timestamp"
  nowTimestamp :: timestamp
  pathJoin :: "string \<Rightarrow> string \<Rightarrow> string"
  toTitle :: "string \<Rightarrow> string"
  visit :: "address \<Rightarrow> html_page option"

datatype row_error = BadTimestamp | BadSlug

definition parseRowTimestamp :: "scraper_env \<Rightarrow> string \<Rightarrow> civil \<Rightarrow> row_error + civil" where
  "parseRowTimestamp env rowTimestamp parentLastUpdated =
     (case parseRecent env rowTimestamp of
        None \<Rightarrow>
          (case parseOlder env rowTimestamp of None \<Rightarrow> Inl BadTimestamp | Some t \<Rightarrow> Inr t)
      | Some parsed \<Rightarrow>
          (let parent = parentLastUpdated;
               now = clock env;
               y = (if year parent < year now
                    then (if month parent < month parsed then year parent - 1 else year parent)
                    else if month now < month parsed then year now - 1
                    else year now)
           in Inr \<lparr> year = y, month = month parsed, day = day parsed, hour = hour parsed,
                    minute = minute parsed, second = second parsed \<rparr>))"

definition parseRow ::
  "scraper_env \<Rightarrow> row \<Rightarrow> civil \<Rightarrow> string \<Rightarrow> row_error + (entry_kind \<times> civil \<times> string \<times> string)" where
  "parseRow env r parentLastUpdated slugBase =
     (let k = (if cell0 r = ''Dir'' then ANTHOLOGY else STORY) in
      case parseRowTimestamp env (cell1 r) parentLastUpdated of
        Inl e \<Rightarrow> Inl e
      | Inr lastUpdated \<Rightarrow>
          (let slug = href r in
           if slug = [] then Inl BadSlug
           else Inr (k, lastUpdated, pathJoin env slugBase slug, toTitle env slug)))"

text \<open>
  \<open>scrapeRows\<close> at a fetched page: a row that does not parse, or whose slug does not convert,
  is logged and skipped; the others are handed to \<open>onSuccess\<close> in document order.
\<close>

definition scrapeRows ::
  "scraper_env \<Rightarrow> html_page \<Rightarrow> string \<Rightarrow> (string \<Rightarrow> slug_error + string) \<Rightarrow>
   (entry_kind \<times> civil \<times> string \<times> string) list" where
  "scrapeRows env pg parentSlug childSlugToPath =
     (let parentLastModified = (case last_modified pg of None \<Rightarrow> clock env | Some t \<Rightarrow> t) in
      List.map_filter
        (\<lambda>r. case parseRow env r parentLastModified parentSlug of
                Inl _ \<Rightarrow> None
              | Inr (k, lastUpdated, slug, title) \<Rightarrow>
                  (case childSlugToPath slug of
                     Inl _ \<Rightarrow> None
                   | Inr childPath \<Rightarrow> Some (k, lastUpdated, childPath, title)))
        (rows pg))"

definition Scraper_ListEntries ::
  "scraper_env \<Rightarrow> entries_token codec \<Rightarrow> list_request \<Rightarrow> entry list_response result" where
  "Scraper_ListEntries env cd req =
     (case FromCategoryPath (parent req) of
        Inl e \<Rightarrow> (None, Some (ConnectError CodeInvalidArgument (SlugError e)))
      | Inr slug \<Rightarrow>
          (case (if page_token req \<noteq> [] then FromToken cd (page_token req)
                 else Inr \<lparr> page = 1, after_entry = [], start_update_time = None \<rparr>) of
             Inl f \<Rightarrow> (None, Some (ConnectError CodeInvalidArgument (TokenError f)))
           | Inr pg \<Rightarrow>
               (let paginated0 = (page_token req \<noteq> [] \<and> 1 < sint (page pg));
                    addr = (if 1 < sint (page pg)
                            then ListingIndex slug (sint (page pg) - 1)
                            else Listing slug)
                in case visit env addr of
                     None \<Rightarrow> (None, Some (ConnectError CodeInternal (Cause ''failed to scrape'')))
                   | Some html \<Rightarrow>
                       (let rs = map (\<lambda>(k, lastUpdated, childPath, title).
                                       \<lparr> path = childPath, display_name = title, kind = k,
                                         update_time = Some (newTimestamp env lastUpdated),
                                         starred = False, hidden = False,
                                         view_time = None, read_time = None \<rparr>)
                                  (scrapeRows env html slug ToEntryPath);
                            paginated = (paginated0 \<or> has_scroll html)
                        in if paginated
                           then (let nextPage =
                                       (if length rs > 0
                                        then \<lparr> page = page pg, after_entry = path (last rs),
                                               start_update_time = update_time (last rs) \<rparr>
                                        else \<lparr> page = page pg,
                                               after_entry = ''categories/xxx/entries/xxx'',
                                               start_update_time = Some (nowTimestamp env) \<rparr>)
                                 in case ToToken cd nextPage of
                                      Inl f \<Rightarrow> (None, Some (ConnectError CodeInternal (TokenError f)))
                                    | Inr tkn \<Rightarrow>
                                        (Some \<lparr> results = rs, next_page_token = tkn \<rparr>, None))
                           else (Some \<lparr> results = rs, next_page_token = [] \<rparr>, None)))))"

text \<open>Concrete collaborators, used to evaluate the scraper on a request.\<close>

definition example_env :: scraper_env where
  "example_env =
     \<lparr> clock = \<lparr> year = 2026, month = 11, day = 1, hour = 9, minute = 30, second = 0 \<rparr>,
       parseRecent = (\<lambda>s. if s = ''Feb  1 12:00''
                           then Some \<lparr> year = 0, month = 2, day = 1, hour = 12, minute = 0, second = 0 \<rparr>
                           else None),
       parseOlder = (\<lambda>s. if s = ''Mar 15 2023''
                          then Some \<lparr> year = 2023, month = 3, day = 15, hour = 0, minute = 0, second = 0 \<rparr>
                          else None),
       newTimestamp = (\<lambda>t. (year t * 31536000, 0)),
       nowTimestamp = (1793525400, 0),
       pathJoin = (\<lambda>a b. a @ ''/'' @ b),
       toTitle = (\<lambda>s. s),
       visit = (\<lambda>a. if a = Listing ''empty''
                      then Some \<lparr> last_modified = None, has_scroll = True, rows = [] \<rparr>
                      else None) \<rparr>"

definition example_codec :: "entries_token codec" where
  "example_codec =
     table_codec
       [(''cGFnZTE'', \<lparr> page = 1, after_entry = ''categories/xxx/entries/xxx'',
                       start_update_time = Some (1793525400, 0) \<rparr>)]"

section \<open>Paginator (internal/archive/paginator.go)\<close>

record categories_token =
  after_category :: string

record chapters_token =
  after_chapter :: string

record users_token =
  after_user :: string

record user =
  user_path :: string
  user_id :: string

text \<open>\<open>slices.IndexFunc\<close>; \<open>None\<close> stands for \<open>-1\<close>.\<close>

fun IndexFunc :: "('a \<Rightarrow> bool) \<Rightarrow> 'a list \<Rightarrow> nat option" where
  "IndexFunc f [] = None"
| "IndexFunc f (x # xs) = (if f x then Some 0 else map_option Suc (IndexFunc f xs))"

text \<open>\<open>cmp.Less\<close> on strings: the bytewise lexicographic order.\<close>

fun str_less :: "string \<Rightarrow> string \<Rightarrow> bool" where
  "str_less [] [] = False"
| "str_less [] (y # ys) = True"
| "str_less (x # xs) [] = False"
| "str_less (x # xs) (y # ys) =
     ((of_char x :: nat) < of_char y \<or> (x = y \<and> str_less xs ys))"

text \<open>
  The filter is compiled by cel-go, which is not part of the sources, as the expression
  \<open>results.filter(this, <filter>)\<close>. A \<open>cel\<close> environment maps a filter string to a
  compilation error (a syntax or type error, or a result type other than the list type) or to
  the predicate on \<open>this\<close>, which may itself fail on an element; the \<open>filter\<close> macro
  evaluates the predicate on each element of the list in order and keeps those for which it
  is true.
\<close>

type_synonym 'e cel = "string \<Rightarrow> string + ('e \<Rightarrow> string + bool)"

fun ContextEval :: "('e \<Rightarrow> string + bool) \<Rightarrow> 'e list \<Rightarrow> string + 'e list" where
  "ContextEval p [] = Inr []"
| "ContextEval p (x # xs) =
     (case p x of
        Inl e \<Rightarrow> Inl e
      | Inr b \<Rightarrow>
          (case ContextEval p xs of
             Inl e \<Rightarrow> Inl e
           | Inr ys \<Rightarrow> Inr (if b then x # ys else ys)))"

text \<open>
  The response is mutated in place by the three steps; each step returns the response (with
  the variables its closures capture) and its error.
\<close>

definition applyToken ::
  "'tkn codec \<Rightarrow> string \<Rightarrow> ('tkn \<Rightarrow> 'st \<Rightarrow> 'st) \<Rightarrow> 'st \<Rightarrow> 'st \<times> error option" where
  "applyToken cd pageTkn applyFn st =
     (if pageTkn = [] then (st, None)
      else (case FromToken cd pageTkn of
              Inl f \<Rightarrow> (st, Some (ConnectError CodeInvalidArgument (TokenError f)))
            | Inr tkn \<Rightarrow> (applyFn tkn st, None)))"

definition applyFilter ::
  "'e cel \<Rightarrow> list_request \<Rightarrow> 'e list_response \<Rightarrow> 'e list_response \<times> error option" where
  "applyFilter env req res =
     (case filter_expr req of
        None \<Rightarrow> (res, None)
      | Some f \<Rightarrow>
          if f = [] \<or> length (results res) = 0 then (res, None)
          else (case env f of
                  Inl e \<Rightarrow> (res, Some (ConnectError CodeInvalidArgument (Cause e)))
                | Inr prog \<Rightarrow>
                    (case ContextEval prog (results res) of
                       Inl e \<Rightarrow> (res, Some (ConnectError CodeInvalidArgument (Cause e)))
                     | Inr out \<Rightarrow> (res\<lparr> results := out \<rparr>, None))))"

definition applyPageSize ::
  "'tkn codec \<Rightarrow> list_request \<Rightarrow>
   (int \<Rightarrow> 'tkn option \<Rightarrow> 'e list_response \<times> 'aux \<Rightarrow> 'tkn option \<times> 'e list_response \<times> 'aux) \<Rightarrow>
   'e list_response \<times> 'aux \<Rightarrow> ('e list_response \<times> 'aux) \<times> error option" where
  "applyPageSize cd req applyFn st =
     (let sz = max_page_size req; currentSize = int (length (results (fst st))) in
      if sz \<le> 0 \<or> currentSize < sz then (st, None)
      else (case (if next_page_token (fst st) \<noteq> []
                  then (case FromToken cd (next_page_token (fst st)) of
                          Inl f \<Rightarrow> Inl f
                        | Inr t \<Rightarrow> Inr (Some t))
                  else Inr None) of
              Inl f \<Rightarrow> (st, Some (ConnectError CodeInvalidArgument (TokenError f)))
            | Inr tkn0 \<Rightarrow>
                (case applyFn sz tkn0 st of
                   (None, res', aux') \<Rightarrow> ((res'\<lparr> next_page_token := [] \<rparr>, aux'), None)
                 | (Some tkn, res', aux') \<Rightarrow>
                     (case ToToken cd tkn of
                        Inl f \<Rightarrow> ((res', aux'), Some (ConnectError CodeInternal (TokenError f)))
                      | Inr tknStr \<Rightarrow> ((res'\<lparr> next_page_token := tknStr \<rparr>, aux'), None)))))"

definition applyPagination ::
  "'tkn codec \<Rightarrow> 'e cel \<Rightarrow> list_request \<Rightarrow>
   ('tkn \<Rightarrow> 'e list_response \<times> 'aux \<Rightarrow> 'e list_response \<times> 'aux) \<Rightarrow>
   (int \<Rightarrow> 'tkn option \<Rightarrow> 'e list_response \<times> 'aux \<Rightarrow> 'tkn option \<times> 'e list_response \<times> 'aux) \<Rightarrow>
   'e list_response \<times> 'aux \<Rightarrow> ('e list_response \<times> 'aux) \<times> error option" where
  "applyPagination cd env req applyPageTokenFn applyPageSizeFn st =
     (case applyToken cd (page_token req) applyPageTokenFn st of
        (st1, Some err) \<Rightarrow> (st1, Some err)
      | (st1, None) \<Rightarrow>
          (case applyFilter env req (fst st1) of
             (res2, Some err) \<Rightarrow> ((res2, snd st1), Some err)
           | (res2, None) \<Rightarrow> applyPageSize cd req applyPageSizeFn (res2, snd st1)))"

subsection \<open>The closures of the four list operations\<close>

text \<open>
  The page-size closures slice \<open>results[:size]\<close> and read \<open>results[size-1]\<close>;
  \<open>applyPageSize\<close> calls them only with \<open>1 \<le> size \<le> len(results)\<close>, where both are in range.
\<close>

definition categoriesTokenFn ::
  "categories_token \<Rightarrow> category list_response \<times> unit \<Rightarrow> category list_response \<times> unit" where
  "categoriesTokenFn tkn st =
     (let res = fst st; rs = results res in
      case IndexFunc (\<lambda>c. cat_path c = after_category tkn) rs of
        Some idx \<Rightarrow> (res\<lparr> results := drop (idx + 1) rs \<rparr>, snd st)
      | None \<Rightarrow>
          (case IndexFunc (\<lambda>c. str_less (after_category tkn) (cat_path c)) rs of
             Some idx \<Rightarrow> (res\<lparr> results := drop idx rs \<rparr>, snd st)
           | None \<Rightarrow> (res\<lparr> results := [] \<rparr>, snd st)))"

definition categoriesSizeFn ::
  "int \<Rightarrow> categories_token option \<Rightarrow> category list_response \<times> unit \<Rightarrow>
   categories_token option \<times> category list_response \<times> unit" where
  "categoriesSizeFn sz token st =
     (let rs = take (nat sz) (results (fst st));
          token0 = (case token of None \<Rightarrow> \<lparr> after_category = [] \<rparr> | Some t \<Rightarrow> t)
      in (Some (token0\<lparr> after_category := cat_path (rs ! (nat sz - 1)) \<rparr>),
          (fst st)\<lparr> results := rs \<rparr>, snd st))"

text \<open>The entries closures share the variable \<open>entriesAfterCursor\<close>.\<close>

definition entriesTokenFn ::
  "entries_token \<Rightarrow> entry list_response \<times> int \<Rightarrow> entry list_response \<times> int" where
  "entriesTokenFn tkn st =
     (let res = fst st; rs = results res in
      case IndexFunc (\<lambda>e. path e = after_entry tkn \<and> update_time e = start_update_time tkn) rs of
        Some idx \<Rightarrow> (res\<lparr> results := drop (idx + 1) rs \<rparr>, int (length rs) - int idx - 1)
      | None \<Rightarrow>
          (let tknStartTime = AsTime (start_update_time tkn) in
           case IndexFunc (\<lambda>e. tknStartTime = AsTime (update_time e) \<or>
                                tknStartTime < AsTime (update_time e)) rs of
             Some idx \<Rightarrow> (res\<lparr> results := drop idx rs \<rparr>, int (length rs) - int idx)
           | None \<Rightarrow> (res\<lparr> results := [] \<rparr>, 0)))"

definition entriesSizeFn ::
  "int \<Rightarrow> entries_token option \<Rightarrow> entry list_response \<times> int \<Rightarrow>
   entries_token option \<times> entry list_response \<times> int" where
  "entriesSizeFn sz token st =
     (let rs = take (nat sz) (results (fst st));
          entriesAfterCursor = snd st;
          token0 = (case token of
                      None \<Rightarrow> \<lparr> page = 1, after_entry = [], start_update_time = None \<rparr>
                    | Some t \<Rightarrow> t);
          token1 = (if entriesAfterCursor > 0 \<and> entriesAfterCursor \<le> sz
                    then token0\<lparr> page := page token0 + 1 \<rparr> else token0)
      in (Some (token1\<lparr> after_entry := path (rs ! (nat sz - 1)),
                        start_update_time := update_time (rs ! (nat sz - 1)) \<rparr>),
          (fst st)\<lparr> results := rs \<rparr>, entriesAfterCursor))"

definition chaptersTokenFn ::
  "chapters_token \<Rightarrow> chapter_msg list_response \<times> unit \<Rightarrow> chapter_msg list_response \<times> unit" where
  "chaptersTokenFn tkn st =
     (let res = fst st; rs = results res in
      case IndexFunc (\<lambda>c. ch_path c = after_chapter tkn) rs of
        Some idx \<Rightarrow> (res\<lparr> results := drop (idx + 1) rs \<rparr>, snd st)
      | None \<Rightarrow> st)"

definition chaptersSizeFn ::
  "int \<Rightarrow> chapters_token option \<Rightarrow> chapter_msg list_response \<times> unit \<Rightarrow>
   chapters_token option \<times> chapter_msg list_response \<times> unit" where
  "chaptersSizeFn sz token st =
     (let rs = take (nat sz) (results (fst st));
          token0 = (case token of None \<Rightarrow> \<lparr> after_chapter = [] \<rparr> | Some t \<Rightarrow> t)
      in (Some (token0\<lparr> after_chapter := ch_path (rs ! (nat sz - 1)) \<rparr>),
          (fst st)\<lparr> results := rs \<rparr>, snd st))"

definition usersTokenFn ::
  "users_token \<Rightarrow> user list_response \<times> unit \<Rightarrow> user list_response \<times> unit" where
  "usersTokenFn tkn st =
     (let res = fst st; rs = results res in
      case IndexFunc (\<lambda>u. user_path u = after_user tkn) rs of
        Some idx \<Rightarrow> (res\<lparr> results := drop (idx + 1) rs \<rparr>, snd st)
      | None \<Rightarrow> st)"

definition usersSizeFn ::
  "int \<Rightarrow> users_token option \<Rightarrow> user list_response \<times> unit \<Rightarrow>
   users_token option \<times> user list_response \<times> unit" where
  "usersSizeFn sz token st =
     (let rs = take (nat sz) (results (fst st));
          token0 = (case token of None \<Rightarrow> \<lparr> after_user = [] \<rparr> | Some t \<Rightarrow> t)
      in (Some (token0\<lparr> after_user := user_path (rs ! (nat sz - 1)) \<rparr>),
          (fst st)\<lparr> results := rs \<rparr>, snd st))"

subsection \<open>The four list operations\<close>

text \<open>
  Each operation calls the wrapped handler first and returns its error as it is; otherwise it
  returns the response of the wrapped handler, mutated, together with the error of
  \<open>applyPagination\<close>. A nil response without an error is dereferenced.
\<close>

definition Paginator_ListCategories ::
  "categories_token codec \<Rightarrow> category cel \<Rightarrow>
   (list_request, category list_response, 'w) handler \<Rightarrow>
   (list_request, category list_response, 'w) handler" where
  "Paginator_ListCategories cd env inner req w =
     (case inner req w of
        ((_, Some err), w') \<Rightarrow> ((None, Some err), w')
      | ((None, None), w') \<Rightarrow> ((None, Some NilDereference), w')
      | ((Some res, None), w') \<Rightarrow>
          (case applyPagination cd env req categoriesTokenFn categoriesSizeFn (res, ()) of
             ((res', _), err) \<Rightarrow> ((Some res', err), w')))"

definition Paginator_ListEntries ::
  "entries_token codec \<Rightarrow> entry cel \<Rightarrow>
   (list_request, entry list_response, 'w) handler \<Rightarrow>
   (list_request, entry list_response, 'w) handler" where
  "Paginator_ListEntries cd env inner req w =
     (case inner req w of
        ((_, Some err), w') \<Rightarrow> ((None, Some err), w')
      | ((None, None), w') \<Rightarrow> ((None, Some NilDereference), w')
      | ((Some res, None), w') \<Rightarrow>
          (case applyPagination cd env req entriesTokenFn entriesSizeFn (res, 0) of
             ((res', _), err) \<Rightarrow> ((Some res', err), w')))"

definition Paginator_ListChapters ::
  "chapters_token codec \<Rightarrow> chapter_msg cel \<Rightarrow>
   (list_request, chapter_msg list_response, 'w) handler \<Rightarrow>
   (list_request, chapter_msg list_response, 'w) handler" where
  "Paginator_ListChapters cd env inner req w =
     (case inner req w of
        ((_, Some err), w') \<Rightarrow> ((None, Some err), w')
      | ((None, None), w') \<Rightarrow> ((None, Some NilDereference), w')
      | ((Some res, None), w') \<Rightarrow>
          (case applyPagination cd env req chaptersTokenFn chaptersSizeFn (res, ()) of
             ((res', _), err) \<Rightarrow> ((Some res', err), w')))"

definition Paginator_ListUsers ::
  "users_token codec \<Rightarrow> user cel \<Rightarrow>
   (list_request, user list_response, 'w) handler \<Rightarrow>
   (list_request, user list_response, 'w) handler" where
  "Paginator_ListUsers cd env inner req w =
     (case inner req w of
        ((_, Some err), w') \<Rightarrow> ((None, Some err), w')
      | ((None, None), w') \<Rightarrow> ((None, Some NilDereference), w')
      | ((Some res, None), w') \<Rightarrow>
          (case applyPagination cd env req usersTokenFn usersSizeFn (res, ()) of
             ((res', _), err) \<Rightarrow> ((Some res', err), w')))"

section \<open>Users (package archive)\<close>

definition Users_ListUsers :: "(list_request, user list_response, 'w) handler" where
  "Users_ListUsers req w = ((None, Some (ConnectError CodePermissionDenied NoCause)), w)"

section \<open>Validator (internal/archive/validator.go)\<close>

text \<open>
  \<open>validate\<close> is the body of every method of the Validator, called with the method's name and
  the wrapped handler's method. The schema validation of protovalidate is a parameter: it
  returns the violation of a request or of a response, if any. The logger is the list of the
  records written.
\<close>

datatype log_record = Warn string string string

definition validate ::
  "('q \<Rightarrow> string option) \<Rightarrow> ('r \<Rightarrow> string option) \<Rightarrow> string \<Rightarrow> ('q, 'r, 'w) handler \<Rightarrow>
   'q \<Rightarrow> log_record list \<times> 'w \<Rightarrow> 'r result \<times> log_record list \<times> 'w" where
  "validate validateReq validateRes name handle req st =
     (case validateReq req of
        Some violation \<Rightarrow>
          ((None, Some (ConnectError CodeInvalidArgument (Cause violation))), st)
      | None \<Rightarrow>
          (case handle req (snd st) of
             ((_, Some err), w') \<Rightarrow> ((None, Some err), (fst st, w'))
           | ((None, None), w') \<Rightarrow> ((None, Some NilDereference), (fst st, w'))
           | ((Some res, None), w') \<Rightarrow>
               (case validateRes res of
                  Some violation \<Rightarrow>
                    ((Some res, None),
                     (fst st @ [Warn ''response validation failed'' violation name], w'))
                | None \<Rightarrow> ((Some res, None), (fst st, w')))))"

section \<open>Interactivity (internal/archive/interactivity.go)\<close>

text \<open>
  A row of the interaction store. A time is its instant in nanoseconds since the Unix epoch;
  the zero \<open>time.Time\<close> is the first instant of year 1.
\<close>

record null_time =
  Time :: int
  Valid :: bool

record db_resource =
  User :: int
  Path :: string
  Hidden :: bool
  Starred :: bool
  ViewTime :: null_time
  ReadTime :: null_time

definition zero_time :: int where
  "zero_time = - 62135596800 * 1000000000"

datatype store_error = ErrNotFound | ErrAlreadyExists | StoreFailure string

text \<open>
  The store is used through its interface \<open>storage.Resources\<close>: a lookup that reads the state
  of the store and an upsert that changes it.
\<close>

record 'w resources =
  GetResource :: "'w \<Rightarrow> int \<Rightarrow> string \<Rightarrow> store_error + db_resource"
  UpsertResource :: "db_resource \<Rightarrow> 'w \<Rightarrow> store_error option \<times> 'w"

text \<open>
  An update request holds the path, the resource message and the field mask (\<open>None\<close> for a
  nil mask). \<open>FieldMask.IsValid\<close> is false for a nil mask and otherwise asks that every path
  names a field of the message type; which paths do is a parameter, the message schema not
  being part of the sources.
\<close>

record 'm update_request =
  upd_path :: string
  upd_resource :: 'm
  upd_mask :: "string list option"

definition GetPaths :: "string list option \<Rightarrow> string list" where
  "GetPaths msk = (case msk of None \<Rightarrow> [] | Some ps \<Rightarrow> ps)"

definition IsValid :: "(string \<Rightarrow> bool) \<Rightarrow> string list option \<Rightarrow> bool" where
  "IsValid known msk = (case msk of None \<Rightarrow> False | Some ps \<Rightarrow> list_all known ps)"

text \<open>\<open>strings.ToLower\<close> on ASCII letters.\<close>

definition ToLower :: "string \<Rightarrow> string" where
  "ToLower s =
     map (\<lambda>c. if (65 :: nat) \<le> of_char c \<and> (of_char c :: nat) \<le> 90
               then char_of (of_char c + (32 :: nat)) else c) s"

definition updateResource ::
  "'w resources \<Rightarrow> (string \<Rightarrow> bool) \<Rightarrow> int \<Rightarrow> 'm update_request \<Rightarrow>
   (db_resource \<Rightarrow> 'm \<Rightarrow> string list option \<Rightarrow> error + db_resource) \<Rightarrow>
   'w \<Rightarrow> error option \<times> 'w" where
  "updateResource store known user msg update w =
     (case (case GetResource store w user (upd_path msg) of
              Inl ErrNotFound \<Rightarrow>
                Inr \<lparr> User = user, Path = upd_path msg, Hidden = False, Starred = False,
                      ViewTime = \<lparr> Time = zero_time, Valid = False \<rparr>,
                      ReadTime = \<lparr> Time = zero_time, Valid = False \<rparr> \<rparr>
            | Inl err \<Rightarrow> Inl (ConnectError CodeInternal (Cause ''store''))
            | Inr r \<Rightarrow> Inr r) of
        Inl err \<Rightarrow> (Some err, w)
      | Inr dbRes \<Rightarrow>
          (let resource = upd_resource msg; msk = upd_mask msg in
           if \<not> IsValid known msk then (Some (ConnectError CodeInvalidArgument NoCause), w)
           else if length (GetPaths msk) = 0 then (Some (ConnectError CodeInvalidArgument NoCause), w)
           else (case update dbRes resource msk of
                   Inl err \<Rightarrow> (Some err, w)
                 | Inr dbRes' \<Rightarrow>
                     (case UpsertResource store dbRes' w of
                        (Some err, w') \<Rightarrow> (Some (ConnectError CodeInternal (Cause ''store'')), w')
                      | (None, w') \<Rightarrow> (None, w')))))"

text \<open>The update closures: the loop over the paths of the mask, with its early return.\<close>

fun updateCategory :: "db_resource \<Rightarrow> category \<Rightarrow> string list \<Rightarrow> error + db_resource" where
  "updateCategory resource cat [] = Inr resource"
| "updateCategory resource cat (p # ps) =
     (if ToLower p = ''hidden''
      then updateCategory (resource\<lparr> Hidden := cat_hidden cat \<rparr>) cat ps
      else Inl (ConnectError CodeInvalidArgument NoCause))"

fun updateEntry :: "db_resource \<Rightarrow> entry \<Rightarrow> string list \<Rightarrow> error + db_resource" where
  "updateEntry resource e [] = Inr resource"
| "updateEntry resource e (p # ps) =
     (if ToLower p = ''hidden''
      then updateEntry (resource\<lparr> Hidden := hidden e \<rparr>) e ps
      else if ToLower p = ''starred''
      then updateEntry (resource\<lparr> Starred := starred e \<rparr>) e ps
      else if ToLower p = ''view_time''
      then updateEntry
             (resource\<lparr> ViewTime := \<lparr> Time = AsTime (view_time e), Valid = (view_time e \<noteq> None) \<rparr> \<rparr>)
             e ps
      else if ToLower p = ''read_time''
      then updateEntry
             (resource\<lparr> ReadTime := \<lparr> Time = AsTime (read_time e), Valid = (read_time e \<noteq> None) \<rparr> \<rparr>)
             e ps
      else Inl (ConnectError CodeInvalidArgument NoCause))"

fun updateChapter :: "db_resource \<Rightarrow> chapter_msg \<Rightarrow> string list \<Rightarrow> error + db_resource" where
  "updateChapter resource c [] = Inr resource"
| "updateChapter resource c (p # ps) =
     (if ToLower p = ''view_time''
      then updateChapter
             (resource\<lparr> ViewTime := \<lparr> Time = AsTime (ch_view_time c), Valid = (ch_view_time c \<noteq> None) \<rparr> \<rparr>)
             c ps
      else if ToLower p = ''read_time''
      then updateChapter
             (resource\<lparr> ReadTime := \<lparr> Time = AsTime (ch_read_time c), Valid = (ch_read_time c \<noteq> None) \<rparr> \<rparr>)
             c ps
      else Inl (ConnectError CodeInvalidArgument NoCause))"

text \<open>
  The three update operations; \<open>user\<close> is the id of the authenticated user and the \<open>Get\<close>
  handler the one of the wrapped chain, called with the path of the request.
\<close>

definition Interactivity_UpdateCategory ::
  "'w resources \<Rightarrow> (string \<Rightarrow> bool) \<Rightarrow> int \<Rightarrow> (string, category, 'w) handler \<Rightarrow>
   (category update_request, category, 'w) handler" where
  "Interactivity_UpdateCategory store known user GetCategory req w =
     (case updateResource store known user req
             (\<lambda>resource cat msk. updateCategory resource cat (GetPaths msk)) w of
        (Some err, w') \<Rightarrow> ((None, Some err), w')
      | (None, w') \<Rightarrow> GetCategory (upd_path req) w')"

definition Interactivity_UpdateEntry ::
  "'w resources \<Rightarrow> (string \<Rightarrow> bool) \<Rightarrow> int \<Rightarrow> (string, entry, 'w) handler \<Rightarrow>
   (entry update_request, entry, 'w) handler" where
  "Interactivity_UpdateEntry store known user GetEntry req w =
     (case updateResource store known user req
             (\<lambda>resource e msk. updateEntry resource e (GetPaths msk)) w of
        (Some err, w') \<Rightarrow> ((None, Some err), w')
      | (None, w') \<Rightarrow> GetEntry (upd_path req) w')"

definition Interactivity_UpdateChapter ::
  "'w resources \<Rightarrow> (string \<Rightarrow> bool) \<Rightarrow> int \<Rightarrow> (string, chapter_msg, 'w) handler \<Rightarrow>
   (chapter_msg update_request, chapter_msg, 'w) handler" where
  "Interactivity_UpdateChapter store known user GetChapter req w =
     (case updateResource store known user req
             (\<lambda>resource c msk. updateChapter resource c (GetPaths msk)) w of
        (Some err, w') \<Rightarrow> ((None, Some err), w')
      | (None, w') \<Rightarrow> GetChapter (upd_path req) w')"

text \<open>
  Two stores to evaluate the operations on: one that keeps its rows in an association list,
  and one whose every call fails.
\<close>

definition list_store :: "((int \<times> string) \<times> db_resource) list resources" where
  "list_store =
     \<lparr> GetResource = (\<lambda>w u p. case map_of w (u, p) of None \<Rightarrow> Inl ErrNotFound | Some r \<Rightarrow> Inr r),
       UpsertResource = (\<lambda>r w. (None, ((User r, Path r), r) # w)) \<rparr>"

definition failing_store :: "unit resources" where
  "failing_store =
     \<lparr> GetResource = (\<lambda>w u p. Inl (StoreFailure ''unavailable'')),
       UpsertResource = (\<lambda>r w. (Some (StoreFailure ''unavailable''), w)) \<rparr>"

section \<open>Example listings and the specification of a page\<close>

text \<open>Concrete listings, token tables and filters, used to evaluate the Paginator.\<close>

definition example_categories :: "category list" where
  "example_categories =
     [\<lparr> cat_path = ''categories/a'', cat_display_name = ''A'', cat_description = [], cat_hidden = False \<rparr>,
      \<lparr> cat_path = ''categories/b'', cat_display_name = ''B'', cat_description = [], cat_hidden = True \<rparr>,
      \<lparr> cat_path = ''categories/c'', cat_display_name = ''C'', cat_description = [], cat_hidden = False \<rparr>]"




definition example_entries :: "entry list" where
  "example_entries =
     [\<lparr> path = ''categories/foo/entries/a'', display_name = ''A'', kind = STORY,
        update_time = Some (300, 0), starred = False, hidden = False, view_time = None,
        read_time = None \<rparr>,
      \<lparr> path = ''categories/foo/entries/b'', display_name = ''B'', kind = ANTHOLOGY,
        update_time = Some (200, 0), starred = False, hidden = False, view_time = None,
        read_time = None \<rparr>,
      \<lparr> path = ''categories/foo/entries/c'', display_name = ''C'', kind = STORY,
        update_time = Some (100, 0), starred = False, hidden = False, view_time = None,
        read_time = None \<rparr>]"

definition example_entries_codec :: "entries_token codec" where
  "example_entries_codec =
     table_codec
       [(''Y3Vyc29y'', \<lparr> page = 1, after_entry = ''categories/foo/entries/a'',
                        start_update_time = Some (300, 0) \<rparr>),
        (''c2NyYXBlcg'', \<lparr> page = 1, after_entry = ''categories/foo/entries/c'',
                          start_update_time = Some (100, 0) \<rparr>),
        (''bmV4dA'', \<lparr> page = 2, after_entry = ''categories/foo/entries/c'',
                      start_update_time = Some (100, 0) \<rparr>)]"

definition example_entry_filter :: "entry cel" where
  "example_entry_filter f =
     (if f = ''this.kind == STORY'' then Inr (\<lambda>e. Inr (kind e = STORY))
      else Inl ''failed to compile filter'')"

definition example_chapters :: "chapter_msg list" where
  "example_chapters =
     [\<lparr> ch_path = ''categories/foo/entries/b/chapters/one'', ch_display_name = ''One'',
        ch_update_time = Some (200, 0), ch_view_time = None, ch_read_time = None \<rparr>,
      \<lparr> ch_path = ''categories/foo/entries/b/chapters/two'', ch_display_name = ''Two'',
        ch_update_time = Some (150, 0), ch_view_time = None, ch_read_time = None \<rparr>]"


definition example_users :: "user list" where
  "example_users = [\<lparr> user_path = ''users/1'', user_id = ''alice'' \<rparr>]"


text \<open>
  The three steps as the specification words them, each a function on the result list: the
  results after the cursor of the token (the list itself without a token), the results the
  filter keeps (the list itself without a filter), and the first \<open>max_page_size\<close> of them.
\<close>

definition spec_after_token ::
  "'tkn codec \<Rightarrow> ('tkn \<Rightarrow> 'e list_response \<times> 'aux \<Rightarrow> 'e list_response \<times> 'aux) \<Rightarrow>
   list_request \<Rightarrow> 'e list_response \<times> 'aux \<Rightarrow> 'e list" where
  "spec_after_token cd cursor req st =
     (if page_token req = [] then results (fst st)
      else (case FromToken cd (page_token req) of
              Inl _ \<Rightarrow> results (fst st)
            | Inr tkn \<Rightarrow> results (fst (cursor tkn st))))"

definition spec_filtered :: "'e cel \<Rightarrow> list_request \<Rightarrow> 'e list \<Rightarrow> 'e list" where
  "spec_filtered env req xs =
     (case filter_expr req of
        None \<Rightarrow> xs
      | Some f \<Rightarrow>
          if f = [] \<or> xs = [] then xs
          else (case env f of Inl _ \<Rightarrow> xs | Inr p \<Rightarrow> filter (\<lambda>x. p x = Inr True) xs))"



section \<open>Properties of resource addressing\<close>

lemma run_lits: "run (lits w) k (p, s, cs) = (if take (length w) s = w then [(p + length w, drop (length w) s, cs)] else [])"
  by (induction w arbitrary: p s) (auto split: list.splits)

lemma ngroups_lits [simp]: "ngroups (lits w) = 0"
  by (induction w) auto

lemma ngroups_upto_times [simp]: "ngroups (upto_times n (Class rs)) = 0"
  by (induction n) auto

lemma run_upto_times:
  "set (run (upto_times n (Class rs)) k (p, s, cs)) =
     {(p + length u, s', cs) | u s'. s = u @ s' \<and> length u \<le> n \<and> (\<forall>x\<in>set u. in_class rs x)}"
proof (induction n arbitrary: p s)
  case 0
  then show ?case by auto
next
  case (Suc n)
  show ?case
  proof (cases s)
    case Nil
    then show ?thesis by auto
  next
    case (Cons x xs)
    show ?thesis
    proof (cases "in_class rs x")
      case False
      then show ?thesis using Cons by (auto simp: Cons_eq_append_conv)
    next
      case True
      have "set (run (upto_times (Suc n) (Class rs)) k (p, s, cs)) =
            set (run (upto_times n (Class rs)) k (Suc p, xs, cs)) \<union> {(p, s, cs)}"
        using Cons True by simp
      also have "\<dots> = {(Suc p + length u, s', cs) | u s'. xs = u @ s' \<and> length u \<le> n \<and> (\<forall>x\<in>set u. in_class rs x)} \<union> {(p, s, cs)}"
        by (simp only: Suc.IH)
      also have "\<dots> = {(p + length u, s', cs) | u s'. s = u @ s' \<and> length u \<le> Suc n \<and> (\<forall>x\<in>set u. in_class rs x)}"
        (is "?A = ?B")
      proof (rule set_eqI, rule iffI)
        fix st assume "st \<in> ?A"
        then consider u s' where "st = (Suc p + length u, s', cs)" "xs = u @ s'" "length u \<le> n" "\<forall>x\<in>set u. in_class rs x"
          | "st = (p, s, cs)" by blast
        then show "st \<in> ?B"
        proof cases
          case 1
          then have "st = (p + length (x # u), s', cs) \<and> s = (x # u) @ s' \<and> length (x # u) \<le> Suc n \<and> (\<forall>y\<in>set (x # u). in_class rs y)"
            using Cons True by simp
          then show ?thesis by blast
        next
          case 2
          then have "st = (p + length ([]::string), s, cs) \<and> s = [] @ s \<and> length ([]::string) \<le> Suc n \<and> (\<forall>y\<in>set ([]::string). in_class rs y)"
            by simp
          then show ?thesis by blast
        qed
      next
        fix st assume "st \<in> ?B"
        then obtain u s' where u: "st = (p + length u, s', cs)" "s = u @ s'" "length u \<le> Suc n" "\<forall>x\<in>set u. in_class rs x"
          by blast
        show "st \<in> ?A"
        proof (cases u)
          case Nil
          then show ?thesis using u by simp
        next
          case (Cons y v)
          then have "st = (Suc p + length v, s', cs) \<and> xs = v @ s' \<and> length v \<le> n \<and> (\<forall>x\<in>set v. in_class rs x)"
            using u \<open>s = x # xs\<close> by simp
          then show ?thesis by blast
        qed
      qed
      finally show ?thesis .
    qed
  qed
qed


lemma run_Class:
  "set (run (Class rs) k (p, s, cs)) = {(Suc p, s', cs) | x s'. s = x # s' \<and> in_class rs x}"
  by (cases s) auto

lemma run_Cat_set:
  "set (run (Cat a b) k st) = (\<Union>st' \<in> set (run a k st). set (run b (k + ngroups a) st'))"
  by simp

lemma run_tail:
  "set (run (Cat (upto_times n (Class B)) (Class C)) k (p, s, cs)) =
     {(p + length t, s', cs) | t s'. s = t @ s' \<and> t \<noteq> [] \<and> length t \<le> Suc n \<and>
        (\<forall>x\<in>set (butlast t). in_class B x) \<and> in_class C (last t)}"
  (is "?L = ?R")
proof (rule set_eqI, rule iffI)
  fix st assume "st \<in> ?L"
  then obtain st' where st': "st' \<in> set (run (upto_times n (Class B)) k (p, s, cs))"
      and st: "st \<in> set (run (Class C) (k + 0) st')"
    by (auto simp only: run_Cat_set ngroups_upto_times)
  from st' obtain u r where u: "st' = (p + length u, r, cs)" "s = u @ r" "length u \<le> n"
      "\<forall>x\<in>set u. in_class B x"
    unfolding run_upto_times by blast
  from st u obtain y r' where y: "st = (Suc (p + length u), r', cs)" "r = y # r'" "in_class C y"
    unfolding u run_Class by blast
  have "st = (p + length (u @ [y]), r', cs) \<and> s = (u @ [y]) @ r' \<and> u @ [y] \<noteq> [] \<and>
        length (u @ [y]) \<le> Suc n \<and> (\<forall>x\<in>set (butlast (u @ [y])). in_class B x) \<and>
        in_class C (last (u @ [y]))"
    using u y by simp
  then show "st \<in> ?R" by blast
next
  fix st assume "st \<in> ?R"
  then obtain t s' where t: "st = (p + length t, s', cs)" "s = t @ s'" "t \<noteq> []" "length t \<le> Suc n"
      "\<forall>x\<in>set (butlast t). in_class B x" "in_class C (last t)"
    by blast
  define u where "u = butlast t"
  define y where "y = last t"
  have tu: "t = u @ [y]" using t(3) by (simp add: u_def y_def)
  have uB: "\<forall>x\<in>set u. in_class B x" using t(5) by (simp add: u_def)
  have yC: "in_class C y" using t(6) by (simp add: y_def)
  have "(p + length u, y # s', cs) \<in> set (run (upto_times n (Class B)) k (p, s, cs))"
    unfolding run_upto_times using t(2,4) uB by (auto simp: tu)
  moreover have "st \<in> set (run (Class C) (k + 0) (p + length u, y # s', cs))"
    unfolding run_Class using t(1) yC by (simp add: tu)
  ultimately show "st \<in> ?L"
    by (auto simp only: run_Cat_set ngroups_upto_times)
qed

lemma run_Quest_set: "set (run (Quest a) k st) = set (run a k st) \<union> {st}"
  by simp

lemma run_Group_set:
  "set (run (Group a) k (p, s, cs)) =
     (\<lambda>(p', s', cs'). (p', s', (Suc k, take (p' - p) s) # cs')) ` set (run a (Suc k) (p, s, cs))"
  by simp

lemma run_opt_group:
  "set (run (Quest (Group (Cat (upto_times n (Class B)) (Class C)))) k (p, s, cs)) =
     {(p, s, cs)} \<union>
     {(p + length t, s', (Suc k, t) # cs) | t s'. s = t @ s' \<and> t \<noteq> [] \<and> length t \<le> Suc n \<and>
        (\<forall>x\<in>set (butlast t). in_class B x) \<and> in_class C (last t)}"
  unfolding run_Quest_set run_Group_set run_tail by (auto simp: image_iff)

lemma ngroups_resourceIDPattern [simp]: "ngroups resourceIDPattern = 1"
  by (simp add: resourceIDPattern_def)

lemma run_resourceIDPattern:
  "set (run resourceIDPattern k (p, s, cs)) =
     {(p + length u, s', if tl u = [] then cs else (Suc k, tl u) # cs) | u s'.
        s = u @ s' \<and> resource_id u}"
  (is "?L = ?R")
proof (rule set_eqI, rule iffI)
  fix st assume "st \<in> ?L"
  then obtain st' where st': "st' \<in> set (run (Class [(CHR ''a'', CHR ''z''), (CHR ''A'', CHR ''Z''), (CHR ''0'', CHR ''9'')]) k (p, s, cs))"
    and st: "st \<in> set (run (Quest (Group (Cat (upto_times 61
                    (Class [(CHR ''a'', CHR ''z''), (CHR ''0'', CHR ''9''),
                            (CHR ''-'', CHR ''-''), (CHR ''.'', CHR ''.'')]))
                 (Class [(CHR ''a'', CHR ''z''), (CHR ''0'', CHR ''9'')])))) (k + 0) st')"
    unfolding resourceIDPattern_def run_Cat_set ngroups.simps by blast
  from st' obtain x xs where x: "st' = (Suc p, xs, cs)" "s = x # xs"
     "in_class [(CHR ''a'', CHR ''z''), (CHR ''A'', CHR ''Z''), (CHR ''0'', CHR ''9'')] x"
    unfolding run_Class by blast
  from st consider "st = (Suc p, xs, cs)"
    | t s' where "st = (Suc p + length t, s', (Suc k, t) # cs)" "xs = t @ s'" "t \<noteq> []" "length t \<le> 62"
        "\<forall>x\<in>set (butlast t). in_class [(CHR ''a'', CHR ''z''), (CHR ''0'', CHR ''9''),
                            (CHR ''-'', CHR ''-''), (CHR ''.'', CHR ''.'')] x"
        "in_class [(CHR ''a'', CHR ''z''), (CHR ''0'', CHR ''9'')] (last t)"
    unfolding x run_opt_group by auto
  then show "st \<in> ?R"
  proof cases
    case 1
    then have "st = (p + length [x], xs, if tl [x] = [] then cs else (Suc k, tl [x]) # cs) \<and>
               s = [x] @ xs \<and> resource_id [x]"
      using x by (simp add: resource_id_def)
    then show ?thesis by blast
  next
    case 2
    then have "st = (p + length (x # t), s', if tl (x # t) = [] then cs else (Suc k, tl (x # t)) # cs) \<and>
               s = (x # t) @ s' \<and> resource_id (x # t)"
      using x by (simp add: resource_id_def list_all_iff)
    then show ?thesis by blast
  qed
next
  fix st assume "st \<in> ?R"
  then obtain u s' where u: "st = (p + length u, s', if tl u = [] then cs else (Suc k, tl u) # cs)"
      "s = u @ s'" "resource_id u"
    by blast
  from u(3) obtain x t where xt: "u = x # t"
      "in_class [(CHR ''a'', CHR ''z''), (CHR ''A'', CHR ''Z''), (CHR ''0'', CHR ''9'')] x"
      "t = [] \<or> (length t \<le> 62 \<and> (\<forall>x\<in>set (butlast t). in_class [(CHR ''a'', CHR ''z''), (CHR ''0'', CHR ''9''),
                            (CHR ''-'', CHR ''-''), (CHR ''.'', CHR ''.'')] x) \<and>
                  in_class [(CHR ''a'', CHR ''z''), (CHR ''0'', CHR ''9'')] (last t))"
    by (auto simp: resource_id_def list_all_iff split: list.splits)
  have 1: "(Suc p, t @ s', cs) \<in> set (run (Class [(CHR ''a'', CHR ''z''), (CHR ''A'', CHR ''Z''), (CHR ''0'', CHR ''9'')]) k (p, s, cs))"
    unfolding run_Class using u xt by simp
  have 2: "st \<in> set (run (Quest (Group (Cat (upto_times 61
                    (Class [(CHR ''a'', CHR ''z''), (CHR ''0'', CHR ''9''),
                            (CHR ''-'', CHR ''-''), (CHR ''.'', CHR ''.'')]))
                 (Class [(CHR ''a'', CHR ''z''), (CHR ''0'', CHR ''9'')])))) (k + 0) (Suc p, t @ s', cs))"
    unfolding run_opt_group using u xt by (cases "t = []") auto
  show "st \<in> ?L"
    unfolding resourceIDPattern_def run_Cat_set ngroups.simps using 1 2 by blast
qed

lemma run_resource_id:
  "set (run (Group resourceIDPattern) k (p, s, cs)) =
     {(p + length u, s', group_caps k u cs) | u s'. s = u @ s' \<and> resource_id u}"
  unfolding run_Group_set run_resourceIDPattern by (auto simp: image_iff group_caps_def)


lemma in_class_not_slash:
  "in_class [(CHR ''a'', CHR ''z''), (CHR ''A'', CHR ''Z''), (CHR ''0'', CHR ''9'')] c \<Longrightarrow> c \<noteq> CHR ''/''"
  "in_class [(CHR ''a'', CHR ''z''), (CHR ''0'', CHR ''9''), (CHR ''-'', CHR ''-''), (CHR ''.'', CHR ''.'')] c \<Longrightarrow> c \<noteq> CHR ''/''"
  "in_class [(CHR ''a'', CHR ''z''), (CHR ''0'', CHR ''9'')] c \<Longrightarrow> c \<noteq> CHR ''/''"
  by (auto simp: in_class_def)

lemma resource_id_no_slash: "resource_id u \<Longrightarrow> CHR ''/'' \<notin> set u"
proof
  assume u: "resource_id u" and m: "CHR ''/'' \<in> set u"
  from u obtain x t where xt: "u = x # t"
      "in_class [(CHR ''a'', CHR ''z''), (CHR ''A'', CHR ''Z''), (CHR ''0'', CHR ''9'')] x"
      "t = [] \<or> ((\<forall>x\<in>set (butlast t). in_class [(CHR ''a'', CHR ''z''), (CHR ''0'', CHR ''9''),
                            (CHR ''-'', CHR ''-''), (CHR ''.'', CHR ''.'')] x) \<and>
                  in_class [(CHR ''a'', CHR ''z''), (CHR ''0'', CHR ''9'')] (last t))"
    by (auto simp: resource_id_def list_all_iff split: list.splits)
  have x: "x \<noteq> CHR ''/''" using xt(2) by (rule in_class_not_slash)
  with m xt(1) have mt: "CHR ''/'' \<in> set t" by simp
  then have ne: "t \<noteq> []" by auto
  then have "set t = set (butlast t) \<union> {last t}"
    by (metis append_butlast_last_id list.set(1) list.set(2) set_append)
  with mt have "CHR ''/'' \<in> set (butlast t) \<or> CHR ''/'' = last t" by auto
  then show False using xt(3) ne in_class_not_slash(2,3) by metis
qed

lemma resource_id_nonempty: "resource_id u \<Longrightarrow> u \<noteq> []"
  by (auto simp: resource_id_def)

lemma split_at_sep:
  "c \<notin> set u \<Longrightarrow> c \<notin> set v \<Longrightarrow> u @ c # x = v @ c # y \<Longrightarrow> u = v \<and> x = y"
proof (induction u arbitrary: v)
  case Nil
  then show ?case by (cases v) auto
next
  case (Cons a u)
  then show ?case by (cases v) auto
qed

lemma map_of_group_caps:
  "map_of (group_caps k u cs) j =
     (if j = Suc k then Some u
      else if j = Suc (Suc k) \<and> tl u \<noteq> [] then Some (tl u)
      else map_of cs j)"
  by (simp add: group_caps_def)

lemma run_Bol: "run Bol k (p, s, cs) = (if p = 0 then [(p, s, cs)] else [])"
  by simp

lemma find_from_anchored: "\<forall>i\<in>set is. 0 < i \<Longrightarrow> find_from (Cat Bol X) s is = []"
  by (induction "is") auto

lemma FindStringSubmatch_anchored:
  "FindStringSubmatch (Cat Bol X) s =
     (case run (Cat Bol X) 0 (0, s, []) of [] \<Rightarrow> [] | st # _ \<Rightarrow> submatches (Cat Bol X) s 0 st)"
proof -
  have e1: "[0 ..< Suc (length s)] = 0 # [Suc 0 ..< Suc (length s)]"
    by (simp add: upt_conv_Cons del: upt_Suc)
  have e2: "find_from (Cat Bol X) s [Suc 0 ..< Suc (length s)] = []"
    by (rule find_from_anchored) auto
  show ?thesis
    unfolding FindStringSubmatch_def e1 by (simp add: e2 del: upt_Suc split: list.splits)
qed

lemma pick_submatches:
  "\<forall>i\<in>set idx. 0 < i \<and> i \<le> ngroups re \<Longrightarrow>
   pick (submatches re s i0 (p', s', cs')) idx =
     Some (map (capture cs') idx)"
proof (induction idx)
  case Nil
  then show ?case by simp
next
  case (Cons i idx)
  then have i: "0 < i" "i \<le> ngroups re" by auto
  then obtain i' where i': "i = Suc i'" by (cases i) auto
  have "(map (capture cs') [1 ..< Suc (ngroups re)]) ! i' = capture cs' i"
    using i i' by (simp add: nth_map_upt del: upt_Suc)
  then show ?case using Cons i i' by (simp add: submatches_def del: upt_Suc)
qed

lemma convert_anchored:
  assumes "\<forall>i\<in>set idx. 0 < i \<and> i \<le> ngroups (Cat Bol X)"
  shows "convert s (Cat Bol X) fmt e idx =
     (case run (Cat Bol X) 0 (0, s, []) of
        [] \<Rightarrow> Inl e
      | (p', s', cs') # _ \<Rightarrow>
          Inr (Sprintf fmt (map (capture cs') idx)))"
proof (cases "run (Cat Bol X) 0 (0, s, [])")
  case Nil
  then show ?thesis by (simp add: convert_def FindStringSubmatch_anchored)
next
  case (Cons st rest)
  obtain p' s' cs' where st: "st = (p', s', cs')" by (cases st) auto
  have "submatches (Cat Bol X) s 0 (p', s', cs') \<noteq> []" by (simp add: submatches_def)
  then show ?thesis
    using Cons st pick_submatches [OF assms, of s 0 p' s' cs']
    by (simp add: convert_def FindStringSubmatch_anchored Let_def)
qed


lemma run_lit_group:
  "set (run (Cat (lits w) (Group resourceIDPattern)) k (p, s, cs)) =
     {(p + length (w @ u), s', group_caps k u cs) | u s'. s = w @ u @ s' \<and> resource_id u}"
  (is "?L = ?R")
proof (rule set_eqI, rule iffI)
  fix st assume "st \<in> ?L"
  then have w: "take (length w) s = w"
    and st: "st \<in> set (run (Group resourceIDPattern) k (p + length w, drop (length w) s, cs))"
    by (auto simp: run_lits split: if_splits)
  from st obtain u s' where u: "st = (p + length w + length u, s', group_caps k u cs)"
      "drop (length w) s = u @ s'" "resource_id u"
    unfolding run_resource_id by blast
  have "s = w @ u @ s'" using w u(2) by (metis append_take_drop_id)
  then have "st = (p + length (w @ u), s', group_caps k u cs) \<and> s = w @ u @ s' \<and> resource_id u"
    using u by simp
  then show "st \<in> ?R" by blast
next
  fix st assume "st \<in> ?R"
  then obtain u s' where u: "st = (p + length (w @ u), s', group_caps k u cs)" "s = w @ u @ s'"
      "resource_id u"
    by blast
  have "st \<in> set (run (Group resourceIDPattern) (k + 0) (p + length w, u @ s', cs))"
    unfolding run_resource_id using u by auto
  moreover have "run (lits w) k (p, s, cs) = [(p + length w, u @ s', cs)]"
    using u(2) by (simp add: run_lits)
  ultimately show "st \<in> ?L"
    by (simp only: run_Cat_set ngroups_lits) simp
qed

lemma run_extend:
  assumes X: "\<And>p s cs. set (run X k (p, s, cs)) =
                {(p + length (f z), s', g z cs) | z s'. s = f z @ s' \<and> P z}"
  shows "set (run (Cat X (Cat (lits w) (Group resourceIDPattern))) k (p, s, cs)) =
     {(p + length (f z @ w @ u), s', group_caps (k + ngroups X) u (g z cs)) | z u s'.
        s = f z @ w @ u @ s' \<and> P z \<and> resource_id u}"
  (is "?L = ?R")
proof (rule set_eqI, rule iffI)
  fix st assume "st \<in> ?L"
  then obtain st' where st': "st' \<in> set (run X k (p, s, cs))"
    and st: "st \<in> set (run (Cat (lits w) (Group resourceIDPattern)) (k + ngroups X) st')"
    unfolding run_Cat_set [of X] by blast
  from st' obtain z r where z: "st' = (p + length (f z), r, g z cs)" "s = f z @ r" "P z"
    unfolding X by blast
  from st obtain u s' where u: "st = (p + length (f z) + length (w @ u), s', group_caps (k + ngroups X) u (g z cs))"
      "r = w @ u @ s'" "resource_id u"
    unfolding z run_lit_group by blast
  have "st = (p + length (f z @ w @ u), s', group_caps (k + ngroups X) u (g z cs)) \<and>
        s = f z @ w @ u @ s' \<and> P z \<and> resource_id u"
    using z u by simp
  then show "st \<in> ?R" by blast
next
  fix st assume "st \<in> ?R"
  then obtain z u s' where u: "st = (p + length (f z @ w @ u), s', group_caps (k + ngroups X) u (g z cs))"
      "s = f z @ w @ u @ s'" "P z" "resource_id u"
    by blast
  have "(p + length (f z), w @ u @ s', g z cs) \<in> set (run X k (p, s, cs))"
    unfolding X using u by blast
  moreover have "st \<in> set (run (Cat (lits w) (Group resourceIDPattern)) (k + ngroups X)
                     (p + length (f z), w @ u @ s', g z cs))"
    unfolding run_lit_group using u by auto
  ultimately show "st \<in> ?L"
    unfolding run_Cat_set [of X] by blast
qed

lemma run_compiled_exact:
  assumes X: "\<And>p s cs. set (run X k (p, s, cs)) =
                {(p + length (f z), s', g z cs) | z s'. s = f z @ s' \<and> P z}"
  shows "set (run (patternMustCompile X False) k (0, s, [])) =
     {(length s, [], g z []) | z. s = f z \<and> P z}"
proof -
  have "set (run (patternMustCompile X False) k (0, s, [])) =
        (\<Union>st \<in> set (run X k (0, s, [])). set (run Eol (k + ngroups X) st))"
    by (simp add: patternMustCompile_def)
  also have "\<dots> = {(length s, [], g z []) | z. s = f z \<and> P z}"
    unfolding X by (auto split: if_splits)
  finally show ?thesis .
qed

lemma run_compiled_slash:
  assumes X: "\<And>p s cs. set (run X k (p, s, cs)) =
                {(p + length (f z), s', g z cs) | z s'. s = f z @ s' \<and> P z}"
  shows "set (run (patternMustCompile X True) k (0, s, [])) =
     {(length s, [], g z []) | z. (s = f z \<or> s = f z @ ''/'') \<and> P z}"
  (is "?L = ?R")
proof (rule set_eqI, rule iffI)
  fix st assume "st \<in> ?L"
  then obtain st' where st': "st' \<in> set (run X k (0, s, []))"
    and st: "st \<in> set (run (Cat (Quest (Lit CHR ''/'')) Eol) (k + ngroups X) st')"
    by (auto simp: patternMustCompile_def simp del: run.simps(5))
  from st' obtain z r where z: "st' = (length (f z), r, g z [])" "s = f z @ r" "P z"
    unfolding X by auto
  from st z have "(r = [] \<or> r = ''/'') \<and> st = (length s, [], g z [])"
    by (auto split: list.splits if_splits)
  then show "st \<in> ?R" using z by auto
next
  fix st assume "st \<in> ?R"
  then obtain z where z: "st = (length s, [], g z [])" "s = f z \<or> s = f z @ ''/''" "P z"
    by blast
  from z(2) obtain r where r: "s = f z @ r" "r = [] \<or> r = ''/''" by auto
  have "(0 + length (f z), r, g z []) \<in> set (run X k (0, s, []))"
    unfolding X using r z by blast
  moreover have "st \<in> set (run (Cat (Quest (Lit CHR ''/'')) Eol) (k + ngroups X) (0 + length (f z), r, g z []))"
    using r z by auto
  ultimately show "st \<in> ?L"
    by (simp add: patternMustCompile_def del: run.simps(5)) blast
qed


lemma convert_char:
  assumes idx: "\<forall>i\<in>set idx. 0 < i \<and> i \<le> ngroups (patternMustCompile X b)"
    and S: "set (run (patternMustCompile X b) 0 (0, s, [])) = {(length s, [], g z) | z. Q z}"
    and det: "\<And>z z'. Q z \<Longrightarrow> Q z' \<Longrightarrow> map (capture (g z')) idx = map (capture (g z)) idx"
  shows "Q z \<Longrightarrow> convert s (patternMustCompile X b) fmt e idx = Inr (Sprintf fmt (map (capture (g z)) idx))"
    and "\<not> (\<exists>z. Q z) \<Longrightarrow> convert s (patternMustCompile X b) fmt e idx = Inl e"
proof -
  obtain Y where Y: "patternMustCompile X b = Cat Bol Y"
    by (simp add: patternMustCompile_def Let_def)
  note conv = convert_anchored [OF idx [unfolded Y], of s fmt e, folded Y]
  {
    assume z: "Q z"
    then have "(length s, [], g z) \<in> set (run (patternMustCompile X b) 0 (0, s, []))"
      unfolding S by blast
    then obtain st rest where r: "run (patternMustCompile X b) 0 (0, s, []) = st # rest"
      by (cases "run (patternMustCompile X b) 0 (0, s, [])") auto
    then have "st \<in> set (run (patternMustCompile X b) 0 (0, s, []))" by simp
    then obtain z' where z': "st = (length s, [], g z')" "Q z'"
      unfolding S by blast
    show "convert s (patternMustCompile X b) fmt e idx = Inr (Sprintf fmt (map (capture (g z)) idx))"
      unfolding conv r z'(1) using det [OF z z'(2)] by (simp del: map_eq_conv)
  }
  {
    assume "\<not> (\<exists>z. Q z)"
    then have "set (run (patternMustCompile X b) 0 (0, s, [])) = {}"
      unfolding S by blast
    then show "convert s (patternMustCompile X b) fmt e idx = Inl e"
      using conv by simp
  }
qed

lemma capture_group_caps:
  "capture (group_caps k u cs) j =
     (if j = Suc k then u
      else if j = Suc (Suc k) \<and> tl u \<noteq> [] then tl u
      else capture cs j)"
  by (simp add: capture_def map_of_group_caps)

lemma run_categoryPathPattern:
  "set (run categoryPathPattern k (p, s, cs)) =
     {(p + length (''categories/'' @ a), s', group_caps k a cs) | a s'.
        s = (''categories/'' @ a) @ s' \<and> resource_id a}"
  unfolding categoryPathPattern_def run_lit_group by (simp add: categoryCollection_def)

lemma ngroups_patterns [simp]:
  "ngroups categoryPathPattern = 2" "ngroups categorySlugPattern = 2"
  "ngroups entryPathPattern = 4" "ngroups entrySlugPattern = 4"
  "ngroups chapterPathPattern = 6" "ngroups chapterSlugPattern = 6"
  by (simp_all add: categoryPathPattern_def categorySlugPattern_def entryPathPattern_def
        entrySlugPattern_def chapterPathPattern_def chapterSlugPattern_def)

lemma ngroups_patternMustCompile [simp]: "ngroups (patternMustCompile X b) = ngroups X"
  by (simp add: patternMustCompile_def)

lemma run_entryPathPattern:
  "set (run entryPathPattern k (p, s, cs)) =
     {(p + length (''categories/'' @ fst z @ ''/entries/'' @ snd z), s',
       group_caps (k + 2) (snd z) (group_caps k (fst z) cs)) | z s'.
        s = (''categories/'' @ fst z @ ''/entries/'' @ snd z) @ s' \<and>
        resource_id (fst z) \<and> resource_id (snd z)}"
  unfolding entryPathPattern_def
    run_extend [of categoryPathPattern k "\<lambda>a. ''categories/'' @ a" "\<lambda>a cs. group_caps k a cs" resource_id,
      OF run_categoryPathPattern]
  by (auto simp: entryCollection_def)


lemma run_chapterPathPattern:
  "set (run chapterPathPattern k (p, s, cs)) =
     {(p + length (''categories/'' @ fst (fst z) @ ''/entries/'' @ snd (fst z) @ ''/chapters/'' @ snd z), s',
       group_caps (k + 4) (snd z) (group_caps (k + 2) (snd (fst z)) (group_caps k (fst (fst z)) cs))) | z s'.
        s = (''categories/'' @ fst (fst z) @ ''/entries/'' @ snd (fst z) @ ''/chapters/'' @ snd z) @ s' \<and>
        resource_id (fst (fst z)) \<and> resource_id (snd (fst z)) \<and> resource_id (snd z)}"
  unfolding chapterPathPattern_def
    run_extend [of entryPathPattern k "\<lambda>z. ''categories/'' @ fst z @ ''/entries/'' @ snd z"
      "\<lambda>z cs. group_caps (k + 2) (snd z) (group_caps k (fst z) cs)"
      "\<lambda>z. resource_id (fst z) \<and> resource_id (snd z)",
      OF run_entryPathPattern]
  by (auto simp: chapterCollection_def)

lemma run_categorySlugPattern:
  "set (run categorySlugPattern k (p, s, cs)) =
     {(p + length a, s', group_caps k a cs) | a s'. s = a @ s' \<and> resource_id a}"
  unfolding categorySlugPattern_def run_resource_id by simp

lemma run_entrySlugPattern:
  "set (run entrySlugPattern k (p, s, cs)) =
     {(p + length (fst z @ ''/'' @ snd z), s',
       group_caps (k + 2) (snd z) (group_caps k (fst z) cs)) | z s'.
        s = (fst z @ ''/'' @ snd z) @ s' \<and> resource_id (fst z) \<and> resource_id (snd z)}"
  unfolding entrySlugPattern_def
    run_extend [of categorySlugPattern k "\<lambda>a. a" "\<lambda>a cs. group_caps k a cs" resource_id,
      OF run_categorySlugPattern]
  by auto

lemma run_chapterSlugPattern:
  "set (run chapterSlugPattern k (p, s, cs)) =
     {(p + length (fst (fst z) @ ''/'' @ snd (fst z) @ ''/'' @ snd z), s',
       group_caps (k + 4) (snd z) (group_caps (k + 2) (snd (fst z)) (group_caps k (fst (fst z)) cs))) | z s'.
        s = (fst (fst z) @ ''/'' @ snd (fst z) @ ''/'' @ snd z) @ s' \<and>
        resource_id (fst (fst z)) \<and> resource_id (snd (fst z)) \<and> resource_id (snd z)}"
  unfolding chapterSlugPattern_def
    run_extend [of entrySlugPattern k "\<lambda>z. fst z @ ''/'' @ snd z"
      "\<lambda>z cs. group_caps (k + 2) (snd z) (group_caps k (fst z) cs)"
      "\<lambda>z. resource_id (fst z) \<and> resource_id (snd z)",
      OF run_entrySlugPattern]
  by auto


lemma seg_unique:
  assumes "c \<notin> set a" "c \<notin> set a'" "a @ r = a' @ r'"
    "r = [] \<or> (\<exists>t. r = c # t)" "r' = [] \<or> (\<exists>t. r' = c # t)"
  shows "a = a' \<and> r = r'"
  using assms
proof (induction a arbitrary: a')
  case Nil
  then show ?case by (cases a') auto
next
  case (Cons x a)
  then show ?case by (cases a') auto
qed

lemma seg_unique_id:
  assumes "resource_id a" "resource_id a'" "a @ r = a' @ r'"
    "r = [] \<or> (\<exists>t. r = CHR ''/'' # t)" "r' = [] \<or> (\<exists>t. r' = CHR ''/'' # t)"
  shows "a = a' \<and> r = r'"
  using seg_unique [OF resource_id_no_slash [OF assms(1)] resource_id_no_slash [OF assms(2)] assms(3-5)] .

lemma entry_path_unique:
  assumes "''categories/'' @ a @ ''/entries/'' @ b = ''categories/'' @ a' @ ''/entries/'' @ b'"
    "resource_id a" "resource_id a'"
  shows "a = a' \<and> b = b'"
proof -
  have "a @ (''/entries/'' @ b) = a' @ (''/entries/'' @ b')" using assms(1) by simp
  from seg_unique_id [OF assms(2,3) this] show ?thesis by simp
qed

lemma chapter_path_unique:
  assumes "''categories/'' @ a @ ''/entries/'' @ b @ ''/chapters/'' @ c =
           ''categories/'' @ a' @ ''/entries/'' @ b' @ ''/chapters/'' @ c'"
    "resource_id a" "resource_id a'" "resource_id b" "resource_id b'"
  shows "a = a' \<and> b = b' \<and> c = c'"
proof -
  have "a @ (''/entries/'' @ b @ ''/chapters/'' @ c) = a' @ (''/entries/'' @ b' @ ''/chapters/'' @ c')"
    using assms(1) by simp
  from seg_unique_id [OF assms(2,3) this] have a: "a = a'" and "b @ (''/chapters/'' @ c) = b' @ (''/chapters/'' @ c')"
    by simp_all
  from seg_unique_id [OF assms(4,5) this(2)] a show ?thesis by simp
qed

lemma category_slug_unique:
  assumes "s = a \<or> s = a @ ''/''" "s = a' \<or> s = a' @ ''/''" "resource_id a" "resource_id a'"
  shows "a = a'"
proof -
  from assms(1) obtain r where r: "s = a @ r" "r = [] \<or> (\<exists>t. r = CHR ''/'' # t)" by auto
  from assms(2) obtain r' where r': "s = a' @ r'" "r' = [] \<or> (\<exists>t. r' = CHR ''/'' # t)" by auto
  have "a @ r = a' @ r'" using r(1) r'(1) by simp
  from seg_unique_id [OF assms(3,4) this r(2) r'(2)] show ?thesis by simp
qed

lemma entry_slug_unique:
  assumes "s = a @ ''/'' @ b \<or> s = (a @ ''/'' @ b) @ ''/''"
    "s = a' @ ''/'' @ b' \<or> s = (a' @ ''/'' @ b') @ ''/''"
    "resource_id a" "resource_id a'" "resource_id b" "resource_id b'"
  shows "a = a' \<and> b = b'"
proof -
  from assms(1) obtain r where r: "s = a @ (''/'' @ b @ r)" "r = [] \<or> (\<exists>t. r = CHR ''/'' # t)" by auto
  from assms(2) obtain r' where r': "s = a' @ (''/'' @ b' @ r')" "r' = [] \<or> (\<exists>t. r' = CHR ''/'' # t)" by auto
  have e: "a @ (''/'' @ b @ r) = a' @ (''/'' @ b' @ r')" using r(1) r'(1) by simp
  have "a = a' \<and> ''/'' @ b @ r = ''/'' @ b' @ r'"
    by (rule seg_unique_id [OF assms(3,4) e]) simp_all
  then have a: "a = a'" and "b @ r = b' @ r'" by simp_all
  from seg_unique_id [OF assms(5,6) this(2) r(2) r'(2)] a show ?thesis by simp
qed

lemma chapter_slug_unique:
  assumes "a @ ''/'' @ b @ ''/'' @ c = a' @ ''/'' @ b' @ ''/'' @ c'"
    "resource_id a" "resource_id a'" "resource_id b" "resource_id b'"
  shows "a = a' \<and> b = b' \<and> c = c'"
proof -
  have "a @ (''/'' @ b @ ''/'' @ c) = a' @ (''/'' @ b' @ ''/'' @ c')"
    using assms(1) by simp
  from seg_unique_id [OF assms(2,3) this] have a: "a = a'" and "b @ (''/'' @ c) = b' @ (''/'' @ c')"
    by simp_all
  from seg_unique_id [OF assms(4,5) this(2)] a show ?thesis by simp
qed



lemma FromCategoryPath_char:
  shows "s = ''categories/'' @ a \<Longrightarrow> resource_id a \<Longrightarrow>
         FromCategoryPath s = Inr (a)"
    and "\<not> (\<exists>a. s = ''categories/'' @ a \<and> resource_id (a)) \<Longrightarrow>
         FromCategoryPath s = Inl ErrInvalidPath"
proof -
  let ?L = "\<lambda>z. ''categories/'' @ z"
  let ?Q = "\<lambda>z. s = ''categories/'' @ z \<and> resource_id (z)"
  let ?g = "\<lambda>z. group_caps 0 (z) []"
  have idx: "\<forall>i\<in>set [1]. 0 < i \<and> i \<le> ngroups (patternMustCompile categoryPathPattern False)"
    by simp
  have S: "set (run (patternMustCompile categoryPathPattern False) 0 (0, s, [])) =
          {(length s, [], ?g z) | z. ?Q z}"
    by (rule run_compiled_exact [of categoryPathPattern 0 ?L "\<lambda>z cs. group_caps 0 (z) cs"
          "\<lambda>z. resource_id (z)", OF run_categoryPathPattern])
  have det: "map (capture (?g z')) [1] = map (capture (?g z)) [1]" if z: "?Q z" and z': "?Q z'" for z z'
  proof -
    from z have 1: "s = ?L z" by (rule conjunct1)
    from z' have 2: "s = ?L z'" by (rule conjunct1)
    have e: "?L z' = ?L z" by (rule trans [OF 2 [symmetric] 1])
    then have "z' = z" by simp
    then show ?thesis by simp
  qed
  have c1: "convert s (patternMustCompile categoryPathPattern False) fmt e [1] =
      Inr (Sprintf fmt (map (capture (?g z)) [1]))" if "?Q z" for z fmt e
  proof (rule convert_char(1) [where Q = ?Q and g = ?g])
    show "?Q z" by (rule that)
    show "map (capture (?g z')) [1] = map (capture (?g z)) [1]" if "?Q z" "?Q z'" for z z'
      using that by (rule det)
  qed (rule idx S)+
  have c2: "convert s (patternMustCompile categoryPathPattern False) fmt e [1] = Inl e"
    if "\<not> (\<exists>z. ?Q z)" for fmt e
  proof (rule convert_char(2) [where Q = ?Q and g = ?g])
    show "\<not> (\<exists>z. ?Q z)" by (rule that)
    show "map (capture (?g z')) [1] = map (capture (?g z)) [1]" if "?Q z" "?Q z'" for z z'
      using that by (rule det)
  qed (rule idx S)+
  {
    assume asm: "s = ''categories/'' @ a" "resource_id a"
    have ok: "?Q (a)" unfolding fst_conv snd_conv using asm by blast
    have "convert s (patternMustCompile categoryPathPattern False) categorySlugFormat ErrInvalidPath [1] =
          Inr (Sprintf categorySlugFormat (map (capture (?g (a))) [1]))"
      by (rule c1 [OF ok])
    then show "FromCategoryPath s = Inr (a)"
      unfolding FromCategoryPath_def toSlug_def categoryPath_def categoryMatchIndices_def
      by (simp add: capture_group_caps categorySlugFormat_def)
  }
  {
    assume "\<not> (\<exists>a. s = ''categories/'' @ a \<and> resource_id (a))"
    then have no: "\<not> (\<exists>z. ?Q z)" by blast
    show "FromCategoryPath s = Inl ErrInvalidPath"
      unfolding FromCategoryPath_def toSlug_def categoryPath_def categoryMatchIndices_def
      by (rule c2 [OF no])
  }
qed

lemma FromEntryPath_char:
  shows "s = ''categories/'' @ a @ ''/entries/'' @ b \<Longrightarrow> resource_id a \<Longrightarrow> resource_id b \<Longrightarrow>
         FromEntryPath s = Inr (a @ ''/'' @ b)"
    and "\<not> (\<exists>a b. s = ''categories/'' @ a @ ''/entries/'' @ b \<and> resource_id (a) \<and> resource_id (b)) \<Longrightarrow>
         FromEntryPath s = Inl ErrInvalidPath"
proof -
  let ?L = "\<lambda>z. ''categories/'' @ fst z @ ''/entries/'' @ snd z"
  let ?Q = "\<lambda>z. s = ''categories/'' @ fst z @ ''/entries/'' @ snd z \<and> resource_id (fst z) \<and> resource_id (snd z)"
  let ?g = "\<lambda>z. group_caps (0 + 2) (snd z) (group_caps 0 (fst z) [])"
  have idx: "\<forall>i\<in>set [1, 3]. 0 < i \<and> i \<le> ngroups (patternMustCompile entryPathPattern False)"
    by simp
  have S: "set (run (patternMustCompile entryPathPattern False) 0 (0, s, [])) =
          {(length s, [], ?g z) | z. ?Q z}"
    by (rule run_compiled_exact [of entryPathPattern 0 ?L "\<lambda>z cs. group_caps (0 + 2) (snd z) (group_caps 0 (fst z) cs)"
          "\<lambda>z. resource_id (fst z) \<and> resource_id (snd z)", OF run_entryPathPattern])
  have det: "map (capture (?g z')) [1, 3] = map (capture (?g z)) [1, 3]" if z: "?Q z" and z': "?Q z'" for z z'
  proof -
    from z have 1: "s = ?L z" by (rule conjunct1)
    from z' have 2: "s = ?L z'" by (rule conjunct1)
    have e: "?L z' = ?L z" by (rule trans [OF 2 [symmetric] 1])
    have r: "resource_id (fst z)" using z by blast+
    have r': "resource_id (fst z')" using z' by blast+
    have "fst z' = fst z \<and> snd z' = snd z"
      by (rule entry_path_unique [OF e r'(1) r(1)])
    then show ?thesis by simp
  qed
  have c1: "convert s (patternMustCompile entryPathPattern False) fmt e [1, 3] =
      Inr (Sprintf fmt (map (capture (?g z)) [1, 3]))" if "?Q z" for z fmt e
  proof (rule convert_char(1) [where Q = ?Q and g = ?g])
    show "?Q z" by (rule that)
    show "map (capture (?g z')) [1, 3] = map (capture (?g z)) [1, 3]" if "?Q z" "?Q z'" for z z'
      using that by (rule det)
  qed (rule idx S)+
  have c2: "convert s (patternMustCompile entryPathPattern False) fmt e [1, 3] = Inl e"
    if "\<not> (\<exists>z. ?Q z)" for fmt e
  proof (rule convert_char(2) [where Q = ?Q and g = ?g])
    show "\<not> (\<exists>z. ?Q z)" by (rule that)
    show "map (capture (?g z')) [1, 3] = map (capture (?g z)) [1, 3]" if "?Q z" "?Q z'" for z z'
      using that by (rule det)
  qed (rule idx S)+
  {
    assume asm: "s = ''categories/'' @ a @ ''/entries/'' @ b" "resource_id a" "resource_id b"
    have ok: "?Q ((a, b))" unfolding fst_conv snd_conv using asm by blast
    have "convert s (patternMustCompile entryPathPattern False) entrySlugFormat ErrInvalidPath [1, 3] =
          Inr (Sprintf entrySlugFormat (map (capture (?g ((a, b)))) [1, 3]))"
      by (rule c1 [OF ok])
    then show "FromEntryPath s = Inr (a @ ''/'' @ b)"
      unfolding FromEntryPath_def toSlug_def entryPath_def entryMatchIndices_def
      by (simp add: capture_group_caps entrySlugFormat_def categorySlugFormat_def)
  }
  {
    assume "\<not> (\<exists>a b. s = ''categories/'' @ a @ ''/entries/'' @ b \<and> resource_id (a) \<and> resource_id (b))"
    then have no: "\<not> (\<exists>z. ?Q z)" by blast
    show "FromEntryPath s = Inl ErrInvalidPath"
      unfolding FromEntryPath_def toSlug_def entryPath_def entryMatchIndices_def
      by (rule c2 [OF no])
  }
qed

lemma FromChapterPath_char:
  shows "s = ''categories/'' @ a @ ''/entries/'' @ b @ ''/chapters/'' @ c \<Longrightarrow> resource_id a \<Longrightarrow> resource_id b \<Longrightarrow> resource_id c \<Longrightarrow>
         FromChapterPath s = Inr (a @ ''/'' @ b @ ''/'' @ c)"
    and "\<not> (\<exists>a b c. s = ''categories/'' @ a @ ''/entries/'' @ b @ ''/chapters/'' @ c \<and> resource_id (a) \<and> resource_id (b) \<and> resource_id (c)) \<Longrightarrow>
         FromChapterPath s = Inl ErrInvalidPath"
proof -
  let ?L = "\<lambda>z. ''categories/'' @ fst (fst z) @ ''/entries/'' @ snd (fst z) @ ''/chapters/'' @ snd z"
  let ?Q = "\<lambda>z. s = ''categories/'' @ fst (fst z) @ ''/entries/'' @ snd (fst z) @ ''/chapters/'' @ snd z \<and> resource_id (fst (fst z)) \<and> resource_id (snd (fst z)) \<and> resource_id (snd z)"
  let ?g = "\<lambda>z. group_caps (0 + 4) (snd z) (group_caps (0 + 2) (snd (fst z)) (group_caps 0 (fst (fst z)) []))"
  have idx: "\<forall>i\<in>set [1, 3, 5]. 0 < i \<and> i \<le> ngroups (patternMustCompile chapterPathPattern False)"
    by simp
  have S: "set (run (patternMustCompile chapterPathPattern False) 0 (0, s, [])) =
          {(length s, [], ?g z) | z. ?Q z}"
    by (rule run_compiled_exact [of chapterPathPattern 0 ?L "\<lambda>z cs. group_caps (0 + 4) (snd z) (group_caps (0 + 2) (snd (fst z)) (group_caps 0 (fst (fst z)) cs))"
          "\<lambda>z. resource_id (fst (fst z)) \<and> resource_id (snd (fst z)) \<and> resource_id (snd z)", OF run_chapterPathPattern])
  have det: "map (capture (?g z')) [1, 3, 5] = map (capture (?g z)) [1, 3, 5]" if z: "?Q z" and z': "?Q z'" for z z'
  proof -
    from z have 1: "s = ?L z" by (rule conjunct1)
    from z' have 2: "s = ?L z'" by (rule conjunct1)
    have e: "?L z' = ?L z" by (rule trans [OF 2 [symmetric] 1])
    have r: "resource_id (fst (fst z))" "resource_id (snd (fst z))" using z by blast+
    have r': "resource_id (fst (fst z'))" "resource_id (snd (fst z'))" using z' by blast+
    have "fst (fst z') = fst (fst z) \<and> snd (fst z') = snd (fst z) \<and> snd z' = snd z"
      by (rule chapter_path_unique [OF e r'(1) r(1) r'(2) r(2)])
    then show ?thesis by simp
  qed
  have c1: "convert s (patternMustCompile chapterPathPattern False) fmt e [1, 3, 5] =
      Inr (Sprintf fmt (map (capture (?g z)) [1, 3, 5]))" if "?Q z" for z fmt e
  proof (rule convert_char(1) [where Q = ?Q and g = ?g])
    show "?Q z" by (rule that)
    show "map (capture (?g z')) [1, 3, 5] = map (capture (?g z)) [1, 3, 5]" if "?Q z" "?Q z'" for z z'
      using that by (rule det)
  qed (rule idx S)+
  have c2: "convert s (patternMustCompile chapterPathPattern False) fmt e [1, 3, 5] = Inl e"
    if "\<not> (\<exists>z. ?Q z)" for fmt e
  proof (rule convert_char(2) [where Q = ?Q and g = ?g])
    show "\<not> (\<exists>z. ?Q z)" by (rule that)
    show "map (capture (?g z')) [1, 3, 5] = map (capture (?g z)) [1, 3, 5]" if "?Q z" "?Q z'" for z z'
      using that by (rule det)
  qed (rule idx S)+
  {
    assume asm: "s = ''categories/'' @ a @ ''/entries/'' @ b @ ''/chapters/'' @ c" "resource_id a" "resource_id b" "resource_id c"
    have ok: "?Q (((a, b), c))" unfolding fst_conv snd_conv using asm by blast
    have "convert s (patternMustCompile chapterPathPattern False) chapterSlugFormat ErrInvalidPath [1, 3, 5] =
          Inr (Sprintf chapterSlugFormat (map (capture (?g (((a, b), c)))) [1, 3, 5]))"
      by (rule c1 [OF ok])
    then show "FromChapterPath s = Inr (a @ ''/'' @ b @ ''/'' @ c)"
      unfolding FromChapterPath_def toSlug_def chapterPath_def chapterMatchIndices_def
      by (simp add: capture_group_caps chapterSlugFormat_def entrySlugFormat_def categorySlugFormat_def)
  }
  {
    assume "\<not> (\<exists>a b c. s = ''categories/'' @ a @ ''/entries/'' @ b @ ''/chapters/'' @ c \<and> resource_id (a) \<and> resource_id (b) \<and> resource_id (c))"
    then have no: "\<not> (\<exists>z. ?Q z)" by blast
    show "FromChapterPath s = Inl ErrInvalidPath"
      unfolding FromChapterPath_def toSlug_def chapterPath_def chapterMatchIndices_def
      by (rule c2 [OF no])
  }
qed

lemma ToCategoryPath_char:
  shows "(s = a \<or> s = (a) @ ''/'') \<Longrightarrow> resource_id a \<Longrightarrow>
         ToCategoryPath s = Inr (''categories/'' @ a)"
    and "\<not> (\<exists>a. (s = a \<or> s = (a) @ ''/'') \<and> resource_id (a)) \<Longrightarrow>
         ToCategoryPath s = Inl ErrInvalidSlug"
proof -
  let ?L = "\<lambda>z. z"
  let ?Q = "\<lambda>z. (s = z \<or> s = (z) @ ''/'') \<and> resource_id (z)"
  let ?g = "\<lambda>z. group_caps 0 (z) []"
  have idx: "\<forall>i\<in>set [1]. 0 < i \<and> i \<le> ngroups (patternMustCompile categorySlugPattern True)"
    by simp
  have S: "set (run (patternMustCompile categorySlugPattern True) 0 (0, s, [])) =
          {(length s, [], ?g z) | z. ?Q z}"
    by (rule run_compiled_slash [of categorySlugPattern 0 ?L "\<lambda>z cs. group_caps 0 (z) cs"
          "\<lambda>z. resource_id (z)", OF run_categorySlugPattern])
  have det: "map (capture (?g z')) [1] = map (capture (?g z)) [1]" if z: "?Q z" and z': "?Q z'" for z z'
  proof -
    from z have 1: "s = ?L z \<or> s = ?L z @ ''/''" by (rule conjunct1)
    from z' have 2: "s = ?L z' \<or> s = ?L z' @ ''/''" by (rule conjunct1)
    have r: "resource_id (z)" using z by blast+
    have r': "resource_id (z')" using z' by blast+
    have "z' = z"
      by (rule category_slug_unique [OF 2 1 r'(1) r(1)])
    then show ?thesis by simp
  qed
  have c1: "convert s (patternMustCompile categorySlugPattern True) fmt e [1] =
      Inr (Sprintf fmt (map (capture (?g z)) [1]))" if "?Q z" for z fmt e
  proof (rule convert_char(1) [where Q = ?Q and g = ?g])
    show "?Q z" by (rule that)
    show "map (capture (?g z')) [1] = map (capture (?g z)) [1]" if "?Q z" "?Q z'" for z z'
      using that by (rule det)
  qed (rule idx S)+
  have c2: "convert s (patternMustCompile categorySlugPattern True) fmt e [1] = Inl e"
    if "\<not> (\<exists>z. ?Q z)" for fmt e
  proof (rule convert_char(2) [where Q = ?Q and g = ?g])
    show "\<not> (\<exists>z. ?Q z)" by (rule that)
    show "map (capture (?g z')) [1] = map (capture (?g z)) [1]" if "?Q z" "?Q z'" for z z'
      using that by (rule det)
  qed (rule idx S)+
  {
    assume asm: "(s = a \<or> s = (a) @ ''/'')" "resource_id a"
    have ok: "?Q (a)" unfolding fst_conv snd_conv using asm by blast
    have "convert s (patternMustCompile categorySlugPattern True) categoryPathFormat ErrInvalidSlug [1] =
          Inr (Sprintf categoryPathFormat (map (capture (?g (a))) [1]))"
      by (rule c1 [OF ok])
    then show "ToCategoryPath s = Inr (''categories/'' @ a)"
      unfolding ToCategoryPath_def toPath_def categorySlug_def categoryMatchIndices_def
      by (simp add: capture_group_caps categoryPathFormat_def categoryCollection_def)
  }
  {
    assume "\<not> (\<exists>a. (s = a \<or> s = (a) @ ''/'') \<and> resource_id (a))"
    then have no: "\<not> (\<exists>z. ?Q z)" by blast
    show "ToCategoryPath s = Inl ErrInvalidSlug"
      unfolding ToCategoryPath_def toPath_def categorySlug_def categoryMatchIndices_def
      by (rule c2 [OF no])
  }
qed

lemma ToEntryPath_char:
  shows "(s = a @ ''/'' @ b \<or> s = (a @ ''/'' @ b) @ ''/'') \<Longrightarrow> resource_id a \<Longrightarrow> resource_id b \<Longrightarrow>
         ToEntryPath s = Inr (''categories/'' @ a @ ''/entries/'' @ b)"
    and "\<not> (\<exists>a b. (s = a @ ''/'' @ b \<or> s = (a @ ''/'' @ b) @ ''/'') \<and> resource_id (a) \<and> resource_id (b)) \<Longrightarrow>
         ToEntryPath s = Inl ErrInvalidSlug"
proof -
  let ?L = "\<lambda>z. fst z @ ''/'' @ snd z"
  let ?Q = "\<lambda>z. (s = fst z @ ''/'' @ snd z \<or> s = (fst z @ ''/'' @ snd z) @ ''/'') \<and> resource_id (fst z) \<and> resource_id (snd z)"
  let ?g = "\<lambda>z. group_caps (0 + 2) (snd z) (group_caps 0 (fst z) [])"
  have idx: "\<forall>i\<in>set [1, 3]. 0 < i \<and> i \<le> ngroups (patternMustCompile entrySlugPattern True)"
    by simp
  have S: "set (run (patternMustCompile entrySlugPattern True) 0 (0, s, [])) =
          {(length s, [], ?g z) | z. ?Q z}"
    by (rule run_compiled_slash [of entrySlugPattern 0 ?L "\<lambda>z cs. group_caps (0 + 2) (snd z) (group_caps 0 (fst z) cs)"
          "\<lambda>z. resource_id (fst z) \<and> resource_id (snd z)", OF run_entrySlugPattern])
  have det: "map (capture (?g z')) [1, 3] = map (capture (?g z)) [1, 3]" if z: "?Q z" and z': "?Q z'" for z z'
  proof -
    from z have 1: "s = ?L z \<or> s = ?L z @ ''/''" by (rule conjunct1)
    from z' have 2: "s = ?L z' \<or> s = ?L z' @ ''/''" by (rule conjunct1)
    have r: "resource_id (fst z)" "resource_id (snd z)" using z by blast+
    have r': "resource_id (fst z')" "resource_id (snd z')" using z' by blast+
    have "fst z' = fst z \<and> snd z' = snd z"
      by (rule entry_slug_unique [OF 2 1 r'(1) r(1) r'(2) r(2)])
    then show ?thesis by simp
  qed
  have c1: "convert s (patternMustCompile entrySlugPattern True) fmt e [1, 3] =
      Inr (Sprintf fmt (map (capture (?g z)) [1, 3]))" if "?Q z" for z fmt e
  proof (rule convert_char(1) [where Q = ?Q and g = ?g])
    show "?Q z" by (rule that)
    show "map (capture (?g z')) [1, 3] = map (capture (?g z)) [1, 3]" if "?Q z" "?Q z'" for z z'
      using that by (rule det)
  qed (rule idx S)+
  have c2: "convert s (patternMustCompile entrySlugPattern True) fmt e [1, 3] = Inl e"
    if "\<not> (\<exists>z. ?Q z)" for fmt e
  proof (rule convert_char(2) [where Q = ?Q and g = ?g])
    show "\<not> (\<exists>z. ?Q z)" by (rule that)
    show "map (capture (?g z')) [1, 3] = map (capture (?g z)) [1, 3]" if "?Q z" "?Q z'" for z z'
      using that by (rule det)
  qed (rule idx S)+
  {
    assume asm: "(s = a @ ''/'' @ b \<or> s = (a @ ''/'' @ b) @ ''/'')" "resource_id a" "resource_id b"
    have ok: "?Q ((a, b))" unfolding fst_conv snd_conv using asm by blast
    have "convert s (patternMustCompile entrySlugPattern True) entryPathFormat ErrInvalidSlug [1, 3] =
          Inr (Sprintf entryPathFormat (map (capture (?g ((a, b)))) [1, 3]))"
      by (rule c1 [OF ok])
    then show "ToEntryPath s = Inr (''categories/'' @ a @ ''/entries/'' @ b)"
      unfolding ToEntryPath_def toPath_def entrySlug_def entryMatchIndices_def
      by (simp add: capture_group_caps entryPathFormat_def categoryPathFormat_def categoryCollection_def entryCollection_def)
  }
  {
    assume "\<not> (\<exists>a b. (s = a @ ''/'' @ b \<or> s = (a @ ''/'' @ b) @ ''/'') \<and> resource_id (a) \<and> resource_id (b))"
    then have no: "\<not> (\<exists>z. ?Q z)" by blast
    show "ToEntryPath s = Inl ErrInvalidSlug"
      unfolding ToEntryPath_def toPath_def entrySlug_def entryMatchIndices_def
      by (rule c2 [OF no])
  }
qed

lemma ToChapterPath_char:
  shows "s = a @ ''/'' @ b @ ''/'' @ c \<Longrightarrow> resource_id a \<Longrightarrow> resource_id b \<Longrightarrow> resource_id c \<Longrightarrow>
         ToChapterPath s = Inr (''categories/'' @ a @ ''/entries/'' @ b @ ''/chapters/'' @ c)"
    and "\<not> (\<exists>a b c. s = a @ ''/'' @ b @ ''/'' @ c \<and> resource_id (a) \<and> resource_id (b) \<and> resource_id (c)) \<Longrightarrow>
         ToChapterPath s = Inl ErrInvalidSlug"
proof -
  let ?L = "\<lambda>z. fst (fst z) @ ''/'' @ snd (fst z) @ ''/'' @ snd z"
  let ?Q = "\<lambda>z. s = fst (fst z) @ ''/'' @ snd (fst z) @ ''/'' @ snd z \<and> resource_id (fst (fst z)) \<and> resource_id (snd (fst z)) \<and> resource_id (snd z)"
  let ?g = "\<lambda>z. group_caps (0 + 4) (snd z) (group_caps (0 + 2) (snd (fst z)) (group_caps 0 (fst (fst z)) []))"
  have idx: "\<forall>i\<in>set [1, 3, 5]. 0 < i \<and> i \<le> ngroups (patternMustCompile chapterSlugPattern False)"
    by simp
  have S: "set (run (patternMustCompile chapterSlugPattern False) 0 (0, s, [])) =
          {(length s, [], ?g z) | z. ?Q z}"
    by (rule run_compiled_exact [of chapterSlugPattern 0 ?L "\<lambda>z cs. group_caps (0 + 4) (snd z) (group_caps (0 + 2) (snd (fst z)) (group_caps 0 (fst (fst z)) cs))"
          "\<lambda>z. resource_id (fst (fst z)) \<and> resource_id (snd (fst z)) \<and> resource_id (snd z)", OF run_chapterSlugPattern])
  have det: "map (capture (?g z')) [1, 3, 5] = map (capture (?g z)) [1, 3, 5]" if z: "?Q z" and z': "?Q z'" for z z'
  proof -
    from z have 1: "s = ?L z" by (rule conjunct1)
    from z' have 2: "s = ?L z'" by (rule conjunct1)
    have e: "?L z' = ?L z" by (rule trans [OF 2 [symmetric] 1])
    have r: "resource_id (fst (fst z))" "resource_id (snd (fst z))" using z by blast+
    have r': "resource_id (fst (fst z'))" "resource_id (snd (fst z'))" using z' by blast+
    have "fst (fst z') = fst (fst z) \<and> snd (fst z') = snd (fst z) \<and> snd z' = snd z"
      by (rule chapter_slug_unique [OF e r'(1) r(1) r'(2) r(2)])
    then show ?thesis by simp
  qed
  have c1: "convert s (patternMustCompile chapterSlugPattern False) fmt e [1, 3, 5] =
      Inr (Sprintf fmt (map (capture (?g z)) [1, 3, 5]))" if "?Q z" for z fmt e
  proof (rule convert_char(1) [where Q = ?Q and g = ?g])
    show "?Q z" by (rule that)
    show "map (capture (?g z')) [1, 3, 5] = map (capture (?g z)) [1, 3, 5]" if "?Q z" "?Q z'" for z z'
      using that by (rule det)
  qed (rule idx S)+
  have c2: "convert s (patternMustCompile chapterSlugPattern False) fmt e [1, 3, 5] = Inl e"
    if "\<not> (\<exists>z. ?Q z)" for fmt e
  proof (rule convert_char(2) [where Q = ?Q and g = ?g])
    show "\<not> (\<exists>z. ?Q z)" by (rule that)
    show "map (capture (?g z')) [1, 3, 5] = map (capture (?g z)) [1, 3, 5]" if "?Q z" "?Q z'" for z z'
      using that by (rule det)
  qed (rule idx S)+
  {
    assume asm: "s = a @ ''/'' @ b @ ''/'' @ c" "resource_id a" "resource_id b" "resource_id c"
    have ok: "?Q (((a, b), c))" unfolding fst_conv snd_conv using asm by blast
    have "convert s (patternMustCompile chapterSlugPattern False) chapterPathFormat ErrInvalidSlug [1, 3, 5] =
          Inr (Sprintf chapterPathFormat (map (capture (?g (((a, b), c)))) [1, 3, 5]))"
      by (rule c1 [OF ok])
    then show "ToChapterPath s = Inr (''categories/'' @ a @ ''/entries/'' @ b @ ''/chapters/'' @ c)"
      unfolding ToChapterPath_def toPath_def chapterSlug_def chapterMatchIndices_def
      by (simp add: capture_group_caps chapterPathFormat_def entryPathFormat_def categoryPathFormat_def categoryCollection_def entryCollection_def chapterCollection_def)
  }
  {
    assume "\<not> (\<exists>a b c. s = a @ ''/'' @ b @ ''/'' @ c \<and> resource_id (a) \<and> resource_id (b) \<and> resource_id (c))"
    then have no: "\<not> (\<exists>z. ?Q z)" by blast
    show "ToChapterPath s = Inl ErrInvalidSlug"
      unfolding ToChapterPath_def toPath_def chapterSlug_def chapterMatchIndices_def
      by (rule c2 [OF no])
  }
qed


lemma full_match_iff: "full_match r s \<longleftrightarrow> (\<exists>p cs. (p, [], cs) \<in> set (run r 0 (0, s, [])))"
  by (auto simp: full_match_def list_ex_iff)

lemma full_match_resourceIDPattern: "full_match resourceIDPattern s \<longleftrightarrow> resource_id s"
  unfolding full_match_iff run_resourceIDPattern by auto

lemma full_match_categorySlugPattern: "full_match categorySlugPattern s \<longleftrightarrow> resource_id s"
  unfolding full_match_iff run_categorySlugPattern by auto

lemma full_match_entrySlugPattern:
  "full_match entrySlugPattern s \<longleftrightarrow>
     (\<exists>a b. s = a @ ''/'' @ b \<and> resource_id a \<and> resource_id b)"
  unfolding full_match_iff run_entrySlugPattern by auto

lemma full_match_chapterSlugPattern:
  "full_match chapterSlugPattern s \<longleftrightarrow>
     (\<exists>a b c. s = a @ ''/'' @ b @ ''/'' @ c \<and> resource_id a \<and> resource_id b \<and> resource_id c)"
  unfolding full_match_iff run_chapterSlugPattern by auto

lemma full_match_categoryPathPattern:
  "full_match categoryPathPattern s \<longleftrightarrow> (\<exists>a. s = ''categories/'' @ a \<and> resource_id a)"
  unfolding full_match_iff run_categoryPathPattern by auto

lemma full_match_entryPathPattern:
  "full_match entryPathPattern s \<longleftrightarrow>
     (\<exists>a b. s = ''categories/'' @ a @ ''/entries/'' @ b \<and> resource_id a \<and> resource_id b)"
  unfolding full_match_iff run_entryPathPattern by auto

lemma full_match_chapterPathPattern:
  "full_match chapterPathPattern s \<longleftrightarrow>
     (\<exists>a b c. s = ''categories/'' @ a @ ''/entries/'' @ b @ ''/chapters/'' @ c \<and>
        resource_id a \<and> resource_id b \<and> resource_id c)"
  unfolding full_match_iff run_chapterPathPattern by auto


lemma accepts_FromCategoryPath:
  "accepts FromCategoryPath s \<longleftrightarrow> (\<exists>a. s = ''categories/'' @ a \<and> resource_id a)"
proof
  assume acc: "accepts FromCategoryPath s"
  show "\<exists>a. s = ''categories/'' @ a \<and> resource_id a"
  proof (rule ccontr)
    assume "\<not> (\<exists>a. s = ''categories/'' @ a \<and> resource_id a)"
    from FromCategoryPath_char(2) [OF this] acc show False by (simp add: accepts_def)
  qed
next
  assume "\<exists>a. s = ''categories/'' @ a \<and> resource_id a"
  then obtain a where h: "s = ''categories/'' @ a" "resource_id a" by blast
  from FromCategoryPath_char(1) [OF h] show "accepts FromCategoryPath s" by (simp add: accepts_def)
qed

lemma accepts_FromEntryPath:
  "accepts FromEntryPath s \<longleftrightarrow> (\<exists>a b. s = ''categories/'' @ a @ ''/entries/'' @ b \<and> resource_id a \<and> resource_id b)"
proof
  assume acc: "accepts FromEntryPath s"
  show "\<exists>a b. s = ''categories/'' @ a @ ''/entries/'' @ b \<and> resource_id a \<and> resource_id b"
  proof (rule ccontr)
    assume "\<not> (\<exists>a b. s = ''categories/'' @ a @ ''/entries/'' @ b \<and> resource_id a \<and> resource_id b)"
    from FromEntryPath_char(2) [OF this] acc show False by (simp add: accepts_def)
  qed
next
  assume "\<exists>a b. s = ''categories/'' @ a @ ''/entries/'' @ b \<and> resource_id a \<and> resource_id b"
  then obtain a b where h: "s = ''categories/'' @ a @ ''/entries/'' @ b" "resource_id a" "resource_id b" by blast
  from FromEntryPath_char(1) [OF h] show "accepts FromEntryPath s" by (simp add: accepts_def)
qed

lemma accepts_FromChapterPath:
  "accepts FromChapterPath s \<longleftrightarrow> (\<exists>a b c. s = ''categories/'' @ a @ ''/entries/'' @ b @ ''/chapters/'' @ c \<and> resource_id a \<and> resource_id b \<and> resource_id c)"
proof
  assume acc: "accepts FromChapterPath s"
  show "\<exists>a b c. s = ''categories/'' @ a @ ''/entries/'' @ b @ ''/chapters/'' @ c \<and> resource_id a \<and> resource_id b \<and> resource_id c"
  proof (rule ccontr)
    assume "\<not> (\<exists>a b c. s = ''categories/'' @ a @ ''/entries/'' @ b @ ''/chapters/'' @ c \<and> resource_id a \<and> resource_id b \<and> resource_id c)"
    from FromChapterPath_char(2) [OF this] acc show False by (simp add: accepts_def)
  qed
next
  assume "\<exists>a b c. s = ''categories/'' @ a @ ''/entries/'' @ b @ ''/chapters/'' @ c \<and> resource_id a \<and> resource_id b \<and> resource_id c"
  then obtain a b c where h: "s = ''categories/'' @ a @ ''/entries/'' @ b @ ''/chapters/'' @ c" "resource_id a" "resource_id b" "resource_id c" by blast
  from FromChapterPath_char(1) [OF h] show "accepts FromChapterPath s" by (simp add: accepts_def)
qed

lemma accepts_ToCategoryPath:
  "accepts ToCategoryPath s \<longleftrightarrow> (\<exists>a. (s = a \<or> s = (a) @ ''/'') \<and> resource_id a)"
proof
  assume acc: "accepts ToCategoryPath s"
  show "\<exists>a. (s = a \<or> s = (a) @ ''/'') \<and> resource_id a"
  proof (rule ccontr)
    assume "\<not> (\<exists>a. (s = a \<or> s = (a) @ ''/'') \<and> resource_id a)"
    from ToCategoryPath_char(2) [OF this] acc show False by (simp add: accepts_def)
  qed
next
  assume "\<exists>a. (s = a \<or> s = (a) @ ''/'') \<and> resource_id a"
  then obtain a where h: "(s = a \<or> s = (a) @ ''/'')" "resource_id a" by blast
  from ToCategoryPath_char(1) [OF h] show "accepts ToCategoryPath s" by (simp add: accepts_def)
qed

lemma accepts_ToEntryPath:
  "accepts ToEntryPath s \<longleftrightarrow> (\<exists>a b. (s = a @ ''/'' @ b \<or> s = (a @ ''/'' @ b) @ ''/'') \<and> resource_id a \<and> resource_id b)"
proof
  assume acc: "accepts ToEntryPath s"
  show "\<exists>a b. (s = a @ ''/'' @ b \<or> s = (a @ ''/'' @ b) @ ''/'') \<and> resource_id a \<and> resource_id b"
  proof (rule ccontr)
    assume "\<not> (\<exists>a b. (s = a @ ''/'' @ b \<or> s = (a @ ''/'' @ b) @ ''/'') \<and> resource_id a \<and> resource_id b)"
    from ToEntryPath_char(2) [OF this] acc show False by (simp add: accepts_def)
  qed
next
  assume "\<exists>a b. (s = a @ ''/'' @ b \<or> s = (a @ ''/'' @ b) @ ''/'') \<and> resource_id a \<and> resource_id b"
  then obtain a b where h: "(s = a @ ''/'' @ b \<or> s = (a @ ''/'' @ b) @ ''/'')" "resource_id a" "resource_id b" by blast
  from ToEntryPath_char(1) [OF h] show "accepts ToEntryPath s" by (simp add: accepts_def)
qed

lemma accepts_ToChapterPath:
  "accepts ToChapterPath s \<longleftrightarrow> (\<exists>a b c. s = a @ ''/'' @ b @ ''/'' @ c \<and> resource_id a \<and> resource_id b \<and> resource_id c)"
proof
  assume acc: "accepts ToChapterPath s"
  show "\<exists>a b c. s = a @ ''/'' @ b @ ''/'' @ c \<and> resource_id a \<and> resource_id b \<and> resource_id c"
  proof (rule ccontr)
    assume "\<not> (\<exists>a b c. s = a @ ''/'' @ b @ ''/'' @ c \<and> resource_id a \<and> resource_id b \<and> resource_id c)"
    from ToChapterPath_char(2) [OF this] acc show False by (simp add: accepts_def)
  qed
next
  assume "\<exists>a b c. s = a @ ''/'' @ b @ ''/'' @ c \<and> resource_id a \<and> resource_id b \<and> resource_id c"
  then obtain a b c where h: "s = a @ ''/'' @ b @ ''/'' @ c" "resource_id a" "resource_id b" "resource_id c" by blast
  from ToChapterPath_char(1) [OF h] show "accepts ToChapterPath s" by (simp add: accepts_def)
qed

text \<open>
  Claim C1, as amended. The grammar that decides acceptance is the one of the code,
  \<open>[a-zA-Z0-9]([a-z0-9-.]{0,61}[a-z0-9])?\<close>: each of the six conversions accepts a
  string exactly when it has the shape of its depth and every resource id in it matches that
  grammar (the two slug conversions with an optional trailing slash also accept one slash
  after such a string).
\<close>

theorem resource_id_acceptance:
  "(accepts FromCategoryPath s \<longleftrightarrow>
      (\<exists>a. s = ''categories/'' @ a \<and> full_match resourceIDPattern a)) \<and>
   (accepts FromEntryPath s \<longleftrightarrow>
      (\<exists>a b. s = ''categories/'' @ a @ ''/entries/'' @ b \<and>
         full_match resourceIDPattern a \<and> full_match resourceIDPattern b)) \<and>
   (accepts FromChapterPath s \<longleftrightarrow>
      (\<exists>a b c. s = ''categories/'' @ a @ ''/entries/'' @ b @ ''/chapters/'' @ c \<and>
         full_match resourceIDPattern a \<and> full_match resourceIDPattern b \<and>
         full_match resourceIDPattern c)) \<and>
   (accepts ToCategoryPath s \<longleftrightarrow>
      (\<exists>a. (s = a \<or> s = a @ ''/'') \<and> full_match resourceIDPattern a)) \<and>
   (accepts ToEntryPath s \<longleftrightarrow>
      (\<exists>a b. (s = a @ ''/'' @ b \<or> s = (a @ ''/'' @ b) @ ''/'') \<and>
         full_match resourceIDPattern a \<and> full_match resourceIDPattern b)) \<and>
   (accepts ToChapterPath s \<longleftrightarrow>
      (\<exists>a b c. s = a @ ''/'' @ b @ ''/'' @ c \<and>
         full_match resourceIDPattern a \<and> full_match resourceIDPattern b \<and>
         full_match resourceIDPattern c))"
  unfolding full_match_resourceIDPattern
  by (intro conjI accepts_FromCategoryPath accepts_FromEntryPath accepts_FromChapterPath
        accepts_ToCategoryPath accepts_ToEntryPath accepts_ToChapterPath)

text \<open>
  The theorem at the slug \<open>foo-bar/fizz-buzz/\<close>, which \<open>ToEntryPath\<close> accepts.
\<close>

theorem resource_id_acceptance_witness:
  "accepts ToEntryPath ''foo-bar/fizz-buzz/'' \<and>
   (\<exists>a b. (''foo-bar/fizz-buzz/'' = a @ ''/'' @ b \<or> ''foo-bar/fizz-buzz/'' = (a @ ''/'' @ b) @ ''/'') \<and>
      full_match resourceIDPattern a \<and> full_match resourceIDPattern b)"
proof -
  have acc: "accepts ToEntryPath ''foo-bar/fizz-buzz/''" by code_simp
  from resource_id_acceptance [of "''foo-bar/fizz-buzz/''"]
  have "accepts ToEntryPath ''foo-bar/fizz-buzz/'' \<longleftrightarrow>
      (\<exists>a b. (''foo-bar/fizz-buzz/'' = a @ ''/'' @ b \<or> ''foo-bar/fizz-buzz/'' = (a @ ''/'' @ b) @ ''/'') \<and>
         full_match resourceIDPattern a \<and> full_match resourceIDPattern b)"
    by (elim conjE)
  with acc show ?thesis by blast
qed

text \<open>
  Claim C1 as stated fails: \<open>a-\<close> is in the grammar the specification writes,
  \<open>[A-Za-z0-9][a-z0-9-.]{0,61}[a-z0-9]?\<close>, and none of the six conversions accepts it
  as a resource id.
\<close>

theorem spec_grammar_counterexample:
  "full_match spec_resourceIDPattern ''a-'' \<and>
   \<not> accepts ToCategoryPath ''a-'' \<and>
   \<not> accepts FromCategoryPath ''categories/a-'' \<and>
   \<not> accepts ToEntryPath ''c/a-'' \<and>
   \<not> accepts FromEntryPath ''categories/c/entries/a-'' \<and>
   \<not> accepts ToChapterPath ''c/e/a-'' \<and>
   \<not> accepts FromChapterPath ''categories/c/entries/e/chapters/a-''"
  by code_simp


lemma split_on_none: "c \<notin> set u \<Longrightarrow> split_on c u = [u]"
  by (induction u) auto

lemma split_on_sep: "c \<notin> set u \<Longrightarrow> split_on c (u @ c # r) = u # split_on c r"
  by (induction u) auto

lemma segments_id: "resource_id a \<Longrightarrow> segments a = [a]"
  by (simp add: segments_def split_on_none resource_id_no_slash resource_id_nonempty)

lemma segments_cons:
  "CHR ''/'' \<notin> set u \<Longrightarrow> u \<noteq> [] \<Longrightarrow> segments (u @ CHR ''/'' # r) = u # segments r"
  by (simp add: segments_def split_on_sep)

lemma segments_slash [simp]: "segments ''/'' = []" "segments [] = []"
  by (simp_all add: segments_def)

lemma segments_id_cons:
  "resource_id a \<Longrightarrow> segments (a @ CHR ''/'' # r) = a # segments r"
  by (simp add: segments_cons resource_id_no_slash resource_id_nonempty)

lemma segments_lit:
  "segments (''categories/'' @ r) = ''categories'' # segments r"
  "segments (''entries/'' @ r) = ''entries'' # segments r"
  "segments (''chapters/'' @ r) = ''chapters'' # segments r"
  using segments_cons [of "''categories''" r] segments_cons [of "''entries''" r]
    segments_cons [of "''chapters''" r]
  by simp_all

lemma segments_count:
  assumes "resource_id a" "resource_id b" "resource_id c"
  shows "length (segments a) = 1" "length (segments (a @ ''/'')) = 1"
    "length (segments (a @ ''/'' @ b)) = 2" "length (segments ((a @ ''/'' @ b) @ ''/'')) = 2"
    "length (segments (a @ ''/'' @ b @ ''/'' @ c)) = 3"
    "length (segments (''categories/'' @ a)) = 2"
    "length (segments (''categories/'' @ a @ ''/entries/'' @ b)) = 4"
    "length (segments (''categories/'' @ a @ ''/entries/'' @ b @ ''/chapters/'' @ c)) = 6"
proof -
  note s = segments_id segments_id_cons segments_lit
  show "length (segments a) = 1" using assms by (simp add: s)
  show "length (segments (a @ ''/'')) = 1" using assms by (simp add: s)
  show "length (segments (a @ ''/'' @ b)) = 2" using assms by (simp add: s)
  show "length (segments ((a @ ''/'' @ b) @ ''/'')) = 2" using assms by (simp add: s)
  show "length (segments (a @ ''/'' @ b @ ''/'' @ c)) = 3" using assms by (simp add: s)
  have e: "''/entries/'' @ r = CHR ''/'' # ''entries/'' @ r"
    "''/chapters/'' @ r = CHR ''/'' # ''chapters/'' @ r" for r
    by simp_all
  show "length (segments (''categories/'' @ a)) = 2"
    using assms by (simp only: segments_lit segments_id) simp
  show "length (segments (''categories/'' @ a @ ''/entries/'' @ b)) = 4"
    using assms by (simp only: segments_lit segments_id segments_id_cons e) simp
  show "length (segments (''categories/'' @ a @ ''/entries/'' @ b @ ''/chapters/'' @ c)) = 6"
    using assms by (simp only: segments_lit segments_id segments_id_cons e) simp
qed


lemma category_round_trip:
  assumes "resource_id a"
  shows "ToCategoryPath a = Inr (''categories/'' @ a)"
    "ToCategoryPath (a @ ''/'') = Inr (''categories/'' @ a)"
    "FromCategoryPath (''categories/'' @ a) = Inr a"
  using assms ToCategoryPath_char(1) [of a a] ToCategoryPath_char(1) [of "a @ ''/''" a]
    FromCategoryPath_char(1) [of "''categories/'' @ a" a]
  by simp_all

lemma entry_round_trip:
  assumes "resource_id a" "resource_id b"
  shows "ToEntryPath (a @ ''/'' @ b) = Inr (''categories/'' @ a @ ''/entries/'' @ b)"
    "ToEntryPath ((a @ ''/'' @ b) @ ''/'') = Inr (''categories/'' @ a @ ''/entries/'' @ b)"
    "FromEntryPath (''categories/'' @ a @ ''/entries/'' @ b) = Inr (a @ ''/'' @ b)"
proof -
  show "ToEntryPath (a @ ''/'' @ b) = Inr (''categories/'' @ a @ ''/entries/'' @ b)"
    by (rule ToEntryPath_char(1) [OF _ assms]) simp
  show "ToEntryPath ((a @ ''/'' @ b) @ ''/'') = Inr (''categories/'' @ a @ ''/entries/'' @ b)"
    by (rule ToEntryPath_char(1) [OF _ assms]) simp
  show "FromEntryPath (''categories/'' @ a @ ''/entries/'' @ b) = Inr (a @ ''/'' @ b)"
    by (rule FromEntryPath_char(1) [OF _ assms]) simp
qed

lemma chapter_round_trip:
  assumes "resource_id a" "resource_id b" "resource_id c"
  shows "ToChapterPath (a @ ''/'' @ b @ ''/'' @ c) =
           Inr (''categories/'' @ a @ ''/entries/'' @ b @ ''/chapters/'' @ c)"
    "FromChapterPath (''categories/'' @ a @ ''/entries/'' @ b @ ''/chapters/'' @ c) =
           Inr (a @ ''/'' @ b @ ''/'' @ c)"
proof -
  show "ToChapterPath (a @ ''/'' @ b @ ''/'' @ c) =
           Inr (''categories/'' @ a @ ''/entries/'' @ b @ ''/chapters/'' @ c)"
    by (rule ToChapterPath_char(1) [OF _ assms]) simp
  show "FromChapterPath (''categories/'' @ a @ ''/entries/'' @ b @ ''/chapters/'' @ c) =
           Inr (a @ ''/'' @ b @ ''/'' @ c)"
    by (rule FromChapterPath_char(1) [OF _ assms]) simp
qed

lemma wrong_segment_count:
  shows "length (segments s) \<noteq> 1 \<Longrightarrow> ToCategoryPath s = Inl ErrInvalidSlug"
    and "length (segments s) \<noteq> 2 \<Longrightarrow> ToEntryPath s = Inl ErrInvalidSlug"
    and "length (segments s) \<noteq> 3 \<Longrightarrow> ToChapterPath s = Inl ErrInvalidSlug"
    and "length (segments s) \<noteq> 2 \<Longrightarrow> FromCategoryPath s = Inl ErrInvalidPath"
    and "length (segments s) \<noteq> 4 \<Longrightarrow> FromEntryPath s = Inl ErrInvalidPath"
    and "length (segments s) \<noteq> 6 \<Longrightarrow> FromChapterPath s = Inl ErrInvalidPath"
proof -
  show "ToCategoryPath s = Inl ErrInvalidSlug" if "length (segments s) \<noteq> 1"
  proof (rule ToCategoryPath_char(2), rule notI)
    assume "\<exists>a. (s = a \<or> s = a @ ''/'') \<and> resource_id a"
    then obtain a where "s = a \<or> s = a @ ''/''" "resource_id a" by blast
    then have "length (segments s) = 1" using segments_count(1,2) [of a a a] by auto
    with that show False by simp
  qed
  show "ToEntryPath s = Inl ErrInvalidSlug" if "length (segments s) \<noteq> 2"
  proof (rule ToEntryPath_char(2), rule notI)
    assume "\<exists>a b. (s = a @ ''/'' @ b \<or> s = (a @ ''/'' @ b) @ ''/'') \<and> resource_id a \<and> resource_id b"
    then obtain a b where "s = a @ ''/'' @ b \<or> s = (a @ ''/'' @ b) @ ''/''" "resource_id a" "resource_id b"
      by blast
    then have "length (segments s) = 2" using segments_count(3,4) [of a b b] by auto
    with that show False by simp
  qed
  show "ToChapterPath s = Inl ErrInvalidSlug" if "length (segments s) \<noteq> 3"
  proof (rule ToChapterPath_char(2), rule notI)
    assume "\<exists>a b c. s = a @ ''/'' @ b @ ''/'' @ c \<and> resource_id a \<and> resource_id b \<and> resource_id c"
    then obtain a b c where "s = a @ ''/'' @ b @ ''/'' @ c" "resource_id a" "resource_id b" "resource_id c"
      by blast
    then have "length (segments s) = 3" using segments_count(5) [of a b c] by auto
    with that show False by simp
  qed
  show "FromCategoryPath s = Inl ErrInvalidPath" if "length (segments s) \<noteq> 2"
  proof (rule FromCategoryPath_char(2), rule notI)
    assume "\<exists>a. s = ''categories/'' @ a \<and> resource_id a"
    then obtain a where "s = ''categories/'' @ a" "resource_id a" by blast
    then have "length (segments s) = 2" using segments_count(6) [of a a a] by auto
    with that show False by simp
  qed
  show "FromEntryPath s = Inl ErrInvalidPath" if "length (segments s) \<noteq> 4"
  proof (rule FromEntryPath_char(2), rule notI)
    assume "\<exists>a b. s = ''categories/'' @ a @ ''/entries/'' @ b \<and> resource_id a \<and> resource_id b"
    then obtain a b where "s = ''categories/'' @ a @ ''/entries/'' @ b" "resource_id a" "resource_id b"
      by blast
    then have "length (segments s) = 4" using segments_count(7) [of a b b] by auto
    with that show False by simp
  qed
  show "FromChapterPath s = Inl ErrInvalidPath" if "length (segments s) \<noteq> 6"
  proof (rule FromChapterPath_char(2), rule notI)
    assume "\<exists>a b c. s = ''categories/'' @ a @ ''/entries/'' @ b @ ''/chapters/'' @ c \<and>
              resource_id a \<and> resource_id b \<and> resource_id c"
    then obtain a b c where "s = ''categories/'' @ a @ ''/entries/'' @ b @ ''/chapters/'' @ c"
        "resource_id a" "resource_id b" "resource_id c"
      by blast
    then have "length (segments s) = 6" using segments_count(8) [of a b c] by auto
    with that show False by simp
  qed
qed


text \<open>
  Claim C5. A valid slug in canonical form is a string that matches the slug pattern of its
  depth (\<open>categorySlugPattern\<close>, \<open>entrySlugPattern\<close>, \<open>chapterSlugPattern\<close>, which have no
  trailing slash), a valid path one that matches the path pattern. Converting there and back
  returns the starting string at each depth, and each conversion returns its error for a
  string whose number of segments is not the one of its depth (1, 2, 3 for slugs and 2, 4, 6
  for paths).
\<close>

theorem slug_path_round_trip:
  "(full_match categorySlugPattern cs \<longrightarrow>
      (\<exists>p. ToCategoryPath cs = Inr p \<and> FromCategoryPath p = Inr cs)) \<and>
   (full_match entrySlugPattern es \<longrightarrow>
      (\<exists>p. ToEntryPath es = Inr p \<and> FromEntryPath p = Inr es)) \<and>
   (full_match chapterSlugPattern hs \<longrightarrow>
      (\<exists>p. ToChapterPath hs = Inr p \<and> FromChapterPath p = Inr hs)) \<and>
   (full_match categoryPathPattern cp \<longrightarrow>
      (\<exists>t. FromCategoryPath cp = Inr t \<and> ToCategoryPath t = Inr cp)) \<and>
   (full_match entryPathPattern ep \<longrightarrow>
      (\<exists>t. FromEntryPath ep = Inr t \<and> ToEntryPath t = Inr ep)) \<and>
   (full_match chapterPathPattern hp \<longrightarrow>
      (\<exists>t. FromChapterPath hp = Inr t \<and> ToChapterPath t = Inr hp)) \<and>
   (length (segments x) \<noteq> 1 \<longrightarrow> ToCategoryPath x = Inl ErrInvalidSlug) \<and>
   (length (segments x) \<noteq> 2 \<longrightarrow> ToEntryPath x = Inl ErrInvalidSlug) \<and>
   (length (segments x) \<noteq> 3 \<longrightarrow> ToChapterPath x = Inl ErrInvalidSlug) \<and>
   (length (segments x) \<noteq> 2 \<longrightarrow> FromCategoryPath x = Inl ErrInvalidPath) \<and>
   (length (segments x) \<noteq> 4 \<longrightarrow> FromEntryPath x = Inl ErrInvalidPath) \<and>
   (length (segments x) \<noteq> 6 \<longrightarrow> FromChapterPath x = Inl ErrInvalidPath)"
proof -
  have 1: "\<exists>p. ToCategoryPath cs = Inr p \<and> FromCategoryPath p = Inr cs"
    if "full_match categorySlugPattern cs"
    using that category_round_trip(1,3) [of cs] by (simp add: full_match_categorySlugPattern)
  have 2: "\<exists>p. ToEntryPath es = Inr p \<and> FromEntryPath p = Inr es"
    if "full_match entrySlugPattern es"
  proof -
    from that obtain a b where "es = a @ ''/'' @ b" "resource_id a" "resource_id b"
      unfolding full_match_entrySlugPattern by blast
    then show ?thesis using entry_round_trip(1,3) [of a b] by simp
  qed
  have 3: "\<exists>p. ToChapterPath hs = Inr p \<and> FromChapterPath p = Inr hs"
    if "full_match chapterSlugPattern hs"
  proof -
    from that obtain a b c where "hs = a @ ''/'' @ b @ ''/'' @ c" "resource_id a" "resource_id b"
        "resource_id c"
      unfolding full_match_chapterSlugPattern by blast
    then show ?thesis using chapter_round_trip [of a b c] by simp
  qed
  have 4: "\<exists>t. FromCategoryPath cp = Inr t \<and> ToCategoryPath t = Inr cp"
    if "full_match categoryPathPattern cp"
  proof -
    from that obtain a where "cp = ''categories/'' @ a" "resource_id a"
      unfolding full_match_categoryPathPattern by blast
    then show ?thesis using category_round_trip(1,3) [of a] by simp
  qed
  have 5: "\<exists>t. FromEntryPath ep = Inr t \<and> ToEntryPath t = Inr ep"
    if "full_match entryPathPattern ep"
  proof -
    from that obtain a b where "ep = ''categories/'' @ a @ ''/entries/'' @ b" "resource_id a"
        "resource_id b"
      unfolding full_match_entryPathPattern by blast
    then show ?thesis using entry_round_trip(1,3) [of a b] by simp
  qed
  have 6: "\<exists>t. FromChapterPath hp = Inr t \<and> ToChapterPath t = Inr hp"
    if "full_match chapterPathPattern hp"
  proof -
    from that obtain a b c where "hp = ''categories/'' @ a @ ''/entries/'' @ b @ ''/chapters/'' @ c"
        "resource_id a" "resource_id b" "resource_id c"
      unfolding full_match_chapterPathPattern by blast
    then show ?thesis using chapter_round_trip [of a b c] by simp
  qed
  show ?thesis
    using 1 2 3 4 5 6 wrong_segment_count [of x] by blast
qed

text \<open>
  The theorem at one valid slug and one valid path of each depth, and at a string of five
  segments, which all six conversions reject.
\<close>

theorem slug_path_round_trip_witness:
  "(full_match categorySlugPattern ''foo-bar'' \<and>
    full_match entrySlugPattern ''foo-bar/fizz-buzz'' \<and>
    full_match chapterSlugPattern ''foo-bar/fizz-buzz/fizz-buzz-1'' \<and>
    full_match categoryPathPattern ''categories/foo-bar'' \<and>
    full_match entryPathPattern ''categories/foo-bar/entries/fizz-buzz'' \<and>
    full_match chapterPathPattern ''categories/foo-bar/entries/fizz-buzz/chapters/fizz-buzz-1'' \<and>
    length (segments ''a/b/c/d/e'') = 5) \<and>
   ((\<exists>p. ToCategoryPath ''foo-bar'' = Inr p \<and> FromCategoryPath p = Inr ''foo-bar'') \<and>
    (\<exists>p. ToEntryPath ''foo-bar/fizz-buzz'' = Inr p \<and> FromEntryPath p = Inr ''foo-bar/fizz-buzz'') \<and>
    (\<exists>p. ToChapterPath ''foo-bar/fizz-buzz/fizz-buzz-1'' = Inr p \<and>
         FromChapterPath p = Inr ''foo-bar/fizz-buzz/fizz-buzz-1'') \<and>
    (\<exists>t. FromCategoryPath ''categories/foo-bar'' = Inr t \<and>
         ToCategoryPath t = Inr ''categories/foo-bar'') \<and>
    (\<exists>t. FromEntryPath ''categories/foo-bar/entries/fizz-buzz'' = Inr t \<and>
         ToEntryPath t = Inr ''categories/foo-bar/entries/fizz-buzz'') \<and>
    (\<exists>t. FromChapterPath ''categories/foo-bar/entries/fizz-buzz/chapters/fizz-buzz-1'' = Inr t \<and>
         ToChapterPath t = Inr ''categories/foo-bar/entries/fizz-buzz/chapters/fizz-buzz-1'') \<and>
    ToCategoryPath ''a/b/c/d/e'' = Inl ErrInvalidSlug \<and>
    ToEntryPath ''a/b/c/d/e'' = Inl ErrInvalidSlug \<and>
    ToChapterPath ''a/b/c/d/e'' = Inl ErrInvalidSlug \<and>
    FromCategoryPath ''a/b/c/d/e'' = Inl ErrInvalidPath \<and>
    FromEntryPath ''a/b/c/d/e'' = Inl ErrInvalidPath \<and>
    FromChapterPath ''a/b/c/d/e'' = Inl ErrInvalidPath)"
proof -
  have h: "full_match categorySlugPattern ''foo-bar''"
    "full_match entrySlugPattern ''foo-bar/fizz-buzz''"
    "full_match chapterSlugPattern ''foo-bar/fizz-buzz/fizz-buzz-1''"
    "full_match categoryPathPattern ''categories/foo-bar''"
    "full_match entryPathPattern ''categories/foo-bar/entries/fizz-buzz''"
    "full_match chapterPathPattern ''categories/foo-bar/entries/fizz-buzz/chapters/fizz-buzz-1''"
    by code_simp+
  have n: "length (segments ''a/b/c/d/e'') = 5" by code_simp
  show ?thesis
    using h n
      slug_path_round_trip [of "''foo-bar''" "''foo-bar/fizz-buzz''"
        "''foo-bar/fizz-buzz/fizz-buzz-1''" "''categories/foo-bar''"
        "''categories/foo-bar/entries/fizz-buzz''"
        "''categories/foo-bar/entries/fizz-buzz/chapters/fizz-buzz-1''" "''a/b/c/d/e''"]
    by simp
qed

lemma no_trailing_slash:
  assumes "resource_id c"
  shows "x @ ''/'' \<noteq> y @ c"
proof
  assume e: "x @ ''/'' = y @ c"
  from assms have ne: "c \<noteq> []" by (rule resource_id_nonempty)
  from e have "last (x @ ''/'') = last (y @ c)" by simp
  with ne have "last c = CHR ''/''" by simp
  with ne have "CHR ''/'' \<in> set c" using last_in_set by metis
  with resource_id_no_slash [OF assms] show False by simp
qed

text \<open>
  Claim C9. Every valid category slug and every valid entry slug is accepted with and without
  one trailing slash, and converts to the same path both ways; \<open>ToChapterPath\<close> rejects every
  string that ends in a slash with \<open>ErrInvalidSlug\<close>.
\<close>

theorem trailing_slash_asymmetry:
  "(full_match categorySlugPattern cs \<longrightarrow>
      (\<exists>p. ToCategoryPath cs = Inr p \<and> ToCategoryPath (cs @ ''/'') = Inr p)) \<and>
   (full_match entrySlugPattern es \<longrightarrow>
      (\<exists>p. ToEntryPath es = Inr p \<and> ToEntryPath (es @ ''/'') = Inr p)) \<and>
   ToChapterPath (x @ ''/'') = Inl ErrInvalidSlug"
proof -
  have 1: "\<exists>p. ToCategoryPath cs = Inr p \<and> ToCategoryPath (cs @ ''/'') = Inr p"
    if "full_match categorySlugPattern cs"
    using that category_round_trip(1,2) [of cs] by (simp add: full_match_categorySlugPattern)
  have 2: "\<exists>p. ToEntryPath es = Inr p \<and> ToEntryPath (es @ ''/'') = Inr p"
    if "full_match entrySlugPattern es"
  proof -
    from that obtain a b where "es = a @ ''/'' @ b" "resource_id a" "resource_id b"
      unfolding full_match_entrySlugPattern by blast
    then show ?thesis using entry_round_trip(1,2) [of a b] by simp
  qed
  have 3: "ToChapterPath (x @ ''/'') = Inl ErrInvalidSlug"
  proof (rule ToChapterPath_char(2), rule notI)
    assume "\<exists>a b c. x @ ''/'' = a @ ''/'' @ b @ ''/'' @ c \<and>
              resource_id a \<and> resource_id b \<and> resource_id c"
    then obtain a b c where e: "x @ ''/'' = (a @ ''/'' @ b @ ''/'') @ c" and c: "resource_id c"
      by auto
    from no_trailing_slash [OF c] e show False by blast
  qed
  show ?thesis using 1 2 3 by blast
qed

text \<open>The theorem at the slugs \<open>foo-bar\<close> and \<open>foo-bar/fizz-buzz\<close>.\<close>

theorem trailing_slash_asymmetry_witness:
  "full_match categorySlugPattern ''foo-bar'' \<and>
   full_match entrySlugPattern ''foo-bar/fizz-buzz'' \<and>
   (\<exists>p. ToCategoryPath ''foo-bar'' = Inr p \<and> ToCategoryPath ''foo-bar/'' = Inr p) \<and>
   (\<exists>p. ToEntryPath ''foo-bar/fizz-buzz'' = Inr p \<and> ToEntryPath ''foo-bar/fizz-buzz/'' = Inr p) \<and>
   ToChapterPath ''foo-bar/fizz-buzz/fizz-buzz-1/'' = Inl ErrInvalidSlug"
proof -
  have h: "full_match categorySlugPattern ''foo-bar''"
    "full_match entrySlugPattern ''foo-bar/fizz-buzz''"
    by code_simp+
  show ?thesis
    using h trailing_slash_asymmetry [of "''foo-bar''" "''foo-bar/fizz-buzz''"
        "''foo-bar/fizz-buzz/fizz-buzz-1''"]
    by simp
qed


section \<open>Properties of the scraper\<close>

text \<open>
  Claim C2. For a row timestamp in the recent form (the layout without a year parses it),
  \<open>parseRowTimestamp\<close> returns a time whose year is: the parent's year if that is before
  the current year and the parent's month is not before the row's month; the parent's year
  minus one if it is before the current year and the parent's month is before the row's; the
  current year minus one if the parent's year is not before the current year and the current
  month is before the row's month; and the current year otherwise.
\<close>

theorem year_inference:
  assumes "parseRecent env ts = Some r"
  shows "\<exists>t. parseRowTimestamp env ts parentLastUpdated = Inr t \<and>
    (year parentLastUpdated < year (clock env) \<and> month r \<le> month parentLastUpdated \<longrightarrow> year t = year parentLastUpdated) \<and>
    (year parentLastUpdated < year (clock env) \<and> month parentLastUpdated < month r \<longrightarrow> year t = year parentLastUpdated - 1) \<and>
    (year (clock env) \<le> year parentLastUpdated \<and> month (clock env) < month r \<longrightarrow>
       year t = year (clock env) - 1) \<and>
    (year (clock env) \<le> year parentLastUpdated \<and> month r \<le> month (clock env) \<longrightarrow>
       year t = year (clock env))"
  using assms by (simp add: parseRowTimestamp_def Let_def)

text \<open>
  The theorem at the row \<open>Feb  1 12:00\<close> under a parent last modified in January 2025, read
  in November 2026: the row is dated 2024.
\<close>

theorem year_inference_witness:
  "parseRecent example_env ''Feb  1 12:00'' =
     Some \<lparr> year = 0, month = 2, day = 1, hour = 12, minute = 0, second = 0 \<rparr> \<and>
   (\<exists>t. parseRowTimestamp example_env ''Feb  1 12:00''
           \<lparr> year = 2025, month = 1, day = 15, hour = 0, minute = 0, second = 0 \<rparr> = Inr t \<and>
        year t = 2024)"
proof -
  have h: "parseRecent example_env ''Feb  1 12:00'' =
     Some \<lparr> year = 0, month = 2, day = 1, hour = 12, minute = 0, second = 0 \<rparr>"
    by (simp add: example_env_def)
  from year_inference [OF h, of "\<lparr> year = 2025, month = 1, day = 15, hour = 0, minute = 0, second = 0 \<rparr>"]
  show ?thesis using h by (simp add: example_env_def)
qed

text \<open>
  Claim C3 as stated fails: a page with the scroll marker and no row that parses gives a
  response with no results and a non-empty next page token.
\<close>

theorem empty_listing_counterexample:
  "Scraper_ListEntries example_env example_codec
     \<lparr> parent = ''categories/empty'', filter_expr = None, max_page_size = 0, page_token = [] \<rparr> =
   (Some \<lparr> results = [], next_page_token = ''cGFnZTE'' \<rparr>, None)"
  by code_simp


text \<open>
  Claim C3, as amended. A successful \<open>ListEntries\<close> of the scraper carries a non-empty next
  page token only if the page is detected as paginated (it has the scroll marker, or the
  request's token names a page greater than 1). When the page is paginated the token is issued
  whether or not a row was parsed: it is the encoding of a token with the current page and
  the path and update time of the last result, or, when there is no result, the placeholder
  cursor \<open>categories/xxx/entries/xxx\<close> and the current time.
\<close>

theorem scraper_next_page_token:
  assumes "Scraper_ListEntries env cd req = (Some res, None)"
  shows "\<exists>slug pg html.
     FromCategoryPath (parent req) = Inr slug \<and>
     (if page_token req \<noteq> [] then FromToken cd (page_token req) = Inr pg
      else pg = \<lparr> page = 1, after_entry = [], start_update_time = None \<rparr>) \<and>
     visit env (if 1 < sint (page pg) then ListingIndex slug (sint (page pg) - 1)
                else Listing slug) = Some html \<and>
     (if has_scroll html \<or> (page_token req \<noteq> [] \<and> 1 < sint (page pg))
      then \<exists>tk. ToToken cd tk = Inr (next_page_token res) \<and> page tk = page pg \<and>
             (if results res = []
              then after_entry tk = ''categories/xxx/entries/xxx'' \<and>
                   start_update_time tk = Some (nowTimestamp env)
              else after_entry tk = path (last (results res)) \<and>
                   start_update_time tk = update_time (last (results res)))
      else next_page_token res = [])"
proof -
  from assms obtain slug where slug: "FromCategoryPath (parent req) = Inr slug"
    by (cases "FromCategoryPath (parent req)") (auto simp: Scraper_ListEntries_def)
  define tok where "tok = (if page_token req \<noteq> [] then FromToken cd (page_token req)
                 else Inr \<lparr> page = 1, after_entry = [], start_update_time = None \<rparr>)"
  from assms slug obtain pg where pg: "tok = Inr pg"
    by (cases tok) (auto simp: Scraper_ListEntries_def tok_def)
  define addr where "addr = (if 1 < sint (page pg) then ListingIndex slug (sint (page pg) - 1)
                else Listing slug)"
  from assms slug pg obtain html where html: "visit env addr = Some html"
    by (cases "visit env addr") (auto simp: Scraper_ListEntries_def tok_def [symmetric] addr_def Let_def)
  define rs where "rs = map (\<lambda>(k, lastUpdated, childPath, title).
                                       \<lparr> path = childPath, display_name = title, kind = k,
                                         update_time = Some (newTimestamp env lastUpdated),
                                         starred = False, hidden = False,
                                         view_time = None, read_time = None \<rparr>)
                                  (scrapeRows env html slug ToEntryPath)"
  define nextPage where "nextPage = (if length rs > 0
                                        then \<lparr> page = page pg, after_entry = path (last rs),
                                               start_update_time = update_time (last rs) \<rparr>
                                        else \<lparr> page = page pg,
                                               after_entry = ''categories/xxx/entries/xxx'',
                                               start_update_time = Some (nowTimestamp env) \<rparr>)"
  have exec: "Scraper_ListEntries env cd req =
     (if (page_token req \<noteq> [] \<and> 1 < sint (page pg)) \<or> has_scroll html
      then (case ToToken cd nextPage of
              Inl f \<Rightarrow> (None, Some (ConnectError CodeInternal (TokenError f)))
            | Inr tkn \<Rightarrow> (Some \<lparr> results = rs, next_page_token = tkn \<rparr>, None))
      else (Some \<lparr> results = rs, next_page_token = [] \<rparr>, None))"
    using slug pg html
    by (cases "(page_token req \<noteq> [] \<and> 1 < sint (page pg)) \<or> has_scroll html")
       (auto simp: Scraper_ListEntries_def tok_def [symmetric] addr_def [symmetric] Let_def
          rs_def [symmetric] nextPage_def)
  have unfolded: "(Some res, None) =
     (if (page_token req \<noteq> [] \<and> 1 < sint (page pg)) \<or> has_scroll html
      then (case ToToken cd nextPage of
              Inl f \<Rightarrow> (None, Some (ConnectError CodeInternal (TokenError f)))
            | Inr tkn \<Rightarrow> (Some \<lparr> results = rs, next_page_token = tkn \<rparr>, None))
      else (Some \<lparr> results = rs, next_page_token = [] \<rparr>, None))"
    using assms exec by simp
  have last: "(if has_scroll html \<or> (page_token req \<noteq> [] \<and> 1 < sint (page pg))
      then \<exists>tk. ToToken cd tk = Inr (next_page_token res) \<and> page tk = page pg \<and>
             (if results res = []
              then after_entry tk = ''categories/xxx/entries/xxx'' \<and>
                   start_update_time tk = Some (nowTimestamp env)
              else after_entry tk = path (last (results res)) \<and>
                   start_update_time tk = update_time (last (results res)))
      else next_page_token res = [])"
  proof (cases "has_scroll html \<or> (page_token req \<noteq> [] \<and> 1 < sint (page pg))")
    case False
    then show ?thesis using unfolded by auto
  next
    case True
    with unfolded obtain tkn where tkn: "ToToken cd nextPage = Inr tkn"
        "res = \<lparr> results = rs, next_page_token = tkn \<rparr>"
      by (cases "ToToken cd nextPage") auto
    have "ToToken cd nextPage = Inr (next_page_token res) \<and> page nextPage = page pg \<and>
             (if results res = []
              then after_entry nextPage = ''categories/xxx/entries/xxx'' \<and>
                   start_update_time nextPage = Some (nowTimestamp env)
              else after_entry nextPage = path (last (results res)) \<and>
                   start_update_time nextPage = update_time (last (results res)))"
      using tkn by (simp add: nextPage_def)
    then show ?thesis using True by (simp only: if_True) (rule exI)
  qed
  show ?thesis
    using slug pg html last unfolding tok_def addr_def
    by (intro exI [of _ slug] exI [of _ pg] exI [of _ html]) (auto split: if_splits)
qed

text \<open>The theorem at the listing with the scroll marker and no row.\<close>

theorem scraper_next_page_token_witness:
  "Scraper_ListEntries example_env example_codec
     \<lparr> parent = ''categories/empty'', filter_expr = None, max_page_size = 0, page_token = [] \<rparr> =
   (Some \<lparr> results = [], next_page_token = ''cGFnZTE'' \<rparr>, None) \<and>
   (\<exists>tk. ToToken example_codec tk = Inr ''cGFnZTE'' \<and> page tk = 1 \<and>
      after_entry tk = ''categories/xxx/entries/xxx'')"
proof -
  have h: "Scraper_ListEntries example_env example_codec
     \<lparr> parent = ''categories/empty'', filter_expr = None, max_page_size = 0, page_token = [] \<rparr> =
   (Some \<lparr> results = [], next_page_token = ''cGFnZTE'' \<rparr>, None)"
    by code_simp
  have e: "FromCategoryPath ''categories/empty'' = Inr ''empty''" by code_simp
  from scraper_next_page_token [OF h] show ?thesis
    using h by (auto simp: e example_env_def split: if_splits)
qed


section \<open>Properties of the Paginator\<close>

lemma applyPagination_bad_token:
  assumes "page_token req \<noteq> []" "FromToken cd (page_token req) = Inl f"
  shows "applyPagination cd env req tokenFn sizeFn st =
           (st, Some (ConnectError CodeInvalidArgument (TokenError f)))"
  using assms by (simp add: applyPagination_def applyToken_def)

text \<open>
  What the Validator returns around a handler that returns the wrapped handler's error, or
  else a response together with an InvalidArgument error.
\<close>

lemma validate_bad_token:
  assumes h: "\<And>w. handle req w =
      (case inner req w of
         ((_, Some err), w') \<Rightarrow> ((None, Some err), w')
       | ((None, None), w') \<Rightarrow> ((None, Some NilDereference), w')
       | ((Some res, None), w') \<Rightarrow> ((Some res, Some e0), w'))"
  shows "(\<exists>e st'. validate validateReq validateRes name handle req st = ((None, Some e), st')) \<and>
         (validateReq req = None \<and> inner req (snd st) = ((Some res, None), w') \<longrightarrow>
            validate validateReq validateRes name handle req st = ((None, Some e0), (fst st, w')))"
proof (cases "validateReq req")
  case (Some v)
  then show ?thesis by (simp add: validate_def)
next
  case None
  obtain r e w'' where i: "inner req (snd st) = ((r, e), w'')"
    by (metis surj_pair)
  show ?thesis
    using None i by (cases r; cases e) (simp_all add: validate_def h)
qed

text \<open>
  What the Validator returns when the request passes its validation and the handler returns
  an error.
\<close>

lemma validate_handler_error:
  assumes "validateReq req = None" "handle req (snd st) = ((r, Some err), w')"
  shows "validate validateReq validateRes name handle req st = ((None, Some err), (fst st, w'))"
  using assms by (simp add: validate_def split: option.splits)

text \<open>
  Claim C7, as amended. For a list request with a non-empty page token that fails base64url
  decoding, unmarshalling or its schema validation, each list operation, behind the
  Validator, returns an error and no response: the malformed token is never treated as if no
  token had been supplied. When the wrapped handler returns a response without an error,
  the Paginator returns that response, unchanged, together with an InvalidArgument error
  that carries the failure of the token, and the Validator, for a request that passes its
  validation, returns that error and no response. When the wrapped handler, which is called
  before the token is decoded, returns an error, the Paginator returns that same error and
  no response, and so does the Validator for a request that passes its validation.
\<close>

theorem malformed_token_rejected:
  "(page_token req \<noteq> [] \<and> FromToken cdc (page_token req) = Inl fc \<longrightarrow>
      (\<exists>e st'. validate validateReq vrc nc (Paginator_ListCategories cdc envc innerc) req st =
                 ((None, Some e), st')) \<and>
      (validateReq req = None \<and> innerc req (snd st) = ((Some resc, None), wc) \<longrightarrow>
         validate validateReq vrc nc (Paginator_ListCategories cdc envc innerc) req st =
           ((None, Some (ConnectError CodeInvalidArgument (TokenError fc))), (fst st, wc))) \<and>
      (innerc req (snd st) = ((Some resc, None), wc) \<longrightarrow>
         Paginator_ListCategories cdc envc innerc req (snd st) =
           ((Some resc, Some (ConnectError CodeInvalidArgument (TokenError fc))), wc)) \<and>
      (failc req (snd st) = ((rc, Some errc), xc) \<longrightarrow>
         Paginator_ListCategories cdc envc failc req (snd st) = ((None, Some errc), xc) \<and>
         (validateReq req = None \<longrightarrow>
            validate validateReq vrc nc (Paginator_ListCategories cdc envc failc) req st =
              ((None, Some errc), (fst st, xc))))) \<and>
   (page_token req \<noteq> [] \<and> FromToken cde (page_token req) = Inl fe \<longrightarrow>
      (\<exists>e st'. validate validateReq vre ne (Paginator_ListEntries cde enve innere) req st =
                 ((None, Some e), st')) \<and>
      (validateReq req = None \<and> innere req (snd st) = ((Some rese, None), we) \<longrightarrow>
         validate validateReq vre ne (Paginator_ListEntries cde enve innere) req st =
           ((None, Some (ConnectError CodeInvalidArgument (TokenError fe))), (fst st, we))) \<and>
      (innere req (snd st) = ((Some rese, None), we) \<longrightarrow>
         Paginator_ListEntries cde enve innere req (snd st) =
           ((Some rese, Some (ConnectError CodeInvalidArgument (TokenError fe))), we)) \<and>
      (faile req (snd st) = ((re, Some erre), xe) \<longrightarrow>
         Paginator_ListEntries cde enve faile req (snd st) = ((None, Some erre), xe) \<and>
         (validateReq req = None \<longrightarrow>
            validate validateReq vre ne (Paginator_ListEntries cde enve faile) req st =
              ((None, Some erre), (fst st, xe))))) \<and>
   (page_token req \<noteq> [] \<and> FromToken cdh (page_token req) = Inl fh \<longrightarrow>
      (\<exists>e st'. validate validateReq vrh nh (Paginator_ListChapters cdh envh innerh) req st =
                 ((None, Some e), st')) \<and>
      (validateReq req = None \<and> innerh req (snd st) = ((Some resh, None), wh) \<longrightarrow>
         validate validateReq vrh nh (Paginator_ListChapters cdh envh innerh) req st =
           ((None, Some (ConnectError CodeInvalidArgument (TokenError fh))), (fst st, wh))) \<and>
      (innerh req (snd st) = ((Some resh, None), wh) \<longrightarrow>
         Paginator_ListChapters cdh envh innerh req (snd st) =
           ((Some resh, Some (ConnectError CodeInvalidArgument (TokenError fh))), wh)) \<and>
      (failh req (snd st) = ((rh, Some errh), xh) \<longrightarrow>
         Paginator_ListChapters cdh envh failh req (snd st) = ((None, Some errh), xh) \<and>
         (validateReq req = None \<longrightarrow>
            validate validateReq vrh nh (Paginator_ListChapters cdh envh failh) req st =
              ((None, Some errh), (fst st, xh))))) \<and>
   (page_token req \<noteq> [] \<and> FromToken cdu (page_token req) = Inl fu \<longrightarrow>
      (\<exists>e st'. validate validateReq vru nu (Paginator_ListUsers cdu envu inneru) req st =
                 ((None, Some e), st')) \<and>
      (validateReq req = None \<and> inneru req (snd st) = ((Some resu, None), wu) \<longrightarrow>
         validate validateReq vru nu (Paginator_ListUsers cdu envu inneru) req st =
           ((None, Some (ConnectError CodeInvalidArgument (TokenError fu))), (fst st, wu))) \<and>
      (inneru req (snd st) = ((Some resu, None), wu) \<longrightarrow>
         Paginator_ListUsers cdu envu inneru req (snd st) =
           ((Some resu, Some (ConnectError CodeInvalidArgument (TokenError fu))), wu)) \<and>
      (failu req (snd st) = ((ru, Some erru), xu) \<longrightarrow>
         Paginator_ListUsers cdu envu failu req (snd st) = ((None, Some erru), xu) \<and>
         (validateReq req = None \<longrightarrow>
            validate validateReq vru nu (Paginator_ListUsers cdu envu failu) req st =
              ((None, Some erru), (fst st, xu)))))"
proof -
  have c: "(\<exists>e st'. validate validateReq vrc nc (Paginator_ListCategories cdc envc innerc) req st =
                 ((None, Some e), st')) \<and>
      (validateReq req = None \<and> innerc req (snd st) = ((Some resc, None), wc) \<longrightarrow>
         validate validateReq vrc nc (Paginator_ListCategories cdc envc innerc) req st =
           ((None, Some (ConnectError CodeInvalidArgument (TokenError fc))), (fst st, wc))) \<and>
      (innerc req (snd st) = ((Some resc, None), wc) \<longrightarrow>
         Paginator_ListCategories cdc envc innerc req (snd st) =
           ((Some resc, Some (ConnectError CodeInvalidArgument (TokenError fc))), wc)) \<and>
      (failc req (snd st) = ((rc, Some errc), xc) \<longrightarrow>
         Paginator_ListCategories cdc envc failc req (snd st) = ((None, Some errc), xc) \<and>
         (validateReq req = None \<longrightarrow>
            validate validateReq vrc nc (Paginator_ListCategories cdc envc failc) req st =
              ((None, Some errc), (fst st, xc))))"
    if t: "page_token req \<noteq> []" "FromToken cdc (page_token req) = Inl fc"
  proof -
    have h: "Paginator_ListCategories cdc envc innerc req w =
      (case innerc req w of
         ((_, Some err), w') \<Rightarrow> ((None, Some err), w')
       | ((None, None), w') \<Rightarrow> ((None, Some NilDereference), w')
       | ((Some res, None), w') \<Rightarrow>
           ((Some res, Some (ConnectError CodeInvalidArgument (TokenError fc))), w'))" for w
      by (simp add: Paginator_ListCategories_def applyPagination_bad_token [OF t]
            split: prod.splits option.splits)
    have ab: "(\<exists>e st'. validate validateReq vrc nc (Paginator_ListCategories cdc envc innerc) req st =
                 ((None, Some e), st')) \<and>
      (validateReq req = None \<and> innerc req (snd st) = ((Some resc, None), wc) \<longrightarrow>
         validate validateReq vrc nc (Paginator_ListCategories cdc envc innerc) req st =
           ((None, Some (ConnectError CodeInvalidArgument (TokenError fc))), (fst st, wc)))"
      by (rule validate_bad_token [where handle = "Paginator_ListCategories cdc envc innerc" and inner = innerc and req = req, OF h])
    have c: "innerc req (snd st) = ((Some resc, None), wc) \<longrightarrow>
         Paginator_ListCategories cdc envc innerc req (snd st) =
           ((Some resc, Some (ConnectError CodeInvalidArgument (TokenError fc))), wc)"
      by (simp add: h)
    have p: "Paginator_ListCategories cdc envc failc req (snd st) = ((None, Some errc), xc)"
      if i: "failc req (snd st) = ((rc, Some errc), xc)"
      by (simp add: Paginator_ListCategories_def i split: option.splits)
    have d: "failc req (snd st) = ((rc, Some errc), xc) \<longrightarrow>
         Paginator_ListCategories cdc envc failc req (snd st) = ((None, Some errc), xc) \<and>
         (validateReq req = None \<longrightarrow>
            validate validateReq vrc nc (Paginator_ListCategories cdc envc failc) req st =
              ((None, Some errc), (fst st, xc)))"
      using p validate_handler_error [where handle = "Paginator_ListCategories cdc envc failc" and req = req and st = st
          and validateReq = validateReq and validateRes = vrc and name = nc]
      by simp
    show ?thesis using ab c d by blast
  qed
  have e: "(\<exists>e st'. validate validateReq vre ne (Paginator_ListEntries cde enve innere) req st =
                 ((None, Some e), st')) \<and>
      (validateReq req = None \<and> innere req (snd st) = ((Some rese, None), we) \<longrightarrow>
         validate validateReq vre ne (Paginator_ListEntries cde enve innere) req st =
           ((None, Some (ConnectError CodeInvalidArgument (TokenError fe))), (fst st, we))) \<and>
      (innere req (snd st) = ((Some rese, None), we) \<longrightarrow>
         Paginator_ListEntries cde enve innere req (snd st) =
           ((Some rese, Some (ConnectError CodeInvalidArgument (TokenError fe))), we)) \<and>
      (faile req (snd st) = ((re, Some erre), xe) \<longrightarrow>
         Paginator_ListEntries cde enve faile req (snd st) = ((None, Some erre), xe) \<and>
         (validateReq req = None \<longrightarrow>
            validate validateReq vre ne (Paginator_ListEntries cde enve faile) req st =
              ((None, Some erre), (fst st, xe))))"
    if t: "page_token req \<noteq> []" "FromToken cde (page_token req) = Inl fe"
  proof -
    have h: "Paginator_ListEntries cde enve innere req w =
      (case innere req w of
         ((_, Some err), w') \<Rightarrow> ((None, Some err), w')
       | ((None, None), w') \<Rightarrow> ((None, Some NilDereference), w')
       | ((Some res, None), w') \<Rightarrow>
           ((Some res, Some (ConnectError CodeInvalidArgument (TokenError fe))), w'))" for w
      by (simp add: Paginator_ListEntries_def applyPagination_bad_token [OF t]
            split: prod.splits option.splits)
    have ab: "(\<exists>e st'. validate validateReq vre ne (Paginator_ListEntries cde enve innere) req st =
                 ((None, Some e), st')) \<and>
      (validateReq req = None \<and> innere req (snd st) = ((Some rese, None), we) \<longrightarrow>
         validate validateReq vre ne (Paginator_ListEntries cde enve innere) req st =
           ((None, Some (ConnectError CodeInvalidArgument (TokenError fe))), (fst st, we)))"
      by (rule validate_bad_token [where handle = "Paginator_ListEntries cde enve innere" and inner = innere and req = req, OF h])
    have c: "innere req (snd st) = ((Some rese, None), we) \<longrightarrow>
         Paginator_ListEntries cde enve innere req (snd st) =
           ((Some rese, Some (ConnectError CodeInvalidArgument (TokenError fe))), we)"
      by (simp add: h)
    have p: "Paginator_ListEntries cde enve faile req (snd st) = ((None, Some erre), xe)"
      if i: "faile req (snd st) = ((re, Some erre), xe)"
      by (simp add: Paginator_ListEntries_def i split: option.splits)
    have d: "faile req (snd st) = ((re, Some erre), xe) \<longrightarrow>
         Paginator_ListEntries cde enve faile req (snd st) = ((None, Some erre), xe) \<and>
         (validateReq req = None \<longrightarrow>
            validate validateReq vre ne (Paginator_ListEntries cde enve faile) req st =
              ((None, Some erre), (fst st, xe)))"
      using p validate_handler_error [where handle = "Paginator_ListEntries cde enve faile" and req = req and st = st
          and validateReq = validateReq and validateRes = vre and name = ne]
      by simp
    show ?thesis using ab c d by blast
  qed
  have h: "(\<exists>e st'. validate validateReq vrh nh (Paginator_ListChapters cdh envh innerh) req st =
                 ((None, Some e), st')) \<and>
      (validateReq req = None \<and> innerh req (snd st) = ((Some resh, None), wh) \<longrightarrow>
         validate validateReq vrh nh (Paginator_ListChapters cdh envh innerh) req st =
           ((None, Some (ConnectError CodeInvalidArgument (TokenError fh))), (fst st, wh))) \<and>
      (innerh req (snd st) = ((Some resh, None), wh) \<longrightarrow>
         Paginator_ListChapters cdh envh innerh req (snd st) =
           ((Some resh, Some (ConnectError CodeInvalidArgument (TokenError fh))), wh)) \<and>
      (failh req (snd st) = ((rh, Some errh), xh) \<longrightarrow>
         Paginator_ListChapters cdh envh failh req (snd st) = ((None, Some errh), xh) \<and>
         (validateReq req = None \<longrightarrow>
            validate validateReq vrh nh (Paginator_ListChapters cdh envh failh) req st =
              ((None, Some errh), (fst st, xh))))"
    if t: "page_token req \<noteq> []" "FromToken cdh (page_token req) = Inl fh"
  proof -
    have h: "Paginator_ListChapters cdh envh innerh req w =
      (case innerh req w of
         ((_, Some err), w') \<Rightarrow> ((None, Some err), w')
       | ((None, None), w') \<Rightarrow> ((None, Some NilDereference), w')
       | ((Some res, None), w') \<Rightarrow>
           ((Some res, Some (ConnectError CodeInvalidArgument (TokenError fh))), w'))" for w
      by (simp add: Paginator_ListChapters_def applyPagination_bad_token [OF t]
            split: prod.splits option.splits)
    have ab: "(\<exists>e st'. validate validateReq vrh nh (Paginator_ListChapters cdh envh innerh) req st =
                 ((None, Some e), st')) \<and>
      (validateReq req = None \<and> innerh req (snd st) = ((Some resh, None), wh) \<longrightarrow>
         validate validateReq vrh nh (Paginator_ListChapters cdh envh innerh) req st =
           ((None, Some (ConnectError CodeInvalidArgument (TokenError fh))), (fst st, wh)))"
      by (rule validate_bad_token [where handle = "Paginator_ListChapters cdh envh innerh" and inner = innerh and req = req, OF h])
    have c: "innerh req (snd st) = ((Some resh, None), wh) \<longrightarrow>
         Paginator_ListChapters cdh envh innerh req (snd st) =
           ((Some resh, Some (ConnectError CodeInvalidArgument (TokenError fh))), wh)"
      by (simp add: h)
    have p: "Paginator_ListChapters cdh envh failh req (snd st) = ((None, Some errh), xh)"
      if i: "failh req (snd st) = ((rh, Some errh), xh)"
      by (simp add: Paginator_ListChapters_def i split: option.splits)
    have d: "failh req (snd st) = ((rh, Some errh), xh) \<longrightarrow>
         Paginator_ListChapters cdh envh failh req (snd st) = ((None, Some errh), xh) \<and>
         (validateReq req = None \<longrightarrow>
            validate validateReq vrh nh (Paginator_ListChapters cdh envh failh) req st =
              ((None, Some errh), (fst st, xh)))"
      using p validate_handler_error [where handle = "Paginator_ListChapters cdh envh failh" and req = req and st = st
          and validateReq = validateReq and validateRes = vrh and name = nh]
      by simp
    show ?thesis using ab c d by blast
  qed
  have u: "(\<exists>e st'. validate validateReq vru nu (Paginator_ListUsers cdu envu inneru) req st =
                 ((None, Some e), st')) \<and>
      (validateReq req = None \<and> inneru req (snd st) = ((Some resu, None), wu) \<longrightarrow>
         validate validateReq vru nu (Paginator_ListUsers cdu envu inneru) req st =
           ((None, Some (ConnectError CodeInvalidArgument (TokenError fu))), (fst st, wu))) \<and>
      (inneru req (snd st) = ((Some resu, None), wu) \<longrightarrow>
         Paginator_ListUsers cdu envu inneru req (snd st) =
           ((Some resu, Some (ConnectError CodeInvalidArgument (TokenError fu))), wu)) \<and>
      (failu req (snd st) = ((ru, Some erru), xu) \<longrightarrow>
         Paginator_ListUsers cdu envu failu req (snd st) = ((None, Some erru), xu) \<and>
         (validateReq req = None \<longrightarrow>
            validate validateReq vru nu (Paginator_ListUsers cdu envu failu) req st =
              ((None, Some erru), (fst st, xu))))"
    if t: "page_token req \<noteq> []" "FromToken cdu (page_token req) = Inl fu"
  proof -
    have h: "Paginator_ListUsers cdu envu inneru req w =
      (case inneru req w of
         ((_, Some err), w') \<Rightarrow> ((None, Some err), w')
       | ((None, None), w') \<Rightarrow> ((None, Some NilDereference), w')
       | ((Some res, None), w') \<Rightarrow>
           ((Some res, Some (ConnectError CodeInvalidArgument (TokenError fu))), w'))" for w
      by (simp add: Paginator_ListUsers_def applyPagination_bad_token [OF t]
            split: prod.splits option.splits)
    have ab: "(\<exists>e st'. validate validateReq vru nu (Paginator_ListUsers cdu envu inneru) req st =
                 ((None, Some e), st')) \<and>
      (validateReq req = None \<and> inneru req (snd st) = ((Some resu, None), wu) \<longrightarrow>
         validate validateReq vru nu (Paginator_ListUsers cdu envu inneru) req st =
           ((None, Some (ConnectError CodeInvalidArgument (TokenError fu))), (fst st, wu)))"
      by (rule validate_bad_token [where handle = "Paginator_ListUsers cdu envu inneru" and inner = inneru and req = req, OF h])
    have c: "inneru req (snd st) = ((Some resu, None), wu) \<longrightarrow>
         Paginator_ListUsers cdu envu inneru req (snd st) =
           ((Some resu, Some (ConnectError CodeInvalidArgument (TokenError fu))), wu)"
      by (simp add: h)
    have p: "Paginator_ListUsers cdu envu failu req (snd st) = ((None, Some erru), xu)"
      if i: "failu req (snd st) = ((ru, Some erru), xu)"
      by (simp add: Paginator_ListUsers_def i split: option.splits)
    have d: "failu req (snd st) = ((ru, Some erru), xu) \<longrightarrow>
         Paginator_ListUsers cdu envu failu req (snd st) = ((None, Some erru), xu) \<and>
         (validateReq req = None \<longrightarrow>
            validate validateReq vru nu (Paginator_ListUsers cdu envu failu) req st =
              ((None, Some erru), (fst st, xu)))"
      using p validate_handler_error [where handle = "Paginator_ListUsers cdu envu failu" and req = req and st = st
          and validateReq = validateReq and validateRes = vru and name = nu]
      by simp
    show ?thesis using ab c d by blast
  qed
  have Ic: "page_token req \<noteq> [] \<and> FromToken cdc (page_token req) = Inl fc \<longrightarrow>
      (\<exists>e st'. validate validateReq vrc nc (Paginator_ListCategories cdc envc innerc) req st =
                 ((None, Some e), st')) \<and>
      (validateReq req = None \<and> innerc req (snd st) = ((Some resc, None), wc) \<longrightarrow>
         validate validateReq vrc nc (Paginator_ListCategories cdc envc innerc) req st =
           ((None, Some (ConnectError CodeInvalidArgument (TokenError fc))), (fst st, wc))) \<and>
      (innerc req (snd st) = ((Some resc, None), wc) \<longrightarrow>
         Paginator_ListCategories cdc envc innerc req (snd st) =
           ((Some resc, Some (ConnectError CodeInvalidArgument (TokenError fc))), wc)) \<and>
      (failc req (snd st) = ((rc, Some errc), xc) \<longrightarrow>
         Paginator_ListCategories cdc envc failc req (snd st) = ((None, Some errc), xc) \<and>
         (validateReq req = None \<longrightarrow>
            validate validateReq vrc nc (Paginator_ListCategories cdc envc failc) req st =
              ((None, Some errc), (fst st, xc))))"
    by (rule impI, erule conjE, rule c, assumption+)
  have Ie: "page_token req \<noteq> [] \<and> FromToken cde (page_token req) = Inl fe \<longrightarrow>
      (\<exists>e st'. validate validateReq vre ne (Paginator_ListEntries cde enve innere) req st =
                 ((None, Some e), st')) \<and>
      (validateReq req = None \<and> innere req (snd st) = ((Some rese, None), we) \<longrightarrow>
         validate validateReq vre ne (Paginator_ListEntries cde enve innere) req st =
           ((None, Some (ConnectError CodeInvalidArgument (TokenError fe))), (fst st, we))) \<and>
      (innere req (snd st) = ((Some rese, None), we) \<longrightarrow>
         Paginator_ListEntries cde enve innere req (snd st) =
           ((Some rese, Some (ConnectError CodeInvalidArgument (TokenError fe))), we)) \<and>
      (faile req (snd st) = ((re, Some erre), xe) \<longrightarrow>
         Paginator_ListEntries cde enve faile req (snd st) = ((None, Some erre), xe) \<and>
         (validateReq req = None \<longrightarrow>
            validate validateReq vre ne (Paginator_ListEntries cde enve faile) req st =
              ((None, Some erre), (fst st, xe))))"
    by (rule impI, erule conjE, rule e, assumption+)
  have Ih: "page_token req \<noteq> [] \<and> FromToken cdh (page_token req) = Inl fh \<longrightarrow>
      (\<exists>e st'. validate validateReq vrh nh (Paginator_ListChapters cdh envh innerh) req st =
                 ((None, Some e), st')) \<and>
      (validateReq req = None \<and> innerh req (snd st) = ((Some resh, None), wh) \<longrightarrow>
         validate validateReq vrh nh (Paginator_ListChapters cdh envh innerh) req st =
           ((None, Some (ConnectError CodeInvalidArgument (TokenError fh))), (fst st, wh))) \<and>
      (innerh req (snd st) = ((Some resh, None), wh) \<longrightarrow>
         Paginator_ListChapters cdh envh innerh req (snd st) =
           ((Some resh, Some (ConnectError CodeInvalidArgument (TokenError fh))), wh)) \<and>
      (failh req (snd st) = ((rh, Some errh), xh) \<longrightarrow>
         Paginator_ListChapters cdh envh failh req (snd st) = ((None, Some errh), xh) \<and>
         (validateReq req = None \<longrightarrow>
            validate validateReq vrh nh (Paginator_ListChapters cdh envh failh) req st =
              ((None, Some errh), (fst st, xh))))"
    by (rule impI, erule conjE, rule h, assumption+)
  have Iu: "page_token req \<noteq> [] \<and> FromToken cdu (page_token req) = Inl fu \<longrightarrow>
      (\<exists>e st'. validate validateReq vru nu (Paginator_ListUsers cdu envu inneru) req st =
                 ((None, Some e), st')) \<and>
      (validateReq req = None \<and> inneru req (snd st) = ((Some resu, None), wu) \<longrightarrow>
         validate validateReq vru nu (Paginator_ListUsers cdu envu inneru) req st =
           ((None, Some (ConnectError CodeInvalidArgument (TokenError fu))), (fst st, wu))) \<and>
      (inneru req (snd st) = ((Some resu, None), wu) \<longrightarrow>
         Paginator_ListUsers cdu envu inneru req (snd st) =
           ((Some resu, Some (ConnectError CodeInvalidArgument (TokenError fu))), wu)) \<and>
      (failu req (snd st) = ((ru, Some erru), xu) \<longrightarrow>
         Paginator_ListUsers cdu envu failu req (snd st) = ((None, Some erru), xu) \<and>
         (validateReq req = None \<longrightarrow>
            validate validateReq vru nu (Paginator_ListUsers cdu envu failu) req st =
              ((None, Some erru), (fst st, xu))))"
    by (rule impI, erule conjE, rule u, assumption+)
  show ?thesis
    by (intro conjI Ic Ie Ih Iu)
qed

text \<open>
  The theorem at the token \<open>!!!\<close>, which no codec decodes, over handlers that return the
  example listings and over handlers that fail: NotFound for categories, entries and
  chapters, and the Users layer for users.
\<close>

theorem malformed_token_rejected_witness:
  "validate (\<lambda>q. None) (\<lambda>r. None) ''ListCategories''
     (Paginator_ListCategories (table_codec []) (\<lambda>f. Inl ''unused'') (\<lambda>q w. ((Some (\<lparr> results = example_categories, next_page_token = [] \<rparr> :: category list_response), None), w)))
     \<lparr> parent = [], filter_expr = None, max_page_size = 0, page_token = ''!!!'' \<rparr> ([], ()) =
     ((None, Some (ConnectError CodeInvalidArgument (TokenError DecodeFailed))), ([], ())) \<and>
   Paginator_ListCategories (table_codec []) (\<lambda>f. Inl ''unused'') (\<lambda>q w. ((Some (\<lparr> results = example_categories, next_page_token = [] \<rparr> :: category list_response), None), w))
     \<lparr> parent = [], filter_expr = None, max_page_size = 0, page_token = ''!!!'' \<rparr> () =
     ((Some \<lparr> results = example_categories, next_page_token = [] \<rparr>,
       Some (ConnectError CodeInvalidArgument (TokenError DecodeFailed))), ()) \<and>
   Paginator_ListCategories (table_codec []) (\<lambda>f. Inl ''unused'') (\<lambda>q w. ((None :: category list_response option, Some (ConnectError CodeNotFound NoCause)), w))
     \<lparr> parent = [], filter_expr = None, max_page_size = 0, page_token = ''!!!'' \<rparr> () =
     ((None, Some (ConnectError CodeNotFound NoCause)), ()) \<and>
   validate (\<lambda>q. None) (\<lambda>r. None) ''ListCategories''
     (Paginator_ListCategories (table_codec []) (\<lambda>f. Inl ''unused'') (\<lambda>q w. ((None :: category list_response option, Some (ConnectError CodeNotFound NoCause)), w)))
     \<lparr> parent = [], filter_expr = None, max_page_size = 0, page_token = ''!!!'' \<rparr> ([], ()) =
     ((None, Some (ConnectError CodeNotFound NoCause)), ([], ())) \<and>
   validate (\<lambda>q. None) (\<lambda>r. None) ''ListEntries''
     (Paginator_ListEntries (table_codec []) (\<lambda>f. Inl ''unused'') (\<lambda>q w. ((Some (\<lparr> results = example_entries, next_page_token = [] \<rparr> :: entry list_response), None), w)))
     \<lparr> parent = [], filter_expr = None, max_page_size = 0, page_token = ''!!!'' \<rparr> ([], ()) =
     ((None, Some (ConnectError CodeInvalidArgument (TokenError DecodeFailed))), ([], ())) \<and>
   Paginator_ListEntries (table_codec []) (\<lambda>f. Inl ''unused'') (\<lambda>q w. ((Some (\<lparr> results = example_entries, next_page_token = [] \<rparr> :: entry list_response), None), w))
     \<lparr> parent = [], filter_expr = None, max_page_size = 0, page_token = ''!!!'' \<rparr> () =
     ((Some \<lparr> results = example_entries, next_page_token = [] \<rparr>,
       Some (ConnectError CodeInvalidArgument (TokenError DecodeFailed))), ()) \<and>
   Paginator_ListEntries (table_codec []) (\<lambda>f. Inl ''unused'') (\<lambda>q w. ((None :: entry list_response option, Some (ConnectError CodeNotFound NoCause)), w))
     \<lparr> parent = [], filter_expr = None, max_page_size = 0, page_token = ''!!!'' \<rparr> () =
     ((None, Some (ConnectError CodeNotFound NoCause)), ()) \<and>
   validate (\<lambda>q. None) (\<lambda>r. None) ''ListEntries''
     (Paginator_ListEntries (table_codec []) (\<lambda>f. Inl ''unused'') (\<lambda>q w. ((None :: entry list_response option, Some (ConnectError CodeNotFound NoCause)), w)))
     \<lparr> parent = [], filter_expr = None, max_page_size = 0, page_token = ''!!!'' \<rparr> ([], ()) =
     ((None, Some (ConnectError CodeNotFound NoCause)), ([], ())) \<and>
   validate (\<lambda>q. None) (\<lambda>r. None) ''ListChapters''
     (Paginator_ListChapters (table_codec []) (\<lambda>f. Inl ''unused'') (\<lambda>q w. ((Some (\<lparr> results = example_chapters, next_page_token = [] \<rparr> :: chapter_msg list_response), None), w)))
     \<lparr> parent = [], filter_expr = None, max_page_size = 0, page_token = ''!!!'' \<rparr> ([], ()) =
     ((None, Some (ConnectError CodeInvalidArgument (TokenError DecodeFailed))), ([], ())) \<and>
   Paginator_ListChapters (table_codec []) (\<lambda>f. Inl ''unused'') (\<lambda>q w. ((Some (\<lparr> results = example_chapters, next_page_token = [] \<rparr> :: chapter_msg list_response), None), w))
     \<lparr> parent = [], filter_expr = None, max_page_size = 0, page_token = ''!!!'' \<rparr> () =
     ((Some \<lparr> results = example_chapters, next_page_token = [] \<rparr>,
       Some (ConnectError CodeInvalidArgument (TokenError DecodeFailed))), ()) \<and>
   Paginator_ListChapters (table_codec []) (\<lambda>f. Inl ''unused'') (\<lambda>q w. ((None :: chapter_msg list_response option, Some (ConnectError CodeNotFound NoCause)), w))
     \<lparr> parent = [], filter_expr = None, max_page_size = 0, page_token = ''!!!'' \<rparr> () =
     ((None, Some (ConnectError CodeNotFound NoCause)), ()) \<and>
   validate (\<lambda>q. None) (\<lambda>r. None) ''ListChapters''
     (Paginator_ListChapters (table_codec []) (\<lambda>f. Inl ''unused'') (\<lambda>q w. ((None :: chapter_msg list_response option, Some (ConnectError CodeNotFound NoCause)), w)))
     \<lparr> parent = [], filter_expr = None, max_page_size = 0, page_token = ''!!!'' \<rparr> ([], ()) =
     ((None, Some (ConnectError CodeNotFound NoCause)), ([], ())) \<and>
   validate (\<lambda>q. None) (\<lambda>r. None) ''ListUsers''
     (Paginator_ListUsers (table_codec []) (\<lambda>f. Inl ''unused'') (\<lambda>q w. ((Some (\<lparr> results = example_users, next_page_token = [] \<rparr> :: user list_response), None), w)))
     \<lparr> parent = [], filter_expr = None, max_page_size = 0, page_token = ''!!!'' \<rparr> ([], ()) =
     ((None, Some (ConnectError CodeInvalidArgument (TokenError DecodeFailed))), ([], ())) \<and>
   Paginator_ListUsers (table_codec []) (\<lambda>f. Inl ''unused'') (\<lambda>q w. ((Some (\<lparr> results = example_users, next_page_token = [] \<rparr> :: user list_response), None), w))
     \<lparr> parent = [], filter_expr = None, max_page_size = 0, page_token = ''!!!'' \<rparr> () =
     ((Some \<lparr> results = example_users, next_page_token = [] \<rparr>,
       Some (ConnectError CodeInvalidArgument (TokenError DecodeFailed))), ()) \<and>
   Paginator_ListUsers (table_codec []) (\<lambda>f. Inl ''unused'') Users_ListUsers
     \<lparr> parent = [], filter_expr = None, max_page_size = 0, page_token = ''!!!'' \<rparr> () =
     ((None, Some (ConnectError CodePermissionDenied NoCause)), ()) \<and>
   validate (\<lambda>q. None) (\<lambda>r. None) ''ListUsers''
     (Paginator_ListUsers (table_codec []) (\<lambda>f. Inl ''unused'') Users_ListUsers)
     \<lparr> parent = [], filter_expr = None, max_page_size = 0, page_token = ''!!!'' \<rparr> ([], ()) =
     ((None, Some (ConnectError CodePermissionDenied NoCause)), ([], ()))"
proof -
  have d: "FromToken (table_codec []) ''!!!'' = Inl DecodeFailed"
    by (simp add: FromToken_def table_codec_def)
  show ?thesis
    using malformed_token_rejected
      [where validateReq = "\<lambda>q. None" and st = "([], ())"
        and req = "\<lparr> parent = [], filter_expr = None, max_page_size = 0, page_token = ''!!!'' \<rparr>"
        and cdc = "table_codec []" and fc = DecodeFailed and vrc = "\<lambda>r. None" and nc = "''ListCategories''"
        and envc = "\<lambda>f. Inl ''unused''" and innerc = "(\<lambda>q w. ((Some (\<lparr> results = example_categories, next_page_token = [] \<rparr> :: category list_response), None), w))"
        and resc = "\<lparr> results = example_categories, next_page_token = [] \<rparr>" and wc = "()"
        and failc = "(\<lambda>q w. ((None :: category list_response option, Some (ConnectError CodeNotFound NoCause)), w))" and rc = None and errc = "ConnectError CodeNotFound NoCause" and xc = "()"
        and cde = "table_codec []" and fe = DecodeFailed and vre = "\<lambda>r. None" and ne = "''ListEntries''"
        and enve = "\<lambda>f. Inl ''unused''" and innere = "(\<lambda>q w. ((Some (\<lparr> results = example_entries, next_page_token = [] \<rparr> :: entry list_response), None), w))"
        and rese = "\<lparr> results = example_entries, next_page_token = [] \<rparr>" and we = "()"
        and faile = "(\<lambda>q w. ((None :: entry list_response option, Some (ConnectError CodeNotFound NoCause)), w))" and re = None and erre = "ConnectError CodeNotFound NoCause" and xe = "()"
        and cdh = "table_codec []" and fh = DecodeFailed and vrh = "\<lambda>r. None" and nh = "''ListChapters''"
        and envh = "\<lambda>f. Inl ''unused''" and innerh = "(\<lambda>q w. ((Some (\<lparr> results = example_chapters, next_page_token = [] \<rparr> :: chapter_msg list_response), None), w))"
        and resh = "\<lparr> results = example_chapters, next_page_token = [] \<rparr>" and wh = "()"
        and failh = "(\<lambda>q w. ((None :: chapter_msg list_response option, Some (ConnectError CodeNotFound NoCause)), w))" and rh = None and errh = "ConnectError CodeNotFound NoCause" and xh = "()"
        and cdu = "table_codec []" and fu = DecodeFailed and vru = "\<lambda>r. None" and nu = "''ListUsers''"
        and envu = "\<lambda>f. Inl ''unused''" and inneru = "(\<lambda>q w. ((Some (\<lparr> results = example_users, next_page_token = [] \<rparr> :: user list_response), None), w))"
        and resu = "\<lparr> results = example_users, next_page_token = [] \<rparr>" and wu = "()"
        and failu = "Users_ListUsers" and ru = None and erru = "ConnectError CodePermissionDenied NoCause" and xu = "()"]
    by (simp add: d Users_ListUsers_def)
qed

text \<open>
  Claim C7 as stated fails: \<open>ListUsers\<close> with a token that does not decode returns the
  PermissionDenied of the Users layer, which is called before the token is read.
\<close>

theorem malformed_token_counterexample:
  "FromToken (table_codec [] :: users_token codec) ''!!!'' = Inl DecodeFailed \<and>
   validate (\<lambda>q. None) (\<lambda>r. None) ''ListUsers''
     (Paginator_ListUsers (table_codec []) (\<lambda>f. Inl ''unused'') Users_ListUsers)
     \<lparr> parent = [], filter_expr = None, max_page_size = 0, page_token = ''!!!'' \<rparr> ([], ()) =
     ((None, Some (ConnectError CodePermissionDenied NoCause)), ([], ()))"
  by (simp add: FromToken_def table_codec_def validate_def Paginator_ListUsers_def Users_ListUsers_def)


subsection \<open>Order of the pagination steps and the page counter\<close>

lemma IndexFunc_less: "IndexFunc f xs = Some i \<Longrightarrow> i < length xs"
  by (induction xs arbitrary: i) (auto split: if_splits)

lemma ContextEval_filter:
  "ContextEval p xs = Inr ys \<Longrightarrow> ys = filter (\<lambda>x. p x = Inr True) xs"
proof (induction xs arbitrary: ys)
  case Nil
  then show ?case by simp
next
  case (Cons x xs)
  then show ?case by (auto split: sum.splits if_splits)
qed

lemma applyFilter_ok:
  assumes "applyFilter env req res = (res2, None)"
  shows "results res2 = spec_filtered env req (results res)"
    and "next_page_token res2 = next_page_token res"
  using assms
  by (auto simp: applyFilter_def spec_filtered_def dest: ContextEval_filter
        split: option.splits if_splits sum.splits)

lemma applyToken_ok:
  assumes "applyToken cd (page_token req) cursor st = (st1, None)"
  shows "results (fst st1) = spec_after_token cd cursor req st"
    and "page_token req = [] \<Longrightarrow> st1 = st"
    and "page_token req \<noteq> [] \<Longrightarrow> \<exists>tkn. FromToken cd (page_token req) = Inr tkn \<and> st1 = cursor tkn st"
  using assms
  by (auto simp: applyToken_def spec_after_token_def split: if_splits sum.splits)












lemma entriesTokenFn_count:
  "snd (entriesTokenFn tkn st) = int (length (results (fst (entriesTokenFn tkn st))))"
proof (cases "IndexFunc (\<lambda>e. path e = after_entry tkn \<and> update_time e = start_update_time tkn)
                (results (fst st))")
  case (Some idx)
  from IndexFunc_less [OF this] Some show ?thesis
    by (simp add: entriesTokenFn_def Let_def)
next
  case None
  show ?thesis
  proof (cases "IndexFunc (\<lambda>e. AsTime (start_update_time tkn) = AsTime (update_time e) \<or>
                          AsTime (start_update_time tkn) < AsTime (update_time e))
                  (results (fst st))")
    case (Some idx)
    from IndexFunc_less [OF this] Some None show ?thesis
      by (simp add: entriesTokenFn_def Let_def)
  next
    case none: None
    with None show ?thesis by (simp add: entriesTokenFn_def Let_def)
  qed
qed

lemma entriesTokenFn_next_page_token:
  "next_page_token (fst (entriesTokenFn tkn st)) = next_page_token (fst st)"
  by (simp add: entriesTokenFn_def Let_def split: option.splits)

lemma filter_same_length: "length (filter P xs) = length xs \<Longrightarrow> filter P xs = xs"
  by (metis filter_True length_filter_less less_irrefl_nat order.strict_iff_order length_filter_le)

text \<open>
  With \<open>n\<close> elements after the cursor, a filter that keeps \<open>F\<close> of them and a page size that
  \<open>F\<close> reaches, the test of the closure holds exactly when the page is the whole list after
  the cursor.
\<close>

lemma exhausted_iff:
  fixes L :: "'a list"
  assumes "F = filter P L \<or> F = L" "0 < sz" "sz \<le> int (length F)"
  shows "(0 < int (length L) \<and> int (length L) \<le> sz) \<longleftrightarrow> take (nat sz) F = L"
proof
  assume a: "0 < int (length L) \<and> int (length L) \<le> sz"
  have le: "length F \<le> length L" using assms(1) by auto
  with a assms(3) have eq: "length F = length L" "nat sz = length L" by linarith+
  with assms(1) have "F = L" using filter_same_length by metis
  with eq show "take (nat sz) F = L" by simp
next
  assume t: "take (nat sz) F = L"
  then have "length L = min (length F) (nat sz)" by (metis length_take)
  with assms(2,3) show "0 < int (length L) \<and> int (length L) \<le> sz" by linarith
qed


lemma spec_filtered_cases:
  "spec_filtered env req xs = xs \<or> (\<exists>P. spec_filtered env req xs = filter P xs)"
  by (auto simp: spec_filtered_def split: option.splits sum.splits)

text \<open>
  Claim C4. In a \<open>ListEntries\<close> call through the Paginator that succeeds, with a cursor token
  applied and a page size that the filtered results reach (so that the page is cut and a
  continuation token built): the continuation token encodes a token whose page counter is
  the one of the token it starts from (the next page token of the wrapped handler, or page 1
  when there is none) plus one exactly when the retained page is the whole list of the
  results after the cursor, before filtering; otherwise it is that counter unchanged.
\<close>

theorem upstream_page_counter:
  assumes inner: "inner req w = ((Some res, None), w')"
    and ok: "Paginator_ListEntries cd env inner req w = ((Some out, None), v)"
    and tok: "page_token req \<noteq> []"
    and sz: "0 < max_page_size req"
      "max_page_size req \<le>
         int (length (spec_filtered env req (spec_after_token cd entriesTokenFn req (res, 0))))"
  shows "\<exists>base tk.
     (if next_page_token res = []
      then base = \<lparr> page = 1, after_entry = [], start_update_time = None \<rparr>
      else FromToken cd (next_page_token res) = Inr base) \<and>
     ToToken cd tk = Inr (next_page_token out) \<and>
     page tk = (if results out = spec_after_token cd entriesTokenFn req (res, 0)
                then page base + 1 else page base)"
proof -
  let ?L = "spec_after_token cd entriesTokenFn req (res, 0)"
  let ?F = "spec_filtered env req ?L"
  let ?n = "max_page_size req"
  obtain aux where ap: "applyPagination cd env req entriesTokenFn entriesSizeFn (res, 0) =
        ((out, aux), None)"
    using ok by (auto simp: Paginator_ListEntries_def inner split: prod.splits)
  from ap obtain st1 where 1: "applyToken cd (page_token req) entriesTokenFn (res, 0) = (st1, None)"
    by (auto simp: applyPagination_def split: prod.splits option.splits)
  from ap 1 obtain res2 where 2: "applyFilter env req (fst st1) = (res2, None)"
    by (auto simp: applyPagination_def split: prod.splits option.splits)
  from ap 1 2 have 3: "applyPageSize cd req entriesSizeFn (res2, snd st1) = ((out, aux), None)"
    by (simp add: applyPagination_def)
  from applyToken_ok(3) [OF 1 tok] obtain tkn where
    tkn: "FromToken cd (page_token req) = Inr tkn" "st1 = entriesTokenFn tkn (res, 0)"
    by blast
  have L: "results (fst st1) = ?L" by (rule applyToken_ok(1) [OF 1])
  have n: "snd st1 = int (length ?L)"
    using entriesTokenFn_count [of tkn "(res, 0)"] tkn(2) L by simp
  have F: "results res2 = ?F" using applyFilter_ok(1) [OF 2] L by simp
  have npt: "next_page_token res2 = next_page_token res"
    using applyFilter_ok(2) [OF 2] entriesTokenFn_next_page_token [of tkn "(res, 0)"] tkn(2)
    by simp
  have go: "\<not> (?n \<le> 0 \<or> int (length (results res2)) < ?n)"
    using sz F by simp
  obtain tkn0 where t0: "(if next_page_token res \<noteq> []
                  then (case FromToken cd (next_page_token res) of
                          Inl f \<Rightarrow> Inl f
                        | Inr t \<Rightarrow> Inr (Some t))
                  else Inr None) = Inr tkn0"
    using 3 go npt by (auto simp: applyPageSize_def Let_def split: sum.splits if_splits)
  define base where "base = (case tkn0 of
                      None \<Rightarrow> \<lparr> page = 1, after_entry = [], start_update_time = None \<rparr>
                    | Some t \<Rightarrow> t)"
  define tk1 where "tk1 = (if snd st1 > 0 \<and> snd st1 \<le> ?n
                    then base\<lparr> page := page base + 1 \<rparr> else base)"
  define rs where "rs = take (nat ?n) (results res2)"
  define tk where "tk = tk1\<lparr> after_entry := path (rs ! (nat ?n - 1)),
                        start_update_time := update_time (rs ! (nat ?n - 1)) \<rparr>"
  have sf: "entriesSizeFn ?n tkn0 (res2, snd st1) = (Some tk, res2\<lparr> results := rs \<rparr>, snd st1)"
    by (simp add: entriesSizeFn_def Let_def tk_def tk1_def base_def rs_def)
  have enc: "ToToken cd tk = Inr (next_page_token out)" and outr: "results out = rs"
    using 3 go npt t0 sf
    by (auto simp: applyPageSize_def Let_def split: sum.splits)
  have b: "if next_page_token res = []
      then base = \<lparr> page = 1, after_entry = [], start_update_time = None \<rparr>
      else FromToken cd (next_page_token res) = Inr base"
    using t0 by (auto simp: base_def split: if_splits sum.splits)
  have "?F = ?L \<or> (\<exists>P. ?F = filter P ?L)" by (rule spec_filtered_cases)
  then obtain P where P: "?F = filter P ?L \<or> ?F = ?L" by blast
  have iff: "(0 < snd st1 \<and> snd st1 \<le> ?n) \<longleftrightarrow> results out = ?L"
    using exhausted_iff [OF P sz] n outr F by (simp add: rs_def)
  have pg: "page tk = (if results out = ?L then page base + 1 else page base)"
    using iff by (simp add: tk_def tk1_def)
  from b enc pg show ?thesis by blast
qed


text \<open>
  The theorem at a listing of three entries, a cursor after the first and a page size of two:
  the page holds the two entries after the cursor and the continuation token names page 2.
\<close>

theorem upstream_page_counter_witness:
  "Paginator_ListEntries example_entries_codec example_entry_filter
     (\<lambda>q w. ((Some \<lparr> results = example_entries, next_page_token = ''c2NyYXBlcg'' \<rparr>, None), w))
     \<lparr> parent = ''categories/foo'', filter_expr = None, max_page_size = 2,
       page_token = ''Y3Vyc29y'' \<rparr> () =
     ((Some \<lparr> results = tl example_entries, next_page_token = ''bmV4dA'' \<rparr>, None), ()) \<and>
   (\<exists>base tk. FromToken example_entries_codec ''c2NyYXBlcg'' = Inr base \<and>
      ToToken example_entries_codec tk = Inr ''bmV4dA'' \<and> page tk = page base + 1)"
proof -
  let ?req = "\<lparr> parent = ''categories/foo'', filter_expr = None, max_page_size = 2,
                 page_token = ''Y3Vyc29y'' \<rparr>"
  let ?res = "\<lparr> results = example_entries, next_page_token = ''c2NyYXBlcg'' \<rparr>"
  let ?inner = "\<lambda>(q :: list_request) (w :: unit). ((Some ?res, None :: error option), w)"
  have inner: "?inner ?req () = ((Some ?res, None), ())" by simp
  have ok: "Paginator_ListEntries example_entries_codec example_entry_filter ?inner ?req () =
     ((Some \<lparr> results = tl example_entries, next_page_token = ''bmV4dA'' \<rparr>, None), ())"
    by code_simp
  have L: "spec_after_token example_entries_codec entriesTokenFn ?req (?res, 0) = tl example_entries"
    by code_simp
  have F: "spec_filtered example_entry_filter ?req (tl example_entries) = tl example_entries"
    by (simp add: spec_filtered_def)
  have n: "length example_entries = 3" by (simp add: example_entries_def)
  from upstream_page_counter [OF inner ok]
  show ?thesis using ok by (simp add: L F n)
qed




section \<open>Properties of the Validator\<close>

text \<open>
  Claim C8. If the request fails its schema validation, \<open>validate\<close> returns InvalidArgument
  with no response, and neither the result nor the state depends on the wrapped handler, which
  is not invoked: the log and the state behind the handler are as before. If the request is
  valid and the handler returns a response without an error, the response is returned as it
  is also when it fails its schema validation; the failure only adds a warning to the log.
\<close>

theorem validator_contract:
  "(validateReq req = Some v \<longrightarrow>
      validate validateReq validateRes name handle req st =
        ((None, Some (ConnectError CodeInvalidArgument (Cause v))), st) \<and>
      validate validateReq validateRes name handle req st =
        validate validateReq validateRes name handle' req st) \<and>
   (validateReq req = None \<and> handle req (snd st) = ((Some res, None), w') \<and>
    validateRes res = Some v' \<longrightarrow>
      validate validateReq validateRes name handle req st =
        ((Some res, None), (fst st @ [Warn ''response validation failed'' v' name], w')))"
  by (simp add: validate_def)

text \<open>
  The theorem at a validator that rejects a negative page size and an empty response, over a
  handler that counts its calls.
\<close>

theorem validator_contract_witness:
  "validate (\<lambda>q. if max_page_size q < 0 then Some ''max_page_size'' else None)
     (\<lambda>r :: user list_response. if results r = [] then Some ''results'' else None) ''ListUsers''
     (\<lambda>q w. ((Some \<lparr> results = [], next_page_token = [] \<rparr>, None), Suc w))
     \<lparr> parent = [], filter_expr = None, max_page_size = - 1, page_token = [] \<rparr> ([], 0 :: nat) =
     ((None, Some (ConnectError CodeInvalidArgument (Cause ''max_page_size''))), ([], 0)) \<and>
   validate (\<lambda>q. if max_page_size q < 0 then Some ''max_page_size'' else None)
     (\<lambda>r :: user list_response. if results r = [] then Some ''results'' else None) ''ListUsers''
     (\<lambda>q w. ((Some \<lparr> results = [], next_page_token = [] \<rparr>, None), Suc w))
     \<lparr> parent = [], filter_expr = None, max_page_size = 5, page_token = [] \<rparr> ([], 0 :: nat) =
     ((Some \<lparr> results = [], next_page_token = [] \<rparr>, None),
      ([Warn ''response validation failed'' ''results'' ''ListUsers''], 1))"
  using validator_contract
    [of "\<lambda>q. if max_page_size q < 0 then Some ''max_page_size'' else None"
        "\<lparr> parent = [], filter_expr = None, max_page_size = - 1, page_token = [] \<rparr>"
        "''max_page_size''"
        "\<lambda>r :: user list_response. if results r = [] then Some ''results'' else None"
        "''ListUsers''"
        "\<lambda>q w. ((Some \<lparr> results = [], next_page_token = [] \<rparr>, None), Suc w)"
        "([], 0 :: nat)"]
    validator_contract
    [of "\<lambda>q. if max_page_size q < 0 then Some ''max_page_size'' else None"
        "\<lparr> parent = [], filter_expr = None, max_page_size = 5, page_token = [] \<rparr>"
        _
        "\<lambda>r :: user list_response. if results r = [] then Some ''results'' else None"
        "''ListUsers''"
        "\<lambda>q w. ((Some \<lparr> results = [], next_page_token = [] \<rparr>, None), Suc w)"
        "([], 0 :: nat)" _ "\<lparr> results = [], next_page_token = [] \<rparr>" "1" "''results''"]
  by simp


section \<open>Properties of Interactivity\<close>

lemma updateCategory_unrecognized:
  "\<exists>p\<in>set ps. ToLower p \<noteq> ''hidden'' \<Longrightarrow>
   updateCategory r c ps = Inl (ConnectError CodeInvalidArgument NoCause)"
  by (induction ps arbitrary: r) auto

lemma updateEntry_unrecognized:
  "\<exists>p\<in>set ps. ToLower p \<notin> {''hidden'', ''starred'', ''view_time'', ''read_time''} \<Longrightarrow>
   updateEntry r e ps = Inl (ConnectError CodeInvalidArgument NoCause)"
  by (induction ps arbitrary: r) auto

lemma updateChapter_unrecognized:
  "\<exists>p\<in>set ps. ToLower p \<notin> {''view_time'', ''read_time''} \<Longrightarrow>
   updateChapter r c ps = Inl (ConnectError CodeInvalidArgument NoCause)"
  by (induction ps arbitrary: r) auto

text \<open>
  The outcome of \<open>updateResource\<close> when the mask is rejected, either by the checks on the
  mask or by the update closure: the state is the one before the call, and the error is
  InvalidArgument unless the lookup failed.
\<close>

lemma updateResource_rejected:
  assumes "\<not> IsValid known (upd_mask msg) \<or> GetPaths (upd_mask msg) = [] \<or>
           (\<forall>r. update r (upd_resource msg) (upd_mask msg) = Inl (ConnectError CodeInvalidArgument NoCause))"
  shows "\<exists>e. updateResource store known user msg update w = (Some e, w) \<and>
             ((\<forall>err. GetResource store w user (upd_path msg) = Inl err \<longrightarrow> err = ErrNotFound) \<longrightarrow>
                e = ConnectError CodeInvalidArgument NoCause) \<and>
             ((\<exists>err. GetResource store w user (upd_path msg) = Inl err \<and> err \<noteq> ErrNotFound) \<longrightarrow>
                e = ConnectError CodeInternal (Cause ''store''))"
proof (cases "GetResource store w user (upd_path msg)")
  case (Inl err)
  then show ?thesis using assms
    by (cases err) (auto simp: updateResource_def Let_def)
next
  case (Inr r)
  then show ?thesis using assms
    by (auto simp: updateResource_def Let_def)
qed

text \<open>
  Claim C10, as amended. For a request whose field mask is invalid, empty, or names a field
  the operation does not recognise, each update operation returns an error and no response,
  never calls \<open>UpsertResource\<close> nor the \<open>Get\<close> handler, and leaves the store as it was. The
  error is InvalidArgument whenever the lookup of the stored record succeeded or found no
  record; when the lookup itself failed, it is Internal.
\<close>

theorem update_rejects_bad_mask:
  "(\<not> IsValid known (upd_mask creq) \<or> GetPaths (upd_mask creq) = [] \<or>
    (\<exists>p\<in>set (GetPaths (upd_mask creq)). ToLower p \<noteq> ''hidden'') \<longrightarrow>
      (\<exists>e. Interactivity_UpdateCategory store known user getCategory creq w = ((None, Some e), w) \<and>
           ((\<forall>err. GetResource store w user (upd_path creq) = Inl err \<longrightarrow> err = ErrNotFound) \<longrightarrow>
              e = ConnectError CodeInvalidArgument NoCause) \<and>
           ((\<exists>err. GetResource store w user (upd_path creq) = Inl err \<and> err \<noteq> ErrNotFound) \<longrightarrow>
              e = ConnectError CodeInternal (Cause ''store'')))) \<and>
   (\<not> IsValid known (upd_mask ereq) \<or> GetPaths (upd_mask ereq) = [] \<or>
    (\<exists>p\<in>set (GetPaths (upd_mask ereq)).
        ToLower p \<notin> {''hidden'', ''starred'', ''view_time'', ''read_time''}) \<longrightarrow>
      (\<exists>e. Interactivity_UpdateEntry store known user getEntry ereq w = ((None, Some e), w) \<and>
           ((\<forall>err. GetResource store w user (upd_path ereq) = Inl err \<longrightarrow> err = ErrNotFound) \<longrightarrow>
              e = ConnectError CodeInvalidArgument NoCause) \<and>
           ((\<exists>err. GetResource store w user (upd_path ereq) = Inl err \<and> err \<noteq> ErrNotFound) \<longrightarrow>
              e = ConnectError CodeInternal (Cause ''store'')))) \<and>
   (\<not> IsValid known (upd_mask hreq) \<or> GetPaths (upd_mask hreq) = [] \<or>
    (\<exists>p\<in>set (GetPaths (upd_mask hreq)). ToLower p \<notin> {''view_time'', ''read_time''}) \<longrightarrow>
      (\<exists>e. Interactivity_UpdateChapter store known user getChapter hreq w = ((None, Some e), w) \<and>
           ((\<forall>err. GetResource store w user (upd_path hreq) = Inl err \<longrightarrow> err = ErrNotFound) \<longrightarrow>
              e = ConnectError CodeInvalidArgument NoCause) \<and>
           ((\<exists>err. GetResource store w user (upd_path hreq) = Inl err \<and> err \<noteq> ErrNotFound) \<longrightarrow>
              e = ConnectError CodeInternal (Cause ''store''))))"
proof (intro conjI impI)
  assume a: "\<not> IsValid known (upd_mask creq) \<or> GetPaths (upd_mask creq) = [] \<or>
    (\<exists>p\<in>set (GetPaths (upd_mask creq)). ToLower p \<noteq> ''hidden'')"
  have "\<not> IsValid known (upd_mask creq) \<or> GetPaths (upd_mask creq) = [] \<or>
        (\<forall>r. updateCategory r (upd_resource creq) (GetPaths (upd_mask creq)) =
              Inl (ConnectError CodeInvalidArgument NoCause))"
    using a updateCategory_unrecognized by blast
  from updateResource_rejected [where update = "\<lambda>resource cat msk. updateCategory resource cat (GetPaths msk)"
      and store = store and user = user and w = w, OF this]
  obtain e0 where e0: "updateResource store known user creq (\<lambda>resource cat msk. updateCategory resource cat (GetPaths msk)) w = (Some e0, w)"
    "(\<forall>err. GetResource store w user (upd_path creq) = Inl err \<longrightarrow> err = ErrNotFound) \<longrightarrow>
       e0 = ConnectError CodeInvalidArgument NoCause"
    "(\<exists>err. GetResource store w user (upd_path creq) = Inl err \<and> err \<noteq> ErrNotFound) \<longrightarrow>
       e0 = ConnectError CodeInternal (Cause ''store'')"
    by blast
  from e0(2,3)
  show "\<exists>e. Interactivity_UpdateCategory store known user getCategory creq w = ((None, Some e), w) \<and>
           ((\<forall>err. GetResource store w user (upd_path creq) = Inl err \<longrightarrow> err = ErrNotFound) \<longrightarrow>
              e = ConnectError CodeInvalidArgument NoCause) \<and>
           ((\<exists>err. GetResource store w user (upd_path creq) = Inl err \<and> err \<noteq> ErrNotFound) \<longrightarrow>
              e = ConnectError CodeInternal (Cause ''store''))"
    by (intro exI [of _ e0]) (simp add: Interactivity_UpdateCategory_def e0(1))
next
  assume a: "\<not> IsValid known (upd_mask ereq) \<or> GetPaths (upd_mask ereq) = [] \<or>
    (\<exists>p\<in>set (GetPaths (upd_mask ereq)).
        ToLower p \<notin> {''hidden'', ''starred'', ''view_time'', ''read_time''})"
  have "\<not> IsValid known (upd_mask ereq) \<or> GetPaths (upd_mask ereq) = [] \<or>
        (\<forall>r. updateEntry r (upd_resource ereq) (GetPaths (upd_mask ereq)) =
              Inl (ConnectError CodeInvalidArgument NoCause))"
    using a updateEntry_unrecognized by blast
  from updateResource_rejected [where update = "\<lambda>resource e msk. updateEntry resource e (GetPaths msk)"
      and store = store and user = user and w = w, OF this]
  obtain e0 where e0: "updateResource store known user ereq (\<lambda>resource e msk. updateEntry resource e (GetPaths msk)) w = (Some e0, w)"
    "(\<forall>err. GetResource store w user (upd_path ereq) = Inl err \<longrightarrow> err = ErrNotFound) \<longrightarrow>
       e0 = ConnectError CodeInvalidArgument NoCause"
    "(\<exists>err. GetResource store w user (upd_path ereq) = Inl err \<and> err \<noteq> ErrNotFound) \<longrightarrow>
       e0 = ConnectError CodeInternal (Cause ''store'')"
    by blast
  from e0(2,3)
  show "\<exists>e. Interactivity_UpdateEntry store known user getEntry ereq w = ((None, Some e), w) \<and>
           ((\<forall>err. GetResource store w user (upd_path ereq) = Inl err \<longrightarrow> err = ErrNotFound) \<longrightarrow>
              e = ConnectError CodeInvalidArgument NoCause) \<and>
           ((\<exists>err. GetResource store w user (upd_path ereq) = Inl err \<and> err \<noteq> ErrNotFound) \<longrightarrow>
              e = ConnectError CodeInternal (Cause ''store''))"
    by (intro exI [of _ e0]) (simp add: Interactivity_UpdateEntry_def e0(1))
next
  assume a: "\<not> IsValid known (upd_mask hreq) \<or> GetPaths (upd_mask hreq) = [] \<or>
    (\<exists>p\<in>set (GetPaths (upd_mask hreq)). ToLower p \<notin> {''view_time'', ''read_time''})"
  have "\<not> IsValid known (upd_mask hreq) \<or> GetPaths (upd_mask hreq) = [] \<or>
        (\<forall>r. updateChapter r (upd_resource hreq) (GetPaths (upd_mask hreq)) =
              Inl (ConnectError CodeInvalidArgument NoCause))"
    using a updateChapter_unrecognized by blast
  from updateResource_rejected [where update = "\<lambda>resource c msk. updateChapter resource c (GetPaths msk)"
      and store = store and user = user and w = w, OF this]
  obtain e0 where e0: "updateResource store known user hreq (\<lambda>resource c msk. updateChapter resource c (GetPaths msk)) w = (Some e0, w)"
    "(\<forall>err. GetResource store w user (upd_path hreq) = Inl err \<longrightarrow> err = ErrNotFound) \<longrightarrow>
       e0 = ConnectError CodeInvalidArgument NoCause"
    "(\<exists>err. GetResource store w user (upd_path hreq) = Inl err \<and> err \<noteq> ErrNotFound) \<longrightarrow>
       e0 = ConnectError CodeInternal (Cause ''store'')"
    by blast
  from e0(2,3)
  show "\<exists>e. Interactivity_UpdateChapter store known user getChapter hreq w = ((None, Some e), w) \<and>
           ((\<forall>err. GetResource store w user (upd_path hreq) = Inl err \<longrightarrow> err = ErrNotFound) \<longrightarrow>
              e = ConnectError CodeInvalidArgument NoCause) \<and>
           ((\<exists>err. GetResource store w user (upd_path hreq) = Inl err \<and> err \<noteq> ErrNotFound) \<longrightarrow>
              e = ConnectError CodeInternal (Cause ''store''))"
    by (intro exI [of _ e0]) (simp add: Interactivity_UpdateChapter_def e0(1))
qed


text \<open>
  The theorem on the empty list store: a category mask naming \<open>display_name\<close> after
  \<open>Hidden\<close>, an empty entry mask and a nil chapter mask are each rejected with
  InvalidArgument, and the store stays empty.
\<close>

theorem update_rejects_bad_mask_witness:
  "Interactivity_UpdateCategory list_store (\<lambda>p. p \<noteq> []) 7
     (\<lambda>p w. ((None, Some (ConnectError CodeNotFound NoCause)), w))
     \<lparr> upd_path = ''categories/foo'',
       upd_resource = \<lparr> cat_path = ''categories/foo'', cat_display_name = [], cat_description = [],
                        cat_hidden = True \<rparr>,
       upd_mask = Some [''Hidden'', ''display_name''] \<rparr> [] =
     ((None, Some (ConnectError CodeInvalidArgument NoCause)), []) \<and>
   Interactivity_UpdateEntry list_store (\<lambda>p. p \<noteq> []) 7
     (\<lambda>p w. ((None, Some (ConnectError CodeNotFound NoCause)), w))
     \<lparr> upd_path = ''categories/foo/entries/bar'',
       upd_resource = \<lparr> path = ''categories/foo/entries/bar'', display_name = [], kind = STORY,
                        update_time = None, starred = True, hidden = False, view_time = None,
                        read_time = None \<rparr>,
       upd_mask = Some [] \<rparr> [] =
     ((None, Some (ConnectError CodeInvalidArgument NoCause)), []) \<and>
   Interactivity_UpdateChapter list_store (\<lambda>p. p \<noteq> []) 7
     (\<lambda>p w. ((None, Some (ConnectError CodeNotFound NoCause)), w))
     \<lparr> upd_path = ''categories/foo/entries/bar/chapters/one'',
       upd_resource = \<lparr> ch_path = ''categories/foo/entries/bar/chapters/one'', ch_display_name = [],
                        ch_update_time = None, ch_view_time = Some (1793525400, 0),
                        ch_read_time = None \<rparr>,
       upd_mask = None \<rparr> [] =
     ((None, Some (ConnectError CodeInvalidArgument NoCause)), [])"
proof -
  have lower: "ToLower ''display_name'' \<noteq> ''hidden''" by (simp add: ToLower_def)
  show ?thesis
    using lower update_rejects_bad_mask
      [of "\<lambda>p. p \<noteq> []"
        "\<lparr> upd_path = ''categories/foo'',
           upd_resource = \<lparr> cat_path = ''categories/foo'', cat_display_name = [], cat_description = [],
                            cat_hidden = True \<rparr>,
           upd_mask = Some [''Hidden'', ''display_name''] \<rparr>"
        list_store 7 "\<lambda>p w. ((None, Some (ConnectError CodeNotFound NoCause)), w)" "[]"
        "\<lparr> upd_path = ''categories/foo/entries/bar'',
           upd_resource = \<lparr> path = ''categories/foo/entries/bar'', display_name = [], kind = STORY,
                            update_time = None, starred = True, hidden = False, view_time = None,
                            read_time = None \<rparr>,
           upd_mask = Some [] \<rparr>"
        "\<lambda>p w. ((None, Some (ConnectError CodeNotFound NoCause)), w)"
        "\<lparr> upd_path = ''categories/foo/entries/bar/chapters/one'',
           upd_resource = \<lparr> ch_path = ''categories/foo/entries/bar/chapters/one'', ch_display_name = [],
                            ch_update_time = None, ch_view_time = Some (1793525400, 0),
                            ch_read_time = None \<rparr>,
           upd_mask = None \<rparr>"
        "\<lambda>p w. ((None, Some (ConnectError CodeNotFound NoCause)), w)"]
    by (auto simp: list_store_def GetPaths_def IsValid_def)
qed

text \<open>
  Claim C10 as stated fails: with an empty field mask and a store whose lookup fails,
  \<open>UpdateCategory\<close> returns Internal, not InvalidArgument.
\<close>

theorem update_lookup_failure_counterexample:
  "Interactivity_UpdateCategory failing_store (\<lambda>p. p \<noteq> []) 7
     (\<lambda>p w. ((None, Some (ConnectError CodeNotFound NoCause)), w))
     \<lparr> upd_path = ''categories/foo'',
       upd_resource = \<lparr> cat_path = ''categories/foo'', cat_display_name = [], cat_description = [],
                        cat_hidden = True \<rparr>,
       upd_mask = Some [] \<rparr> () =
     ((None, Some (ConnectError CodeInternal (Cause ''store''))), ())"
  by (simp add: Interactivity_UpdateCategory_def updateResource_def failing_store_def)


end
